theory Spec2Isabelle
  imports Main "HOL-Library.Word"
begin

unbundle bit_operations_syntax

section \<open>The gosym command: kinds, symbol lines, traversal and printing\<close>

text \<open>
  A shallow embedding of \<^verbatim>\<open>exp/cmd/gosym/gosym.go\<close>. Go strings are byte sequences and
  are modelled as \<^typ>\<open>string\<close> (lists of 8-bit characters); Go's \<^verbatim>\<open>uint\<close> is a
  64-bit word; \<^verbatim>\<open>int\<close> and \<^verbatim>\<open>token.Pos\<close> values are integers, with the range of
  \<^verbatim>\<open>int\<close> written out where the code depends on it (\<^verbatim>\<open>strconv.Atoi\<close>). A panic
  is a result of its own, apart from a returned error.
\<close>

subsection \<open>Object kinds and the kind mask\<close>

text \<open>
  Modelled from the spec: the declaration of \<^verbatim>\<open>ast.ObjKind\<close> (package
  \<^verbatim>\<open>exp/go/ast\<close>) is not among the sources. The spec's ObjectKind enumeration is
  Const, Type, Var, Func; the source also names \<^verbatim>\<open>ast.Pkg\<close>, and \<^verbatim>\<open>Bad\<close> is the zero
  value. The constants are consecutive, in this order, so the conversion
  \<^verbatim>\<open>uint(c)\<close> is the position in the enumeration.
\<close>

datatype ObjKind = Bad | Pkg | Con | Typ | Var | Fun

fun ObjKind_uint :: "ObjKind \<Rightarrow> nat" where
  "ObjKind_uint Bad = 0"
| "ObjKind_uint Pkg = 1"
| "ObjKind_uint Con = 2"
| "ObjKind_uint Typ = 3"
| "ObjKind_uint Var = 4"
| "ObjKind_uint Fun = 5"

text \<open>
  Modelled from the spec: the \<^verbatim>\<open>String\<close> method of \<^verbatim>\<open>ast.ObjKind\<close> is not among
  the sources. The spec's serialized kind tokens are const, type, var and func; the
  other two kinds are never the kind of a printed line.
\<close>

fun ObjKind_String :: "ObjKind \<Rightarrow> string" where
  "ObjKind_String Bad = ''bad''"
| "ObjKind_String Pkg = ''package''"
| "ObjKind_String Con = ''const''"
| "ObjKind_String Typ = ''type''"
| "ObjKind_String Var = ''var''"
| "ObjKind_String Fun = ''func''"

text \<open>The map \<^verbatim>\<open>objKinds\<close>; a lookup of a missing key is \<open>None\<close> (\<^verbatim>\<open>ok == false\<close>).\<close>

definition objKinds :: "string \<Rightarrow> ObjKind option" where
  "objKinds k =
     (if k = ''const'' then Some Con
      else if k = ''type'' then Some Typ
      else if k = ''var'' then Some Var
      else if k = ''func'' then Some Fun
      else None)"

text \<open>
  \<^verbatim>\<open>strings.Split(s, sep)\<close> for a separator of one byte: the pieces of \<open>s\<close> between
  the separators, always at least one piece. \<^verbatim>\<open>strings.Join\<close> puts them back.
\<close>

fun Split :: "string \<Rightarrow> char \<Rightarrow> string list" where
  "Split [] sep = [[]]"
| "Split (c # cs) sep =
     (if c = sep then [] # Split cs sep
      else (case Split cs sep of t # ts \<Rightarrow> (c # t) # ts | [] \<Rightarrow> [[c]]))"

fun Join :: "string list \<Rightarrow> string \<Rightarrow> string" where
  "Join [] sep = []"
| "Join [t] sep = t"
| "Join (t # ts) sep = t @ sep @ Join ts sep"

text \<open>
  The errors the program builds with \<^verbatim>\<open>fmt.Errorf\<close>; each carries the operand of its
  \<^verbatim>\<open>%q\<close> verb: "unknown type kind %q", "invalid line %q" and "invalid kind %q".
\<close>

datatype error = UnknownTypeKind string | InvalidLine string | InvalidKind string

text \<open>
  The loop of \<^verbatim>\<open>parseKindMask\<close> over the pieces, and the function. Go returns the pair
  \<^verbatim>\<open>(mask, err)\<close>; an unknown piece returns \<^verbatim>\<open>(0, err)\<close> at once.
\<close>

fun kindLoop :: "string list \<Rightarrow> 64 word \<Rightarrow> 64 word \<times> error option" where
  "kindLoop [] m = (m, None)"
| "kindLoop (k # ks) m =
     (case objKinds k of
        Some c \<Rightarrow> kindLoop ks (m OR push_bit (ObjKind_uint c) 1)
      | None \<Rightarrow> (0, Some (UnknownTypeKind k)))"

definition parseKindMask :: "string \<Rightarrow> 64 word \<times> error option" where
  "parseKindMask kinds = kindLoop (Split kinds CHR '','') 0"

subsection \<open>Positions and symbol lines\<close>

record Position =
  Filename :: string
  Offset :: int
  Line :: int
  Column :: int

text \<open>Decimal digits of a natural number and of an integer (the verb \<^verbatim>\<open>%d\<close>).\<close>

definition decimal :: string where
  "decimal = ''0123456789''"

fun digits :: "nat \<Rightarrow> string" where
  "digits n =
     (if n < 10 then [decimal ! n]
      else digits (n div 10) @ [decimal ! (n mod 10)])"

declare digits.simps [simp del]

definition itoa :: "int \<Rightarrow> string" where
  "itoa i = (if i < 0 then CHR ''-'' # digits (nat (- i)) else digits (nat i))"

text \<open>
  Modelled from the spec: the \<^verbatim>\<open>String\<close> method of \<^verbatim>\<open>token.Position\<close> (package
  \<^verbatim>\<open>exp/go/token\<close>) is not among the sources. The spec's grammar renders a position
  as \<^verbatim>\<open><file>:<line>:<col>\<close>.
\<close>

definition Position_String :: "Position \<Rightarrow> string" where
  "Position_String p = Filename p @ '':'' @ itoa (Line p) @ '':'' @ itoa (Column p)"

record symLine =
  l_pos :: Position
  l_exprPkg :: string
  l_referPkg :: string
  l_local :: bool
  l_kind :: ObjKind
  l_definition :: bool
  l_expr :: string
  l_exprType :: string

text \<open>
  \<^verbatim>\<open>fmt.Sprintf\<close> for the verbs of this program: every \<^verbatim>\<open>%v\<close> and \<^verbatim>\<open>%s\<close> takes
  the next operand, already rendered by its \<^verbatim>\<open>String\<close> method; every other byte of
  the format is copied.
\<close>

fun Sprintf :: "string \<Rightarrow> string list \<Rightarrow> string" where
  "Sprintf [] args = []"
| "Sprintf [c] args = (if c = CHR ''%'' then ''%!(NOVERB)'' else [c])"
| "Sprintf (c # v # fs) [] =
     (if c = CHR ''%'' then ''%!'' @ [v] @ ''(MISSING)'' @ Sprintf fs []
      else c # Sprintf (v # fs) [])"
| "Sprintf (c # v # fs) (a # as) =
     (if c = CHR ''%'' then a @ Sprintf fs as else c # Sprintf (v # fs) (a # as))"

definition symLine_String :: "symLine \<Rightarrow> string" where
  "symLine_String l =
     (let local = (if l_local l then ''local'' else '''');
          def = (if l_definition l then ''+'' else '''');
          exprType = (if length (l_exprType l) > 0 then '' '' @ l_exprType l else '''')
      in Sprintf ''%v: %s %s %s %s%s%s%s''
           [Position_String (l_pos l), l_exprPkg l, l_referPkg l, l_expr l, local,
            ObjKind_String (l_kind l), def, exprType])"

subsection \<open>Regular expressions and the line parser\<close>

text \<open>
  The part of Go's \<^verbatim>\<open>regexp\<close> syntax that \<^verbatim>\<open>linePat\<close> uses: character classes,
  literals, greedy repetition of a class, the greedy option, capture groups,
  concatenation and the two anchors. A match state is the offset reached, the rest of
  the text and the captured texts by group number. \<open>rmatch\<close> lists the states a
  backtracking matcher reaches, in its order of preference (leftmost-first):
  a greedy repetition offers the longest run first.
\<close>

datatype cclass = OneOf string | NoneOf string

fun cmatch :: "cclass \<Rightarrow> char \<Rightarrow> bool" where
  "cmatch (OneOf cs) c = (c \<in> set cs)"
| "cmatch (NoneOf cs) c = (c \<notin> set cs)"

datatype regex =
    OpBeginText
  | OpEndText
  | OpLiteral string
  | OpCharClass cclass
  | OpPlus cclass
  | OpStar cclass
  | OpQuest regex
  | OpCapture nat regex
  | OpConcat "regex list"

type_synonym mstate = "nat \<times> string \<times> string list"

fun greedy :: "cclass \<Rightarrow> mstate \<Rightarrow> mstate list" where
  "greedy cl (p, [], caps) = [(p, [], caps)]"
| "greedy cl (p, c # s, caps) =
     (if cmatch cl c then greedy cl (Suc p, s, caps) @ [(p, c # s, caps)]
      else [(p, c # s, caps)])"

fun rmatch :: "regex \<Rightarrow> mstate \<Rightarrow> mstate list"
  and rseq :: "regex list \<Rightarrow> mstate \<Rightarrow> mstate list" where
  "rmatch OpBeginText (p, s, caps) = (if p = 0 then [(p, s, caps)] else [])"
| "rmatch OpEndText (p, s, caps) = (if s = [] then [(p, s, caps)] else [])"
| "rmatch (OpLiteral w) (p, s, caps) =
     (if take (length w) s = w then [(p + length w, drop (length w) s, caps)] else [])"
| "rmatch (OpCharClass cl) (p, s, caps) =
     (case s of [] \<Rightarrow> [] | c # s' \<Rightarrow> if cmatch cl c then [(Suc p, s', caps)] else [])"
| "rmatch (OpPlus cl) (p, s, caps) =
     (case s of [] \<Rightarrow> [] | c # s' \<Rightarrow> if cmatch cl c then greedy cl (Suc p, s', caps) else [])"
| "rmatch (OpStar cl) st = greedy cl st"
| "rmatch (OpQuest r) st = rmatch r st @ [st]"
| "rmatch (OpCapture n r) (p, s, caps) =
     map (\<lambda>(p', s', caps'). (p', s', caps'[n := take (p' - p) s])) (rmatch r (p, s, caps))"
| "rmatch (OpConcat rs) st = rseq rs st"
| "rseq [] st = [st]"
| "rseq (r # rs) st = concat (map (rseq rs) (rmatch r st))"

text \<open>
  \<^verbatim>\<open>FindStringSubmatch\<close>: the first match at the leftmost offset that has one; the
  result lists the whole match and the text of every group, empty for a group that
  took no part; \<open>None\<close> is Go's \<^verbatim>\<open>nil\<close>.
\<close>

fun NumSubexp :: "regex \<Rightarrow> nat" where
  "NumSubexp (OpQuest r) = NumSubexp r"
| "NumSubexp (OpCapture n r) = Suc (NumSubexp r)"
| "NumSubexp (OpConcat rs) = sum_list (map NumSubexp rs)"
| "NumSubexp r = 0"

fun findFrom :: "regex \<Rightarrow> nat \<Rightarrow> string \<Rightarrow> string list option" where
  "findFrom re p s =
     (case rmatch re (p, s, replicate (Suc (NumSubexp re)) []) of
        (p', s', caps) # rest \<Rightarrow> Some (caps[0 := take (p' - p) s])
      | [] \<Rightarrow> (case s of [] \<Rightarrow> None | c # s' \<Rightarrow> findFrom re (Suc p) s'))"

definition FindStringSubmatch :: "regex \<Rightarrow> string \<Rightarrow> string list option" where
  "FindStringSubmatch re s = findFrom re 0 s"

text \<open>
  The pattern
  \<^verbatim>\<open>^([^:]+):(\d+):(\d+):\s+([^ ]+)\s+([^\s]+)\s+(local)?([^\s+]+)(\+)?(\s+([^\s].*))?$\<close>.
  The class \<^verbatim>\<open>\s\<close> is tab, newline, form feed, carriage return and space, and the
  dot is every byte but newline.
\<close>

definition perl_space :: string where
  "perl_space = [CHR 0x09, CHR 0x0A, CHR 0x0C, CHR 0x0D, CHR '' '']"

definition linePat :: regex where
  "linePat = OpConcat
     [OpBeginText,
      OpCapture 1 (OpPlus (NoneOf '':'')), OpLiteral '':'',
      OpCapture 2 (OpPlus (OneOf decimal)), OpLiteral '':'',
      OpCapture 3 (OpPlus (OneOf decimal)), OpLiteral '':'',
      OpPlus (OneOf perl_space),
      OpCapture 4 (OpPlus (NoneOf '' '')),
      OpPlus (OneOf perl_space),
      OpCapture 5 (OpPlus (NoneOf perl_space)),
      OpPlus (OneOf perl_space),
      OpQuest (OpCapture 6 (OpLiteral ''local'')),
      OpCapture 7 (OpPlus (NoneOf (perl_space @ ''+''))),
      OpQuest (OpCapture 8 (OpLiteral ''+'')),
      OpQuest (OpCapture 9 (OpConcat
        [OpPlus (OneOf perl_space),
         OpCapture 10 (OpConcat [OpCharClass (NoneOf perl_space), OpStar (NoneOf [CHR 0x0A])])])),
      OpEndText]"


text \<open>
  A call either panics or returns. \<^verbatim>\<open>strconv.Atoi\<close> reads an optional sign and
  decimal digits and fails outside the range of a 64-bit \<^verbatim>\<open>int\<close>; \<^verbatim>\<open>atoi\<close> panics
  where it fails.
\<close>

datatype 'a outcome = Panic string | Returns 'a

definition digit_val :: "char \<Rightarrow> int" where
  "digit_val c = int (of_char c) - 48"

definition Atoi :: "string \<Rightarrow> int option" where
  "Atoi s =
     (let (neg, ds) = (case s of
             [] \<Rightarrow> (False, [])
           | c # r \<Rightarrow> if c = CHR ''+'' then (False, r)
                      else if c = CHR ''-'' then (True, r) else (False, s))
      in if ds = [] \<or> (\<exists>c\<in>set ds. c \<notin> set decimal) then None
         else let v = foldl (\<lambda>a c. 10 * a + digit_val c) 0 ds;
                  i = (if neg then - v else v)
              in if i < - (2 ^ 63) \<or> 2 ^ 63 - 1 < i then None else Some i)"

definition atoi :: "string \<Rightarrow> int outcome" where
  "atoi s = (case Atoi s of None \<Rightarrow> Panic ''bad number'' | Some i \<Rightarrow> Returns i)"

text \<open>
  \<^verbatim>\<open>parseSymLine\<close>. The expression text is not read from the line: no group of the
  pattern is assigned to \<^verbatim>\<open>l.expr\<close>.
\<close>

definition parseSymLine :: "string \<Rightarrow> (error + symLine) outcome" where
  "parseSymLine line =
     (case FindStringSubmatch linePat line of
        None \<Rightarrow> Returns (Inl (InvalidLine line))
      | Some m \<Rightarrow>
          (case atoi (m ! 2) of
             Panic msg \<Rightarrow> Panic msg
           | Returns ln \<Rightarrow>
               (case atoi (m ! 3) of
                  Panic msg \<Rightarrow> Panic msg
                | Returns col \<Rightarrow>
                    (case objKinds (m ! 7) of
                       None \<Rightarrow> Returns (Inl (InvalidKind (m ! 7)))
                     | Some k \<Rightarrow>
                         Returns (Inr
                           \<lparr>l_pos = \<lparr>Filename = m ! 1, Offset = 0, Line = ln, Column = col\<rparr>,
                            l_exprPkg = m ! 4,
                            l_referPkg = m ! 5,
                            l_local = (m ! 6 = ''local''),
                            l_kind = k,
                            l_definition = (m ! 8 = ''+''),
                            l_expr = [],
                            l_exprType = (if m ! 9 \<noteq> [] then m ! 10 else [])\<rparr>)))))"

subsection \<open>The traversal\<close>

text \<open>
  The syntax tree, as far as the traversal tells nodes apart: identifiers (position and
  name), selectors \<^verbatim>\<open>X.Sel\<close> (the base, and the position and name of \<^verbatim>\<open>Sel\<close>),
  pointer types \<^verbatim>\<open>*X\<close>, key-value pairs, import specs (the optional name and the
  path literal), function types (the fields of the parameters and of the results),
  function declarations (receiver, name, type, body), files (their declarations), and
  \<open>Other\<close> for every other node, with its children in the order \<^verbatim>\<open>ast.Walk\<close> visits
  them.
\<close>

datatype node =
    Ident int string
  | SelectorExpr node int string
  | StarExpr node
  | KeyValueExpr node node
  | ImportSpec "(int \<times> string) option" string
  | FuncType "node list" "node list"
  | FuncDecl "node option" int string node "node option"
  | File "node list"
  | Other "node list"

text \<open>
  An \<^verbatim>\<open>*ast.Object\<close> is compared by identity in the source; \<open>obj_Id\<close> stands for the
  address. A \<^verbatim>\<open>types.Type\<close> has the node of the type, its kind and its package.
\<close>

record Object =
  obj_Id :: nat
  obj_Kind :: ObjKind
  obj_Name :: string

record Type =
  t_Node :: "node option"
  t_Kind :: ObjKind
  t_Pkg :: string

record symInfo =
  info_pos :: int
  info_expr :: node
  info_exprType :: Type
  info_referPos :: int
  info_referObj :: Object
  info_local :: bool
  info_universe :: bool

text \<open>
  The \<^verbatim>\<open>Obj\<close> fields that the traversal assigns, by the position of the identifier:
  the kind and name given to \<^verbatim>\<open>ast.NewObj\<close>.
\<close>

type_synonym objs = "int \<Rightarrow> (ObjKind \<times> string) option"

text \<open>
  The flags and the functions of other packages that the code calls, as parameters:
  the flags \<^verbatim>\<open>-v\<close>, \<^verbatim>\<open>-t\<close> and \<^verbatim>\<open>-a\<close>; \<^verbatim>\<open>types.ExprType\<close> (which reads the
  \<^verbatim>\<open>Obj\<close> fields of the tree), \<^verbatim>\<open>parser.Universe.Lookup\<close>, \<^verbatim>\<open>types.DeclPos\<close>,
  \<^verbatim>\<open>types.FileSet.Position\<close>, \<^verbatim>\<open>filepath.Dir\<close>, \<^verbatim>\<open>build.Import\<close> in the mode
  \<^verbatim>\<open>FindOnly\<close> (the import path, or \<open>None\<close> for an error) and the printer behind
  \<^verbatim>\<open>pretty\<close>.
\<close>

record env =
  verbose :: bool
  printType :: bool
  all :: bool
  ExprType :: "objs \<Rightarrow> node \<Rightarrow> Object option \<times> Type"
  Universe_Lookup :: "string \<Rightarrow> Object option"
  DeclPos :: "Object \<Rightarrow> int"
  position :: "int \<Rightarrow> Position"
  filepath_Dir :: "string \<Rightarrow> string"
  build_Import :: "string \<Rightarrow> string option"
  pretty :: "node option \<Rightarrow> string"

text \<open>
  The state of one traversal: the flag \<^verbatim>\<open>ok\<close> captured by the closure, the assigned
  \<^verbatim>\<open>Obj\<close> fields, and the calls of the callback \<^verbatim>\<open>visitf\<close> so far, in order.
\<close>

record wstate =
  ok :: bool
  Obj :: objs
  calls :: "symInfo list"

text \<open>
  \<^verbatim>\<open>context.visitExpr\<close>: no object for the expression returns true without a call;
  otherwise the callback is called once and its result returned.
\<close>

definition visitExpr ::
  "env \<Rightarrow> (symInfo \<Rightarrow> bool) \<Rightarrow> string \<Rightarrow> node \<Rightarrow> bool \<Rightarrow> wstate \<Rightarrow> bool \<times> wstate" where
  "visitExpr E visitf importPath e local st =
     (let p = (case e of Ident p nm \<Rightarrow> p | SelectorExpr x p nm \<Rightarrow> p | _ \<Rightarrow> 0);
          (obj, t) = ExprType E (Obj st) e
      in case obj of
           None \<Rightarrow> (True, st)
         | Some ob \<Rightarrow>
             (let u = (Universe_Lookup E (obj_Name ob) = Some ob);
                  info = \<lparr>info_pos = p, info_expr = e, info_exprType = t,
                          info_referPos = (if \<not> u then DeclPos E ob else 0),
                          info_referObj = ob, info_local = local, info_universe = u\<rparr>
              in (visitf info, st\<lparr>calls := calls st @ [info]\<rparr>)))"


text \<open>
  The closure \<^verbatim>\<open>visit\<close> of \<^verbatim>\<open>visitExprs\<close> and \<^verbatim>\<open>ast.Walk\<close>, which calls it on a
  node and, when it returns true, walks the children of the node. Every case of the
  closure starts with the test of \<^verbatim>\<open>ok\<close>. After the children \<^verbatim>\<open>ast.Walk\<close> calls the
  visitor on \<^verbatim>\<open>nil\<close>, which changes nothing. The path literal of an import spec is a
  leaf on which the closure changes nothing either. \<open>weight\<close> is the measure of the
  termination proof.
\<close>

fun weight :: "node \<Rightarrow> nat" where
  "weight (Ident p nm) = 1"
| "weight (SelectorExpr x p nm) = weight x + 2"
| "weight (StarExpr x) = weight x + 1"
| "weight (KeyValueExpr k v) = weight k + weight v + 1"
| "weight (ImportSpec name path) = 2"
| "weight (FuncType ps rs) =
     sum_list (map (\<lambda>c. weight c + 1) ps) + sum_list (map (\<lambda>c. weight c + 1) rs) + 1"
| "weight (FuncDecl recv p nm ty body) =
     (case recv of None \<Rightarrow> 0 | Some r \<Rightarrow> weight r) + weight ty
     + (case body of None \<Rightarrow> 0 | Some b \<Rightarrow> weight b) + 2"
| "weight (File decls) = sum_list (map (\<lambda>c. weight c + 1) decls) + 1"
| "weight (Other cs) = sum_list (map (\<lambda>c. weight c + 1) cs) + 1"

function (sequential)
      visit :: "env \<Rightarrow> (symInfo \<Rightarrow> bool) \<Rightarrow> string \<Rightarrow> node \<Rightarrow> wstate \<Rightarrow> bool \<times> wstate"
  and Walk :: "env \<Rightarrow> (symInfo \<Rightarrow> bool) \<Rightarrow> string \<Rightarrow> node \<Rightarrow> wstate \<Rightarrow> wstate"
  and WalkList :: "env \<Rightarrow> (symInfo \<Rightarrow> bool) \<Rightarrow> string \<Rightarrow> node list \<Rightarrow> wstate \<Rightarrow> wstate"
  where
  "visit E f ip (ImportSpec name path) st =
     (if \<not> ok st then (False, st)
      else if (case name of Some (p, nm) \<Rightarrow> nm = ''.'' | None \<Rightarrow> False)
           then (False, st\<lparr>ok := False\<rparr>)
           else (True, st))"
| "visit E f ip (FuncDecl recv p nm ty body) st =
     (if \<not> ok st then (False, st)
      else (True, if recv = None \<and> nm = ''init''
                  then st\<lparr>Obj := (Obj st)(p \<mapsto> (Fun, ''init''))\<rparr> else st))"
| "visit E f ip (Ident p nm) st =
     (if \<not> ok st then (False, st)
      else (let (r, st') = visitExpr E f ip (Ident p nm) False st
            in (False, st'\<lparr>ok := r\<rparr>)))"
| "visit E f ip (KeyValueExpr k v) st =
     (if \<not> ok st then (False, st)
      else (False, Walk E f ip v st))"
| "visit E f ip (SelectorExpr x p nm) st =
     (if \<not> ok st then (False, st)
      else (let st1 = Walk E f ip x st;
                (r, st2) = visitExpr E f ip (SelectorExpr x p nm) False st1
            in (False, st2\<lparr>ok := r\<rparr>)))"
| "visit E f ip (File decls) st =
     (if \<not> ok st then (False, st)
      else (False, WalkList E f ip decls st))"
| "visit E f ip n st = (if \<not> ok st then (False, st) else (True, st))"
| "Walk E f ip n st =
     (case visit E f ip n st of
        (False, st') \<Rightarrow> st'
      | (True, st') \<Rightarrow>
          (case n of
             Ident p nm \<Rightarrow> st'
           | SelectorExpr x p nm \<Rightarrow> Walk E f ip (Ident p nm) (Walk E f ip x st')
           | StarExpr x \<Rightarrow> Walk E f ip x st'
           | KeyValueExpr k v \<Rightarrow> Walk E f ip v (Walk E f ip k st')
           | ImportSpec name path \<Rightarrow>
               (case name of None \<Rightarrow> st' | Some (p, nm) \<Rightarrow> Walk E f ip (Ident p nm) st')
           | FuncType ps rs \<Rightarrow> WalkList E f ip rs (WalkList E f ip ps st')
           | FuncDecl recv p nm ty body \<Rightarrow>
               (let st1 = (case recv of None \<Rightarrow> st' | Some r \<Rightarrow> Walk E f ip r st');
                    st2 = Walk E f ip (Ident p nm) st1;
                    st3 = Walk E f ip ty st2
                in case body of None \<Rightarrow> st3 | Some b \<Rightarrow> Walk E f ip b st3)
           | File decls \<Rightarrow> WalkList E f ip decls st'
           | Other cs \<Rightarrow> WalkList E f ip cs st'))"
| "WalkList E f ip [] st = st"
| "WalkList E f ip (n # ns) st = WalkList E f ip ns (Walk E f ip n st)"
  by pat_completeness auto
termination
  by (relation "measure (\<lambda>x. case x of
        Inl (E, f, ip, n, st) \<Rightarrow> 2 * weight n
      | Inr (Inl (E, f, ip, n, st)) \<Rightarrow> 2 * weight n + 1
      | Inr (Inr (E, f, ip, ns, st)) \<Rightarrow> 2 * sum_list (map (\<lambda>c. weight c + 1) ns) + 1)")
     auto


declare Walk.simps [simp del]

text \<open>
  \<^verbatim>\<open>context.visitExprs\<close> walks one file with a fresh \<^verbatim>\<open>ok\<close>; the loop of
  \<^verbatim>\<open>main\<close> calls it for the files in order.
\<close>

definition visitExprs ::
  "env \<Rightarrow> (symInfo \<Rightarrow> bool) \<Rightarrow> string \<Rightarrow> node \<Rightarrow> wstate \<Rightarrow> wstate" where
  "visitExprs E visitf importPath pkg st = Walk E visitf importPath pkg (st\<lparr>ok := True\<rparr>)"

fun visitFiles ::
  "env \<Rightarrow> (symInfo \<Rightarrow> bool) \<Rightarrow> string \<Rightarrow> node list \<Rightarrow> wstate \<Rightarrow> wstate" where
  "visitFiles E visitf path [] st = st"
| "visitFiles E visitf path (f # fs) st =
     visitFiles E visitf path fs (visitExprs E visitf path f st)"

subsection \<open>Printing an occurrence\<close>

definition positionToImportPath :: "env \<Rightarrow> Position \<Rightarrow> string outcome" where
  "positionToImportPath E p =
     (if Filename p = [] then Panic ''empty file name''
      else case build_Import E (filepath_Dir E (Filename p)) of
             None \<Rightarrow> Panic ''cannot reverse-map filename to package''
           | Some ip \<Rightarrow> Returns ip)"

fun depointer :: "node option \<Rightarrow> node option" where
  "depointer (Some (StarExpr x)) = Some x"
| "depointer x = x"

text \<open>
  The switch of \<^verbatim>\<open>visitPrint\<close> that computes \<^verbatim>\<open>name\<close>; \<open>None\<close> is its early
  \<^verbatim>\<open>return true\<close> (no type for the base, under \<^verbatim>\<open>-v\<close>).
\<close>

definition exprName :: "env \<Rightarrow> objs \<Rightarrow> node \<Rightarrow> string option" where
  "exprName E os e =
     (case e of
        Ident p nm \<Rightarrow> Some nm
      | SelectorExpr x p sel \<Rightarrow>
          (let xt = snd (ExprType E os x)
           in if t_Node xt = None \<and> verbose E then None
              else Some (if t_Kind xt \<noteq> Pkg
                         then pretty E (depointer (t_Node xt)) @ ''.'' @ sel
                         else sel))
      | _ \<Rightarrow> Some [])"

text \<open>
  \<^verbatim>\<open>visitPrint\<close>: the value returned and the line handed to \<^verbatim>\<open>fmt.Println\<close>, if
  any; \<^verbatim>\<open>positionToImportPath\<close> may panic.
\<close>

definition visitPrint ::
  "env \<Rightarrow> objs \<Rightarrow> symInfo \<Rightarrow> 64 word \<Rightarrow> (bool \<times> symLine option) outcome" where
  "visitPrint E os info kindMask =
     (if push_bit (ObjKind_uint (obj_Kind (info_referObj info))) 1 AND kindMask = 0
      then Returns (True, None)
      else if info_universe info \<and> \<not> all E then Returns (True, None)
      else
        (let eposition = position E (info_pos info)
         in case positionToImportPath E eposition of
              Panic msg \<Rightarrow> Panic msg
            | Returns exprPkg \<Rightarrow>
               (case (if info_universe info then Returns ''universe''
                      else positionToImportPath E (position E (info_referPos info))) of
                  Panic msg \<Rightarrow> Panic msg
                | Returns referPkg \<Rightarrow>
                   (case exprName E os (info_expr info) of
                      None \<Rightarrow> Returns (True, None)
                    | Some name \<Rightarrow>
                       (let line = \<lparr>l_pos = eposition, l_exprPkg = exprPkg,
                                    l_referPkg = referPkg, l_local = info_local info,
                                    l_kind = obj_Kind (info_referObj info),
                                    l_definition = (info_referPos info = info_pos info),
                                    l_expr = name, l_exprType = []\<rparr>;
                            line' = (if printType E
                                     then line\<lparr>l_exprType :=
                                            pretty E (t_Node (info_exprType info))\<rparr>
                                     else line)
                        in Returns (True, Some line'))))))"

subsection \<open>The line grammar in the words of the specification\<close>

text \<open>
  The specification gives the grammar
  \<^verbatim>\<open><file>:<line>:<col>: <ownerPkg> <referPkg> [local]<expr><kind>[+][ <type>]\<close>.
  \<open>spec_line\<close> renders a symbol line by these words, for comparison with
  \<open>symLine_String\<close>.
\<close>

definition spec_line :: "symLine \<Rightarrow> string" where
  "spec_line l =
     Position_String (l_pos l) @ '': '' @ l_exprPkg l @ '' '' @ l_referPkg l @ '' ''
     @ (if l_local l then ''local'' else []) @ l_expr l @ ObjKind_String (l_kind l)
     @ (if l_definition l then ''+'' else [])
     @ (if l_exprType l = [] then [] else '' '' @ l_exprType l)"

subsection \<open>Trees, by what the traversal reaches\<close>

text \<open>
  \<open>dotImport\<close>: some import spec of the tree has the name \<^verbatim>\<open>.\<close>. \<open>initDecls\<close>: the
  positions of the names of the function declarations that have no receiver and are
  named \<^verbatim>\<open>init\<close>, in the parts of the tree that the traversal walks (not the key of
  a key-value pair).
\<close>

fun dotImport :: "node \<Rightarrow> bool" where
  "dotImport (Ident p nm) = False"
| "dotImport (SelectorExpr x p nm) = dotImport x"
| "dotImport (StarExpr x) = dotImport x"
| "dotImport (KeyValueExpr k v) = (dotImport k \<or> dotImport v)"
| "dotImport (ImportSpec name path) = (case name of Some (p, nm) \<Rightarrow> nm = ''.'' | None \<Rightarrow> False)"
| "dotImport (FuncType ps rs) = ((\<exists>c\<in>set ps. dotImport c) \<or> (\<exists>c\<in>set rs. dotImport c))"
| "dotImport (FuncDecl recv p nm ty body) =
     ((case recv of None \<Rightarrow> False | Some r \<Rightarrow> dotImport r) \<or> dotImport ty
      \<or> (case body of None \<Rightarrow> False | Some b \<Rightarrow> dotImport b))"
| "dotImport (File decls) = (\<exists>c\<in>set decls. dotImport c)"
| "dotImport (Other cs) = (\<exists>c\<in>set cs. dotImport c)"

fun initDecls :: "node \<Rightarrow> int set" where
  "initDecls (Ident p nm) = {}"
| "initDecls (SelectorExpr x p nm) = initDecls x"
| "initDecls (StarExpr x) = initDecls x"
| "initDecls (KeyValueExpr k v) = initDecls v"
| "initDecls (ImportSpec name path) = {}"
| "initDecls (FuncType ps rs) = (\<Union>c\<in>set ps. initDecls c) \<union> (\<Union>c\<in>set rs. initDecls c)"
| "initDecls (FuncDecl recv p nm ty body) =
     (if recv = None \<and> nm = ''init'' then {p} else {})
     \<union> (case recv of None \<Rightarrow> {} | Some r \<Rightarrow> initDecls r) \<union> initDecls ty
     \<union> (case body of None \<Rightarrow> {} | Some b \<Rightarrow> initDecls b)"
| "initDecls (File decls) = (\<Union>c\<in>set decls. initDecls c)"
| "initDecls (Other cs) = (\<Union>c\<in>set cs. initDecls c)"

subsection \<open>An example\<close>

text \<open>
  A small environment for concrete runs: the package \<^verbatim>\<open>examples/foo\<close> in the file
  \<^verbatim>\<open>src/examples/foo/x.go\<close> uses the predeclared \<^verbatim>\<open>int\<close>, the function \<^verbatim>\<open>Baz\<close> of
  the imported package \<^verbatim>\<open>some/bar\<close>, and a variable \<^verbatim>\<open>t\<close> of type \<^verbatim>\<open>*T\<close> with a
  field \<^verbatim>\<open>f\<close>; an identifier with an assigned \<^verbatim>\<open>Obj\<close> resolves to that object.
  Positions below 100 lie in \<^verbatim>\<open>x.go\<close>. The first three occurrences are those the
  traversal reports for \<^verbatim>\<open>int\<close>, \<^verbatim>\<open>bar.Baz\<close> and \<^verbatim>\<open>t.f\<close>; the fourth is the name
  of a function \<^verbatim>\<open>use\<close> in its own declaration at position 7, where the position of
  the occurrence is the position of the declaration.
\<close>

definition noType :: Type where
  "noType = \<lparr>t_Node = None, t_Kind = Bad, t_Pkg = []\<rparr>"

definition exampleExprType :: "objs \<Rightarrow> node \<Rightarrow> Object option \<times> Type" where
  "exampleExprType os e =
     (case e of
        Ident p nm \<Rightarrow>
          (if nm = ''int''
           then (Some \<lparr>obj_Id = 1, obj_Kind = Typ, obj_Name = ''int''\<rparr>,
                 \<lparr>t_Node = Some (Ident 0 ''int''), t_Kind = Typ, t_Pkg = []\<rparr>)
           else if nm = ''bar''
           then (Some \<lparr>obj_Id = 2, obj_Kind = Pkg, obj_Name = ''bar''\<rparr>,
                 \<lparr>t_Node = Some (Ident 3 ''bar''), t_Kind = Pkg, t_Pkg = ''some/bar''\<rparr>)
           else if nm = ''t''
           then (Some \<lparr>obj_Id = 3, obj_Kind = Var, obj_Name = ''t''\<rparr>,
                 \<lparr>t_Node = Some (StarExpr (Ident 0 ''T'')), t_Kind = Var,
                  t_Pkg = ''examples/foo''\<rparr>)
           else (case os p of
                   Some (k, s) \<Rightarrow>
                     (Some \<lparr>obj_Id = 4, obj_Kind = k, obj_Name = s\<rparr>,
                      \<lparr>t_Node = Some (FuncType [] []), t_Kind = k, t_Pkg = ''examples/foo''\<rparr>)
                 | None \<Rightarrow> (None, noType)))
      | SelectorExpr x p sel \<Rightarrow>
          (if sel = ''Baz''
           then (Some \<lparr>obj_Id = 5, obj_Kind = Fun, obj_Name = ''Baz''\<rparr>,
                 \<lparr>t_Node = Some (FuncType [] []), t_Kind = Fun, t_Pkg = ''some/bar''\<rparr>)
           else if sel = ''f''
           then (Some \<lparr>obj_Id = 6, obj_Kind = Var, obj_Name = ''f''\<rparr>,
                 \<lparr>t_Node = Some (Ident 0 ''string''), t_Kind = Var, t_Pkg = ''examples/foo''\<rparr>)
           else (None, noType))
      | _ \<Rightarrow> (None, noType))"

definition exampleEnv :: env where
  "exampleEnv =
     \<lparr>verbose = False, printType = True, all = True,
      ExprType = exampleExprType,
      Universe_Lookup =
        (\<lambda>s. if s = ''int'' then Some \<lparr>obj_Id = 1, obj_Kind = Typ, obj_Name = ''int''\<rparr>
             else None),
      DeclPos = (\<lambda>ob. if obj_Id ob = 5 then 140 else if obj_Id ob = 6 then 30
                       else if obj_Id ob = 3 then 20 else 7),
      position =
        (\<lambda>p. \<lparr>Filename = (if p < 100 then ''src/examples/foo/x.go''
                           else ''src/some/bar/y.go''),
              Offset = p, Line = 1, Column = p\<rparr>),
      filepath_Dir = (\<lambda>s. if s = ''src/examples/foo/x.go'' then ''src/examples/foo''
                          else ''src/some/bar''),
      build_Import = (\<lambda>d. if d = ''src/examples/foo'' then Some ''examples/foo''
                          else if d = ''src/some/bar'' then Some ''some/bar'' else None),
      pretty = (\<lambda>n. case n of
                       Some (Ident p nm) \<Rightarrow> nm
                     | Some (StarExpr (Ident p nm)) \<Rightarrow> ''*'' @ nm
                     | Some (FuncType ps rs) \<Rightarrow> ''func()''
                     | _ \<Rightarrow> [])\<rparr>"

definition emptyState :: wstate where
  "emptyState = \<lparr>ok = True, Obj = Map.empty, calls = []\<rparr>"

definition intInfo :: symInfo where
  "intInfo =
     \<lparr>info_pos = 14, info_expr = Ident 14 ''int'',
      info_exprType = \<lparr>t_Node = Some (Ident 0 ''int''), t_Kind = Typ, t_Pkg = []\<rparr>,
      info_referPos = 0,
      info_referObj = \<lparr>obj_Id = 1, obj_Kind = Typ, obj_Name = ''int''\<rparr>,
      info_local = False, info_universe = True\<rparr>"

definition bazInfo :: symInfo where
  "bazInfo =
     \<lparr>info_pos = 25, info_expr = SelectorExpr (Ident 21 ''bar'') 25 ''Baz'',
      info_exprType = \<lparr>t_Node = Some (FuncType [] []), t_Kind = Fun, t_Pkg = ''some/bar''\<rparr>,
      info_referPos = 140,
      info_referObj = \<lparr>obj_Id = 5, obj_Kind = Fun, obj_Name = ''Baz''\<rparr>,
      info_local = False, info_universe = False\<rparr>"

definition fieldInfo :: symInfo where
  "fieldInfo =
     \<lparr>info_pos = 42, info_expr = SelectorExpr (Ident 40 ''t'') 42 ''f'',
      info_exprType = \<lparr>t_Node = Some (Ident 0 ''string''), t_Kind = Var,
                       t_Pkg = ''examples/foo''\<rparr>,
      info_referPos = 30,
      info_referObj = \<lparr>obj_Id = 6, obj_Kind = Var, obj_Name = ''f''\<rparr>,
      info_local = False, info_universe = False\<rparr>"

definition useInfo :: symInfo where
  "useInfo =
     \<lparr>info_pos = 7, info_expr = Ident 7 ''use'',
      info_exprType = \<lparr>t_Node = Some (FuncType [] []), t_Kind = Fun,
                       t_Pkg = ''examples/foo''\<rparr>,
      info_referPos = 7,
      info_referObj = \<lparr>obj_Id = 7, obj_Kind = Fun, obj_Name = ''use''\<rparr>,
      info_local = False, info_universe = False\<rparr>"

section \<open>Properties\<close>

subsection \<open>The kind mask\<close>

lemma Split_ne: "Split s sep \<noteq> []"
  by (induction s) (auto split: list.splits)

lemma Split_piece: "sep \<notin> set t \<Longrightarrow> Split (t @ sep # s) sep = t # Split s sep"
  by (induction t) (auto split: list.splits simp: Split_ne)

lemma Split_last: "sep \<notin> set t \<Longrightarrow> Split t sep = [t]"
  by (induction t) (auto split: list.splits)

lemma Split_Join:
  "ts \<noteq> [] \<Longrightarrow> \<forall>t\<in>set ts. sep \<notin> set t \<Longrightarrow> Split (Join ts [sep]) sep = ts"
proof (induction ts "[sep]" rule: Join.induct)
  case 1
  then show ?case by simp
next
  case (2 t)
  then show ?case by (simp add: Split_last)
next
  case (3 t v va)
  then show ?case by (simp add: Split_piece)
qed

lemma objKinds_token: "objKinds t \<noteq> None \<longleftrightarrow> t \<in> {''const'', ''type'', ''var'', ''func''}"
  by (simp add: objKinds_def)

lemma bit_one_shift: "k < 64 \<Longrightarrow> bit (push_bit k (1 :: 64 word)) n \<longleftrightarrow> n = k"
  by (auto simp add: bit_push_bit_iff bit_1_iff simp del: push_bit_of_1)

lemma uint_small: "ObjKind_uint c < 64"
  by (cases c) simp_all

lemma bit_kind: "bit (push_bit (ObjKind_uint c) (1 :: 64 word)) n \<longleftrightarrow> n = ObjKind_uint c"
  using uint_small by (rule bit_one_shift)

lemma kindLoop_valid:
  "\<forall>t\<in>set ts. objKinds t \<noteq> None \<Longrightarrow>
   snd (kindLoop ts m0) = None \<and>
   (\<forall>n. bit (fst (kindLoop ts m0)) n \<longleftrightarrow>
      bit m0 n \<or> (\<exists>t\<in>set ts. \<exists>c. objKinds t = Some c \<and> n = ObjKind_uint c))"
proof (induction ts arbitrary: m0)
  case Nil
  then show ?case by simp
next
  case (Cons t ts)
  then obtain c where c: "objKinds t = Some c" by auto
  from Cons have "\<forall>t\<in>set ts. objKinds t \<noteq> None" by simp
  from Cons.IH [OF this, of "m0 OR push_bit (ObjKind_uint c) 1"] c
  show ?case by (auto simp add: bit_or_iff bit_kind simp del: push_bit_of_1)
qed

lemma kindLoop_invalid:
  "\<forall>u\<in>set pre. objKinds u \<noteq> None \<Longrightarrow> objKinds t = None \<Longrightarrow>
   kindLoop (pre @ t # post) m0 = (0, Some (UnknownTypeKind t))"
  by (induction pre arbitrary: m0) auto

lemma kindLoop_nonzero:
  "snd (kindLoop ts m0) = None \<Longrightarrow> m0 \<noteq> 0 \<Longrightarrow> fst (kindLoop ts m0) \<noteq> 0"
proof (induction ts arbitrary: m0)
  case Nil
  then show ?case by simp
next
  case (Cons t ts)
  show ?case
  proof (cases "objKinds t")
    case None
    with Cons.prems show ?thesis by simp
  next
    case (Some c)
    from Cons.prems(2) obtain n where "bit m0 n" by (auto simp: bit_eq_iff)
    then have "bit (m0 OR push_bit (ObjKind_uint c) 1) n"
      by (simp add: bit_or_iff del: push_bit_of_1)
    then have "m0 OR push_bit (ObjKind_uint c) 1 \<noteq> 0" by auto
    with Cons.IH [of "m0 OR push_bit (ObjKind_uint c) 1"] Cons.prems(1) Some
    show ?thesis by simp
  qed
qed

lemma kind_bit_nonzero: "push_bit (ObjKind_uint c) (1 :: 64 word) \<noteq> 0"
proof
  assume "push_bit (ObjKind_uint c) (1 :: 64 word) = 0"
  then have "\<not> bit (push_bit (ObjKind_uint c) (1 :: 64 word)) (ObjKind_uint c)"
    by (simp del: push_bit_of_1)
  then show False by (simp only: bit_kind)
qed

text \<open>
  C4. For a list of pieces without commas, joined by commas: when every piece is one of
  const, type, var, func, \<^verbatim>\<open>parseKindMask\<close> returns no error and a mask whose set bits
  are exactly the bits of the kinds listed; when some piece is not, it returns the
  error "unknown type kind" that names the first such piece.
\<close>

theorem parseKindMask_tokens:
  assumes "ts \<noteq> []" and "\<forall>t\<in>set ts. CHR '','' \<notin> set t"
  shows "((\<forall>t\<in>set ts. t \<in> {''const'', ''type'', ''var'', ''func''}) \<longrightarrow>
            snd (parseKindMask (Join ts '','')) = None \<and>
            (\<forall>n. bit (fst (parseKindMask (Join ts '',''))) n \<longleftrightarrow>
               (\<exists>t\<in>set ts. \<exists>c. objKinds t = Some c \<and> n = ObjKind_uint c)))
       \<and> (\<forall>pre t post. ts = pre @ t # post
             \<and> (\<forall>u\<in>set pre. u \<in> {''const'', ''type'', ''var'', ''func''})
             \<and> t \<notin> {''const'', ''type'', ''var'', ''func''} \<longrightarrow>
            parseKindMask (Join ts '','') = (0, Some (UnknownTypeKind t)))"
proof -
  have split: "Split (Join ts '','') CHR '','' = ts"
    using assms by (rule Split_Join)
  have valid: "snd (parseKindMask (Join ts '','')) = None \<and>
            (\<forall>n. bit (fst (parseKindMask (Join ts '',''))) n \<longleftrightarrow>
               (\<exists>t\<in>set ts. \<exists>c. objKinds t = Some c \<and> n = ObjKind_uint c))"
    if "\<forall>t\<in>set ts. t \<in> {''const'', ''type'', ''var'', ''func''}"
  proof -
    from that have v: "\<forall>t\<in>set ts. objKinds t \<noteq> None" by (simp only: objKinds_token)
    from kindLoop_valid [OF v, of 0] show ?thesis
      by (simp add: parseKindMask_def split)
  qed
  have invalid: "parseKindMask (Join ts '','') = (0, Some (UnknownTypeKind t))"
    if a: "ts = pre @ t # post
             \<and> (\<forall>u\<in>set pre. u \<in> {''const'', ''type'', ''var'', ''func''})
             \<and> t \<notin> {''const'', ''type'', ''var'', ''func''}" for pre t post
  proof -
    from a have "\<forall>u\<in>set pre. objKinds u \<noteq> None" and "objKinds t = None"
      by (auto simp add: objKinds_def)
    then have "kindLoop (pre @ t # post) 0 = (0, Some (UnknownTypeKind t))"
      by (rule kindLoop_invalid)
    moreover from a have "kindLoop ts 0 = kindLoop (pre @ t # post) 0"
      by simp
    moreover have "parseKindMask (Join ts '','') = kindLoop ts 0"
      by (simp only: parseKindMask_def split)
    ultimately show ?thesis
      by simp
  qed
  show ?thesis
  proof (rule conjI)
    show "(\<forall>t\<in>set ts. t \<in> {''const'', ''type'', ''var'', ''func''}) \<longrightarrow>
            snd (parseKindMask (Join ts '','')) = None \<and>
            (\<forall>n. bit (fst (parseKindMask (Join ts '',''))) n \<longleftrightarrow>
               (\<exists>t\<in>set ts. \<exists>c. objKinds t = Some c \<and> n = ObjKind_uint c))"
      using valid by (rule impI)
    show "\<forall>pre t post. ts = pre @ t # post
             \<and> (\<forall>u\<in>set pre. u \<in> {''const'', ''type'', ''var'', ''func''})
             \<and> t \<notin> {''const'', ''type'', ''var'', ''func''} \<longrightarrow>
            parseKindMask (Join ts '','') = (0, Some (UnknownTypeKind t))"
      using invalid by (intro allI impI)
  qed
qed

theorem parseKindMask_tokens_witness:
  "parseKindMask ''const,func'' = (36, None)
   \<and> bit (36 :: 64 word) (ObjKind_uint Con) \<and> bit (36 :: 64 word) (ObjKind_uint Fun)
   \<and> \<not> bit (36 :: 64 word) (ObjKind_uint Typ) \<and> \<not> bit (36 :: 64 word) (ObjKind_uint Var)
   \<and> parseKindMask ''const,Func,x'' = (0, Some (UnknownTypeKind ''Func''))"
proof -
  have a: "[''const'', ''func''] \<noteq> []" "[''const'', ''Func'', ''x''] \<noteq> []" by simp_all
  have b: "\<forall>t\<in>set [''const'', ''func'']. CHR '','' \<notin> set t"
          "\<forall>t\<in>set [''const'', ''Func'', ''x'']. CHR '','' \<notin> set t" by simp_all
  have v: "\<forall>t\<in>set [''const'', ''func'']. t \<in> {''const'', ''type'', ''var'', ''func''}" by simp
  from parseKindMask_tokens [OF a(1) b(1)] v
  have bits: "\<forall>n. bit (fst (parseKindMask (Join [''const'', ''func''] '',''))) n \<longleftrightarrow>
               (\<exists>t\<in>set [''const'', ''func'']. \<exists>c. objKinds t = Some c \<and> n = ObjKind_uint c)"
    by (rule mp [OF conjunct1, THEN conjunct2])
  have bad: "parseKindMask (Join [''const'', ''Func'', ''x''] '','') = (0, Some (UnknownTypeKind ''Func''))"
    using parseKindMask_tokens [OF a(2) b(2), THEN conjunct2, rule_format, of "[''const'']" "''Func''" "[''x'']"]
    by simp
  have m: "parseKindMask ''const,func'' = (36, None)"
    by (simp add: parseKindMask_def objKinds_def)
  from bits bad m show ?thesis
    by (simp add: objKinds_def)
qed

text \<open>
  C10. Whenever \<^verbatim>\<open>parseKindMask\<close> returns no error, the mask it returns is not zero.
\<close>

theorem parseKindMask_nonzero:
  "parseKindMask kinds = (m, None) \<Longrightarrow> m \<noteq> 0"
proof -
  assume r: "parseKindMask kinds = (m, None)"
  obtain k ks where s: "Split kinds CHR '','' = k # ks"
    using Split_ne [of kinds "CHR '',''"] by (cases "Split kinds CHR '',''") auto
  show "m \<noteq> 0"
  proof (cases "objKinds k")
    case None
    with r s show ?thesis by (simp add: parseKindMask_def)
  next
    case (Some c)
    with r s have l: "kindLoop ks (push_bit (ObjKind_uint c) 1) = (m, None)"
      by (simp add: parseKindMask_def)
    from kindLoop_nonzero [of ks "push_bit (ObjKind_uint c) 1"] l kind_bit_nonzero [of c]
    show ?thesis by simp
  qed
qed

theorem parseKindMask_nonzero_witness:
  "parseKindMask ''var'' = (16, None) \<and> (16 :: 64 word) \<noteq> 0"
proof -
  have r: "parseKindMask ''var'' = (16, None)"
    by (simp add: parseKindMask_def objKinds_def)
  from parseKindMask_nonzero [OF r] r show ?thesis by simp
qed

subsection \<open>The first match of the line pattern\<close>

text \<open>
  Where every greedy choice succeeds, the first state of \<open>rmatch\<close> is reached without
  backtracking; the lemmas follow the pattern piece by piece.
\<close>

lemma greedy_first:
  "\<forall>x\<in>set w. cmatch cl x \<Longrightarrow> s' = [] \<or> \<not> cmatch cl (hd s') \<Longrightarrow>
   \<exists>zs. greedy cl (p, w @ s', caps) = (p + length w, s', caps) # zs"
proof (induction w arbitrary: p)
  case Nil
  then show ?case by (cases s') auto
next
  case (Cons x w)
  from Cons.prems have "\<forall>x\<in>set w. cmatch cl x" by simp
  from Cons.IH [OF this Cons.prems(2), of "Suc p"] Cons.prems(1)
  show ?case by auto
qed

lemma OpPlus_first:
  "w \<noteq> [] \<Longrightarrow> \<forall>x\<in>set w. cmatch cl x \<Longrightarrow> s' = [] \<or> \<not> cmatch cl (hd s') \<Longrightarrow>
   \<exists>zs. rmatch (OpPlus cl) (p, w @ s', caps) = (p + length w, s', caps) # zs"
proof (cases w)
  case Nil
  assume "w \<noteq> []"
  with Nil show ?thesis by simp
next
  case (Cons x v)
  assume a: "\<forall>x\<in>set w. cmatch cl x" "s' = [] \<or> \<not> cmatch cl (hd s')"
  with Cons have "\<forall>x\<in>set v. cmatch cl x" by simp
  from greedy_first [OF this a(2), of "Suc p" caps] a(1) Cons
  show ?thesis by auto
qed

lemma OpStar_first:
  "\<forall>x\<in>set w. cmatch cl x \<Longrightarrow> s' = [] \<or> \<not> cmatch cl (hd s') \<Longrightarrow>
   \<exists>zs. rmatch (OpStar cl) (p, w @ s', caps) = (p + length w, s', caps) # zs"
  by (simp add: greedy_first)

lemma OpLiteral_first:
  "rmatch (OpLiteral w) (p, w @ s', caps) = [(p + length w, s', caps)]"
  by simp

lemma OpLiteral_none:
  "take (length w) s \<noteq> w \<Longrightarrow> rmatch (OpLiteral w) (p, s, caps) = []"
  by simp

lemma OpCapture_first:
  "\<exists>zs. rmatch r (p, w @ s', caps) = (p + length w, s', caps') # zs \<Longrightarrow>
   \<exists>zs. rmatch (OpCapture n r) (p, w @ s', caps) = (p + length w, s', caps'[n := w]) # zs"
  by auto

lemma OpQuest_first:
  "\<exists>zs. rmatch r st = y # zs \<Longrightarrow> \<exists>zs. rmatch (OpQuest r) st = y # zs"
  by auto

lemma OpQuest_skip:
  "rmatch r st = [] \<Longrightarrow> rmatch (OpQuest r) st = [st]"
  by simp

lemma OpCapture_none:
  "rmatch r (p, s, caps) = [] \<Longrightarrow> rmatch (OpCapture n r) (p, s, caps) = []"
  by simp

lemma rseq_first:
  "\<exists>zs. rmatch r st = y # zs \<Longrightarrow> \<exists>zs. rseq rs y = z # zs \<Longrightarrow>
   \<exists>zs. rseq (r # rs) st = z # zs"
  by auto

lemma OpConcat_first:
  "\<exists>zs. rseq rs st = z # zs \<Longrightarrow> \<exists>zs. rmatch (OpConcat rs) st = z # zs"
  by simp

lemma findFrom_first:
  "\<exists>zs. rmatch re (0, s, replicate (Suc (NumSubexp re)) []) = (p', s', caps) # zs \<Longrightarrow>
   FindStringSubmatch re s = Some (caps[0 := take p' s])"
  by (auto simp add: FindStringSubmatch_def)


lemma cap_plus_first:
  "w \<noteq> [] \<Longrightarrow> \<forall>x\<in>set w. cmatch cl x \<Longrightarrow> s' = [] \<or> \<not> cmatch cl (hd s') \<Longrightarrow>
   \<exists>zs. rmatch (OpCapture n (OpPlus cl)) (p, w @ s', c) = (p + length w, s', c[n := w]) # zs"
  by (rule OpCapture_first) (rule OpPlus_first)

lemma local_first:
  "kd \<noteq> [] \<Longrightarrow> hd kd \<noteq> CHR ''l'' \<Longrightarrow>
   \<exists>zs. rmatch (OpQuest (OpCapture 6 (OpLiteral ''local'')))
          (p, (if loc then ''local'' else []) @ kd @ r, c)
        = (p + length (if loc then ''local'' else []), kd @ r,
           if loc then c[6 := ''local''] else c) # zs"
  by (cases kd) auto

lemma plus_first:
  "r = [] \<or> hd r \<noteq> CHR ''+'' \<Longrightarrow>
   \<exists>zs. rmatch (OpQuest (OpCapture 8 (OpLiteral ''+'')))
          (p, (if d then ''+'' else []) @ r, c)
        = (p + length (if d then ''+'' else []), r, if d then c[8 := ''+''] else c) # zs"
  by (cases r) auto

lemma type_first:
  assumes "ty = [] \<or> (hd ty \<notin> set perl_space \<and> CHR 0x0A \<notin> set ty)"
    and "ws \<noteq> []" and "set ws \<subseteq> set perl_space"
  shows "\<exists>zs. rmatch (OpQuest (OpCapture 9 (OpConcat
           [OpPlus (OneOf perl_space),
            OpCapture 10 (OpConcat
              [OpCharClass (NoneOf perl_space), OpStar (NoneOf [CHR 0x0A])])])))
          (p, (if ty = [] then [] else ws @ ty), c)
        = (p + length (if ty = [] then [] else ws @ ty), [],
           if ty = [] then c else c[10 := ty, 9 := ws @ ty]) # zs"
proof (cases ty)
  case Nil
  then show ?thesis by simp
next
  case (Cons t ts)
  with assms(1) have t: "t \<notin> set perl_space" and ts: "CHR 0x0A \<notin> set ts" by auto
  have 1: "\<exists>zs. rmatch (OpPlus (OneOf perl_space)) (p, ws @ ty, c) = (p + length ws, ty, c) # zs"
    using assms(2,3) t Cons by (intro OpPlus_first) auto
  have "\<exists>zs. rmatch (OpStar (NoneOf [CHR 0x0A])) (Suc (p + length ws), ts @ [], c)
           = (Suc (p + length ws) + length ts, [], c) # zs"
    using ts by (intro OpStar_first) auto
  then have "\<exists>zs. rseq [OpCharClass (NoneOf perl_space), OpStar (NoneOf [CHR 0x0A])]
                 (p + length ws, ty @ [], c) = (p + length ws + length ty, [], c) # zs"
    using t Cons by auto
  then have "\<exists>zs. rmatch (OpCapture 10 (OpConcat
                [OpCharClass (NoneOf perl_space), OpStar (NoneOf [CHR 0x0A])]))
                 (p + length ws, ty @ [], c) = (p + length ws + length ty, [], c[10 := ty]) # zs"
    by (intro OpCapture_first OpConcat_first)
  then have 2: "\<exists>zs. rseq [OpCapture 10 (OpConcat
                [OpCharClass (NoneOf perl_space), OpStar (NoneOf [CHR 0x0A])])]
                 (p + length ws, ty, c) = (p + length ws + length ty, [], c[10 := ty]) # zs"
    by auto
  have "\<exists>zs. rseq [OpPlus (OneOf perl_space), OpCapture 10 (OpConcat
                [OpCharClass (NoneOf perl_space), OpStar (NoneOf [CHR 0x0A])])]
                 (p, ws @ ty, c) = (p + length ws + length ty, [], c[10 := ty]) # zs"
    using 1 2 by (rule rseq_first)
  then have "\<exists>zs. rmatch (OpConcat [OpPlus (OneOf perl_space), OpCapture 10 (OpConcat
                [OpCharClass (NoneOf perl_space), OpStar (NoneOf [CHR 0x0A])])])
                 (p, (ws @ ty) @ [], c) = (p + length (ws @ ty), [], c[10 := ty]) # zs"
    by (simp add: add.assoc)
  then have "\<exists>zs. rmatch (OpCapture 9 (OpConcat [OpPlus (OneOf perl_space), OpCapture 10 (OpConcat
                [OpCharClass (NoneOf perl_space), OpStar (NoneOf [CHR 0x0A])])]))
                 (p, (ws @ ty) @ [], c) = (p + length (ws @ ty), [], c[10 := ty, 9 := ws @ ty]) # zs"
    by (rule OpCapture_first)
  then show ?thesis
    using Cons by (simp only: OpQuest_first append_Nil2 list.distinct if_False)
qed


lemma OpBeginText_first: "\<exists>zs. rmatch OpBeginText (0, s, c) = (0, s, c) # zs"
  by simp

lemma OpLiteral_first': "\<exists>zs. rmatch (OpLiteral w) (p, w @ s', caps) = (p + length w, s', caps) # zs"
  by simp

lemma OpEndText_first: "\<exists>zs. rseq [OpEndText] (p, [], c) = (p, [], c) # zs"
  by simp

lemma hd_in_set_sub: "ws \<noteq> [] \<Longrightarrow> set ws \<subseteq> A \<Longrightarrow> hd (ws @ r) \<in> A"
  by (cases ws) auto

lemma all_OneOf: "set w \<subseteq> set cs \<Longrightarrow> \<forall>x\<in>set w. cmatch (OneOf cs) x"
  by auto

lemma all_NoneOf: "set w \<inter> set cs = {} \<Longrightarrow> \<forall>x\<in>set w. cmatch (NoneOf cs) x"
  by auto

lemma all_NoneOf1: "c \<notin> set w \<Longrightarrow> \<forall>x\<in>set w. cmatch (NoneOf [c]) x"
  by auto

lemma stop_OneOf:
  "w \<noteq> [] \<Longrightarrow> set w \<inter> set cs = {} \<Longrightarrow> w @ X = [] \<or> \<not> cmatch (OneOf cs) (hd (w @ X))"
  by (cases w) auto

lemma stop_NoneOf:
  "w \<noteq> [] \<Longrightarrow> set w \<subseteq> set cs \<Longrightarrow> w @ X = [] \<or> \<not> cmatch (NoneOf cs) (hd (w @ X))"
  by (cases w) auto

lemma linePat_chain:
  assumes fl: "file \<noteq> []" "CHR '':'' \<notin> set file"
    and ln: "ln \<noteq> []" "set ln \<subseteq> set decimal"
    and col: "col \<noteq> []" "set col \<subseteq> set decimal"
    and ws1: "ws1 \<noteq> []" "set ws1 \<subseteq> set perl_space"
    and p1: "p1 \<noteq> []" "set p1 \<inter> set perl_space = {}"
    and ws2: "ws2 \<noteq> []" "set ws2 \<subseteq> set perl_space" "hd ws2 = CHR '' ''"
    and p2: "p2 \<noteq> []" "set p2 \<inter> set perl_space = {}"
    and ws3: "ws3 \<noteq> []" "set ws3 \<subseteq> set perl_space"
    and kd: "kd \<noteq> []" "hd kd \<noteq> CHR ''l''" "set kd \<inter> set (perl_space @ ''+'') = {}"
    and ws4: "ws4 \<noteq> []" "set ws4 \<subseteq> set perl_space"
    and ty: "ty = [] \<or> (hd ty \<notin> set perl_space \<and> CHR 0x0A \<notin> set ty)"
  shows "\<exists>zs. rmatch linePat
           (0, file @ '':'' @ ln @ '':'' @ col @ '':'' @ ws1 @ p1 @ ws2 @ p2 @ ws3
               @ (if loc then ''local'' else []) @ kd @ (if d then ''+'' else [])
               @ (if ty = [] then [] else ws4 @ ty), c)
         = (0 + length file + length '':'' + length ln + length '':'' + length col
              + length '':'' + length ws1 + length p1 + length ws2 + length p2 + length ws3
              + length (if loc then ''local'' else []) + length kd
              + length (if d then ''+'' else [])
              + length (if ty = [] then [] else ws4 @ ty),
            [],
            (let c5 = c[1 := file, 2 := ln, 3 := col, 4 := p1, 5 := p2];
                 c6 = (if loc then c5[6 := ''local''] else c5);
                 c7 = c6[7 := kd];
                 c8 = (if d then c7[8 := ''+''] else c7)
             in if ty = [] then c8 else c8[10 := ty, 9 := ws4 @ ty])) # zs"
proof -
  have n_file: "\<forall>x\<in>set file. cmatch (NoneOf '':'') x"
    using fl(2) by (rule all_NoneOf1)
  have n_ln: "\<forall>x\<in>set ln. cmatch (OneOf decimal) x"
    using ln(2) by (rule all_OneOf)
  have n_col: "\<forall>x\<in>set col. cmatch (OneOf decimal) x"
    using col(2) by (rule all_OneOf)
  have n_ws1: "\<forall>x\<in>set ws1. cmatch (OneOf perl_space) x"
    using ws1(2) by (rule all_OneOf)
  have n_ws2: "\<forall>x\<in>set ws2. cmatch (OneOf perl_space) x"
    using ws2(2) by (rule all_OneOf)
  have n_ws3: "\<forall>x\<in>set ws3. cmatch (OneOf perl_space) x"
    using ws3(2) by (rule all_OneOf)
  have n_p1: "\<forall>x\<in>set p1. cmatch (NoneOf '' '') x"
    using p1(2) by (auto simp: perl_space_def)
  have n_p2: "\<forall>x\<in>set p2. cmatch (NoneOf perl_space) x"
    using p2(2) by (rule all_NoneOf)
  have n_kd: "\<forall>x\<in>set kd. cmatch (NoneOf (perl_space @ ''+'')) x"
    using kd(3) by (rule all_NoneOf)
  have colon1: "'':'' @ X = [] \<or> \<not> cmatch (NoneOf '':'') (hd ('':'' @ X))" for X
    by simp
  have colon2: "'':'' @ X = [] \<or> \<not> cmatch (OneOf decimal) (hd ('':'' @ X))" for X
    by (simp add: decimal_def)
  have e_p1: "p1 @ X = [] \<or> \<not> cmatch (OneOf perl_space) (hd (p1 @ X))" for X
    using p1 by (rule stop_OneOf)
  have e_p2: "p2 @ X = [] \<or> \<not> cmatch (OneOf perl_space) (hd (p2 @ X))" for X
    using p2 by (rule stop_OneOf)
  have e_ws2: "ws2 @ X = [] \<or> \<not> cmatch (NoneOf '' '') (hd (ws2 @ X))" for X
    using ws2(1,3) by (cases ws2) auto
  have e_ws3: "ws3 @ X = [] \<or> \<not> cmatch (NoneOf perl_space) (hd (ws3 @ X))" for X
    using ws3 by (rule stop_NoneOf)
  have kd_hd: "hd kd \<notin> set perl_space"
    using kd(1,3) by (cases kd) auto
  have e_loc: "(if loc then ''local'' else []) @ kd @ X = []
       \<or> \<not> cmatch (OneOf perl_space) (hd ((if loc then ''local'' else []) @ kd @ X))" for X
    using kd(1) kd_hd by (cases kd) (auto simp: perl_space_def)
  have ws4_hd: "hd (ws4 @ ty) \<in> set perl_space"
    using ws4 by (rule hd_in_set_sub)
  have e_plus: "(if d then ''+'' else []) @ (if ty = [] then [] else ws4 @ ty) = []
       \<or> \<not> cmatch (NoneOf (perl_space @ ''+''))
            (hd ((if d then ''+'' else []) @ (if ty = [] then [] else ws4 @ ty)))"
    using ws4_hd by auto
  have e_ty: "(if ty = [] then [] else ws4 @ ty) = []
       \<or> hd (if ty = [] then [] else ws4 @ ty) \<noteq> CHR ''+''"
    using ws4_hd by (auto simp: perl_space_def)
  show ?thesis
    unfolding linePat_def Let_def
    apply (rule OpConcat_first)
    apply (rule rseq_first [OF OpBeginText_first])
    apply (rule rseq_first [OF cap_plus_first [OF fl(1) n_file colon1]])
    apply (rule rseq_first [OF OpLiteral_first'])
    apply (rule rseq_first [OF cap_plus_first [OF ln(1) n_ln colon2]])
    apply (rule rseq_first [OF OpLiteral_first'])
    apply (rule rseq_first [OF cap_plus_first [OF col(1) n_col colon2]])
    apply (rule rseq_first [OF OpLiteral_first'])
    apply (rule rseq_first [OF OpPlus_first [OF ws1(1) n_ws1 e_p1]])
    apply (rule rseq_first [OF cap_plus_first [OF p1(1) n_p1 e_ws2]])
    apply (rule rseq_first [OF OpPlus_first [OF ws2(1) n_ws2 e_p2]])
    apply (rule rseq_first [OF cap_plus_first [OF p2(1) n_p2 e_ws3]])
    apply (rule rseq_first [OF OpPlus_first [OF ws3(1) n_ws3 e_loc]])
    apply (rule rseq_first [OF local_first [OF kd(1,2)]])
    apply (rule rseq_first [OF cap_plus_first [OF kd(1) n_kd e_plus]])
    apply (rule rseq_first [OF plus_first [OF e_ty]])
    apply (rule rseq_first [OF type_first [OF ty ws4]])
    apply (rule OpEndText_first)
    done
qed


lemma linePat_match:
  assumes fl: "file \<noteq> []" "CHR '':'' \<notin> set file"
    and ln: "ln \<noteq> []" "set ln \<subseteq> set decimal"
    and col: "col \<noteq> []" "set col \<subseteq> set decimal"
    and ws1: "ws1 \<noteq> []" "set ws1 \<subseteq> set perl_space"
    and p1: "p1 \<noteq> []" "set p1 \<inter> set perl_space = {}"
    and ws2: "ws2 \<noteq> []" "set ws2 \<subseteq> set perl_space" "hd ws2 = CHR '' ''"
    and p2: "p2 \<noteq> []" "set p2 \<inter> set perl_space = {}"
    and ws3: "ws3 \<noteq> []" "set ws3 \<subseteq> set perl_space"
    and kd: "kd \<noteq> []" "hd kd \<noteq> CHR ''l''" "set kd \<inter> set (perl_space @ ''+'') = {}"
    and ws4: "ws4 \<noteq> []" "set ws4 \<subseteq> set perl_space"
    and ty: "ty = [] \<or> (hd ty \<notin> set perl_space \<and> CHR 0x0A \<notin> set ty)"
  shows "FindStringSubmatch linePat
           (file @ '':'' @ ln @ '':'' @ col @ '':'' @ ws1 @ p1 @ ws2 @ p2 @ ws3
               @ (if loc then ''local'' else []) @ kd @ (if d then ''+'' else [])
               @ (if ty = [] then [] else ws4 @ ty))
         = Some [file @ '':'' @ ln @ '':'' @ col @ '':'' @ ws1 @ p1 @ ws2 @ p2 @ ws3
               @ (if loc then ''local'' else []) @ kd @ (if d then ''+'' else [])
               @ (if ty = [] then [] else ws4 @ ty),
             file, ln, col, p1, p2, (if loc then ''local'' else []), kd,
             (if d then ''+'' else []), (if ty = [] then [] else ws4 @ ty), ty]"
proof -
  have n: "Suc (NumSubexp linePat) = 11"
    by (simp add: linePat_def)
  have r: "replicate 11 [] = [[], [], [], [], [], [], [], [], [], [], ([] :: string)]"
    by (simp add: numeral_eq_Suc)
  note ch = linePat_chain [OF assms, where c = "replicate (Suc (NumSubexp linePat)) []"
      and loc = loc and d = d]
  show ?thesis
    unfolding findFrom_first [OF ch] n r
    by (simp add: Let_def)
qed

subsection \<open>Every match of the line pattern\<close>

text \<open>
  What a state that \<open>rmatch\<close> lists tells about the text: the lemmas follow the
  pattern piece by piece, and \<open>FindStringSubmatch_linePat_shape\<close> reads the fields of
  a matched line off the groups.
\<close>

lemma greedy_mem:
  "y \<in> set (greedy cl (p, s, c)) \<Longrightarrow>
   \<exists>w s'. s = w @ s' \<and> (\<forall>x\<in>set w. cmatch cl x) \<and> y = (p + length w, s', c)"
proof (induction s arbitrary: p)
  case Nil
  then show ?case by simp
next
  case (Cons a s)
  show ?case
  proof (cases "y = (p, a # s, c)")
    case True
    then have "a # s = [] @ (a # s) \<and> (\<forall>x\<in>set []. cmatch cl x) \<and> y = (p + length ([] :: string), a # s, c)"
      by simp
    then show ?thesis by blast
  next
    case False
    with Cons.prems have a: "cmatch cl a" and "y \<in> set (greedy cl (Suc p, s, c))"
      by (auto split: if_splits)
    from Cons.IH [OF this(2)] obtain w s' where
      "s = w @ s'" "\<forall>x\<in>set w. cmatch cl x" "y = (Suc p + length w, s', c)"
      by blast
    with a have "a # s = (a # w) @ s' \<and> (\<forall>x\<in>set (a # w). cmatch cl x)
        \<and> y = (p + length (a # w), s', c)"
      by simp
    then show ?thesis by blast
  qed
qed

lemma OpPlus_mem:
  "y \<in> set (rmatch (OpPlus cl) (p, s, c)) \<Longrightarrow>
   \<exists>w s'. w \<noteq> [] \<and> s = w @ s' \<and> (\<forall>x\<in>set w. cmatch cl x) \<and> y = (p + length w, s', c)"
proof (cases s)
  case Nil
  assume "y \<in> set (rmatch (OpPlus cl) (p, s, c))"
  with Nil show ?thesis by simp
next
  case (Cons a s0)
  assume "y \<in> set (rmatch (OpPlus cl) (p, s, c))"
  with Cons have a: "cmatch cl a" and "y \<in> set (greedy cl (Suc p, s0, c))"
    by (auto split: if_splits)
  from greedy_mem [OF this(2)] obtain w s' where
    "s0 = w @ s'" "\<forall>x\<in>set w. cmatch cl x" "y = (Suc p + length w, s', c)"
    by blast
  with a Cons have "a # w \<noteq> [] \<and> s = (a # w) @ s' \<and> (\<forall>x\<in>set (a # w). cmatch cl x)
      \<and> y = (p + length (a # w), s', c)"
    by simp
  then show ?thesis by blast
qed

lemma cap_plus_mem:
  "y \<in> set (rmatch (OpCapture n (OpPlus cl)) (p, s, c)) \<Longrightarrow>
   \<exists>w s'. w \<noteq> [] \<and> s = w @ s' \<and> (\<forall>x\<in>set w. cmatch cl x)
     \<and> y = (p + length w, s', c[n := w])"
proof -
  assume "y \<in> set (rmatch (OpCapture n (OpPlus cl)) (p, s, c))"
  then obtain z where z: "z \<in> set (rmatch (OpPlus cl) (p, s, c))"
    and y: "y = (case z of (p', s', c') \<Rightarrow> (p', s', c'[n := take (p' - p) s]))"
    by auto
  from OpPlus_mem [OF z] obtain w s' where
    "w \<noteq> []" "s = w @ s'" "\<forall>x\<in>set w. cmatch cl x" "z = (p + length w, s', c)"
    by blast
  with y have "w \<noteq> [] \<and> s = w @ s' \<and> (\<forall>x\<in>set w. cmatch cl x)
     \<and> y = (p + length w, s', c[n := w])"
    by simp
  then show ?thesis by blast
qed

lemma OpLiteral_mem:
  "y \<in> set (rmatch (OpLiteral w) (p, s, c)) \<Longrightarrow>
   \<exists>s'. s = w @ s' \<and> y = (p + length w, s', c)"
proof -
  assume "y \<in> set (rmatch (OpLiteral w) (p, s, c))"
  then have t: "take (length w) s = w" and y: "y = (p + length w, drop (length w) s, c)"
    by (simp_all split: if_splits)
  have "take (length w) s @ drop (length w) s = s"
    by (rule append_take_drop_id)
  with t have "s = w @ drop (length w) s"
    by simp
  with y show ?thesis by blast
qed

lemma rseq_mem:
  "z \<in> set (rseq (r # rs) st) \<Longrightarrow> \<exists>y\<in>set (rmatch r st). z \<in> set (rseq rs y)"
  by auto


lemma OpCapture_mem:
  assumes "y \<in> set (rmatch (OpCapture n r) (p, s, c))"
  shows "\<exists>p' s' c'. (p', s', c') \<in> set (rmatch r (p, s, c))
           \<and> y = (p', s', c'[n := take (p' - p) s])"
proof -
  from assms
  have "y \<in> (\<lambda>(p', s', caps'). (p', s', caps'[n := take (p' - p) s])) ` set (rmatch r (p, s, c))"
    by (simp only: rmatch.simps set_map)
  then show ?thesis
    by (auto simp del: rmatch.simps)
qed

lemma OpQuest_mem:
  "y \<in> set (rmatch (OpQuest r) st) \<Longrightarrow> y \<in> set (rmatch r st) \<or> y = st"
  by (auto simp del: rmatch.simps simp add: rmatch.simps(7))

lemma OpConcat_mem: "y \<in> set (rmatch (OpConcat rs) st) \<Longrightarrow> y \<in> set (rseq rs st)"
  by (simp only: rmatch.simps)

lemma rseq_last: "z \<in> set (rseq [r] y) \<Longrightarrow> z \<in> set (rmatch r y)"
  by (simp del: rmatch.simps)

lemma OpCharClass_mem:
  "y \<in> set (rmatch (OpCharClass cl) (p, s, c)) \<Longrightarrow>
   \<exists>t s'. s = t # s' \<and> cmatch cl t \<and> y = (Suc p, s', c)"
  by (cases s) (auto split: if_splits)

lemma OpStar_mem:
  "y \<in> set (rmatch (OpStar cl) (p, s, c)) \<Longrightarrow>
   \<exists>w s'. s = w @ s' \<and> (\<forall>x\<in>set w. cmatch cl x) \<and> y = (p + length w, s', c)"
  by (simp only: rmatch.simps) (rule greedy_mem)

lemma OpBeginText_mem:
  "y \<in> set (rmatch OpBeginText (p, s, c)) \<Longrightarrow> p = 0 \<and> y = (p, s, c)"
  by (simp split: if_splits)

lemma OpEndText_mem:
  "y \<in> set (rmatch OpEndText (p, s, c)) \<Longrightarrow> s = [] \<and> y = (p, s, c)"
  by (simp split: if_splits)

lemma opt_lit_mem:
  assumes "y \<in> set (rmatch (OpQuest (OpCapture n (OpLiteral w))) (p, s, c))"
    and "c ! n = []"
  shows "\<exists>v s'. s = v @ s' \<and> (v = w \<or> v = []) \<and> y = (p + length v, s', c[n := v])"
proof -
  from OpQuest_mem [OF assms(1)]
  consider "y \<in> set (rmatch (OpCapture n (OpLiteral w)) (p, s, c))" | "y = (p, s, c)"
    by blast
  then show ?thesis
  proof cases
    case 1
    from OpCapture_mem [OF 1] obtain p' s' c' where
      z: "(p', s', c') \<in> set (rmatch (OpLiteral w) (p, s, c))"
      and y: "y = (p', s', c'[n := take (p' - p) s])"
      by blast
    from OpLiteral_mem [OF z] obtain s'' where "s = w @ s''" "(p', s', c') = (p + length w, s'', c)"
      by blast
    with y have "s = w @ s'' \<and> (w = w \<or> w = []) \<and> y = (p + length w, s'', c[n := w])"
      by simp
    then show ?thesis by blast
  next
    case 2
    have "c[n := []] = c"
      using assms(2) list_update_id [of c n] by simp
    with 2 have "s = [] @ s \<and> ([] = w \<or> [] = ([] :: string))
        \<and> y = (p + length ([] :: string), s, c[n := []])"
      by simp
    then show ?thesis by blast
  qed
qed

lemma type_mem:
  assumes "y \<in> set (rmatch (OpQuest (OpCapture 9 (OpConcat
           [OpPlus (OneOf perl_space),
            OpCapture 10 (OpConcat
              [OpCharClass (NoneOf perl_space), OpStar (NoneOf [CHR 0x0A])])]))) (p, s, c))"
    and "c ! 9 = []" and "c ! 10 = []"
  shows "\<exists>tp ty s'. s = tp @ s' \<and> y = (p + length tp, s', c[10 := ty, 9 := tp])
     \<and> (tp = [] \<and> ty = [] \<or>
        (\<exists>ws. tp = ws @ ty \<and> ws \<noteq> [] \<and> set ws \<subseteq> set perl_space
           \<and> ty \<noteq> [] \<and> hd ty \<notin> set perl_space \<and> CHR 0x0A \<notin> set (tl ty)))"
proof -
  let ?r10 = "OpCapture 10 (OpConcat
              [OpCharClass (NoneOf perl_space), OpStar (NoneOf [CHR 0x0A])])"
  from OpQuest_mem [OF assms(1)]
  consider "y \<in> set (rmatch (OpCapture 9 (OpConcat [OpPlus (OneOf perl_space), ?r10])) (p, s, c))"
    | "y = (p, s, c)"
    by blast
  then show ?thesis
  proof cases
    case 2
    have "c[10 := [], 9 := []] = c"
      using assms(2,3) list_update_id [of c 9] list_update_id [of c 10] by simp
    with 2 have "s = [] @ s \<and> y = (p + length ([] :: string), s, c[10 := [], 9 := []])
       \<and> ([] = ([] :: string) \<and> [] = ([] :: string))"
      by simp
    then show ?thesis by blast
  next
    case 1
    from OpCapture_mem [OF 1] obtain p' s' c' where
      z: "(p', s', c') \<in> set (rmatch (OpConcat [OpPlus (OneOf perl_space), ?r10]) (p, s, c))"
      and y: "y = (p', s', c'[9 := take (p' - p) s])"
      by blast
    from rseq_mem [OF OpConcat_mem [OF z]] obtain y1 where
      y1: "y1 \<in> set (rmatch (OpPlus (OneOf perl_space)) (p, s, c))" and
      z1: "(p', s', c') \<in> set (rseq [?r10] y1)"
      by blast
    from OpPlus_mem [OF y1] obtain ws s1 where
      ws: "ws \<noteq> []" "s = ws @ s1" "\<forall>x\<in>set ws. cmatch (OneOf perl_space) x"
      and y1': "y1 = (p + length ws, s1, c)"
      by blast
    from rseq_last [OF z1] have "(p', s', c') \<in> set (rmatch ?r10 (p + length ws, s1, c))"
      by (simp only: y1')
    from OpCapture_mem [OF this] obtain p2 s2 c2 where
      u: "(p2, s2, c2) \<in> set (rmatch
            (OpConcat [OpCharClass (NoneOf perl_space), OpStar (NoneOf [CHR 0x0A])])
            (p + length ws, s1, c))"
      and zu: "(p', s', c') = (p2, s2, c2[10 := take (p2 - (p + length ws)) s1])"
      by blast
    from rseq_mem [OF OpConcat_mem [OF u]] obtain y3 where
      y3: "y3 \<in> set (rmatch (OpCharClass (NoneOf perl_space)) (p + length ws, s1, c))"
      and u3: "(p2, s2, c2) \<in> set (rseq [OpStar (NoneOf [CHR 0x0A])] y3)"
      by blast
    from OpCharClass_mem [OF y3] obtain t s3 where
      t: "s1 = t # s3" "cmatch (NoneOf perl_space) t" and y3': "y3 = (Suc (p + length ws), s3, c)"
      by blast
    from rseq_last [OF u3]
    have "(p2, s2, c2) \<in> set (rmatch (OpStar (NoneOf [CHR 0x0A])) (Suc (p + length ws), s3, c))"
      by (simp only: y3')
    from OpStar_mem [OF this] obtain w s4 where
      w: "s3 = w @ s4" "\<forall>x\<in>set w. cmatch (NoneOf [CHR 0x0A]) x"
      and u': "(p2, s2, c2) = (Suc (p + length ws) + length w, s4, c)"
      by blast
    have yy: "y = (p + length (ws @ t # w), s4, c[10 := t # w, 9 := ws @ t # w])"
      using y zu u' ws(2) t(1) w(1) by simp
    have "s = (ws @ t # w) @ s4
          \<and> y = (p + length (ws @ t # w), s4, c[10 := t # w, 9 := ws @ t # w])
          \<and> (ws @ t # w = ws @ t # w \<and> ws \<noteq> [] \<and> set ws \<subseteq> set perl_space
             \<and> t # w \<noteq> [] \<and> hd (t # w) \<notin> set perl_space \<and> CHR 0x0A \<notin> set (tl (t # w)))"
      using ws t w yy by auto
    then show ?thesis by blast
  qed
qed

lemma linePat_mem:
  assumes "(pE, sE, cE) \<in> set (rmatch linePat (p0, line, c0))"
    and c0: "c0 = [[], [], [], [], [], [], [], [], [], [], []]"
  shows "p0 = 0 \<and> sE = [] \<and>
    (\<exists>file ln col ws1 p1 ws2 p2 ws3 loc kd pl tp ty.
       line = file @ '':'' @ ln @ '':'' @ col @ '':'' @ ws1 @ p1 @ ws2 @ p2 @ ws3
              @ loc @ kd @ pl @ tp
       \<and> pE = length line
       \<and> cE = [[], file, ln, col, p1, p2, loc, kd, pl, tp, ty]
       \<and> file \<noteq> [] \<and> CHR '':'' \<notin> set file
       \<and> ln \<noteq> [] \<and> set ln \<subseteq> set decimal
       \<and> col \<noteq> [] \<and> set col \<subseteq> set decimal
       \<and> ws1 \<noteq> [] \<and> set ws1 \<subseteq> set perl_space
       \<and> p1 \<noteq> [] \<and> CHR '' '' \<notin> set p1
       \<and> ws2 \<noteq> [] \<and> set ws2 \<subseteq> set perl_space
       \<and> p2 \<noteq> [] \<and> set p2 \<inter> set perl_space = {}
       \<and> ws3 \<noteq> [] \<and> set ws3 \<subseteq> set perl_space
       \<and> (loc = ''local'' \<or> loc = [])
       \<and> kd \<noteq> [] \<and> set kd \<inter> set (perl_space @ ''+'') = {}
       \<and> (pl = ''+'' \<or> pl = [])
       \<and> (tp = [] \<and> ty = [] \<or>
           (\<exists>ws4. tp = ws4 @ ty \<and> ws4 \<noteq> [] \<and> set ws4 \<subseteq> set perl_space
              \<and> ty \<noteq> [] \<and> hd ty \<notin> set perl_space \<and> CHR 0x0A \<notin> set (tl ty))))"
proof -
  let ?k16 = "[OpEndText]"
  let ?k15 = "OpQuest (OpCapture 9 (OpConcat
        [OpPlus (OneOf perl_space),
         OpCapture 10 (OpConcat [OpCharClass (NoneOf perl_space), OpStar (NoneOf [CHR 0x0A])])])) # ?k16"
  let ?k14 = "OpQuest (OpCapture 8 (OpLiteral ''+'')) # ?k15"
  let ?k13 = "OpCapture 7 (OpPlus (NoneOf (perl_space @ ''+''))) # ?k14"
  let ?k12 = "OpQuest (OpCapture 6 (OpLiteral ''local'')) # ?k13"
  let ?k11 = "OpPlus (OneOf perl_space) # ?k12"
  let ?k10 = "OpCapture 5 (OpPlus (NoneOf perl_space)) # ?k11"
  let ?k9 = "OpPlus (OneOf perl_space) # ?k10"
  let ?k8 = "OpCapture 4 (OpPlus (NoneOf '' '')) # ?k9"
  let ?k7 = "OpPlus (OneOf perl_space) # ?k8"
  let ?k6 = "OpLiteral '':'' # ?k7"
  let ?k5 = "OpCapture 3 (OpPlus (OneOf decimal)) # ?k6"
  let ?k4 = "OpLiteral '':'' # ?k5"
  let ?k3 = "OpCapture 2 (OpPlus (OneOf decimal)) # ?k4"
  let ?k2 = "OpLiteral '':'' # ?k3"
  let ?k1 = "OpCapture 1 (OpPlus (NoneOf '':'')) # ?k2"
  let ?k0 = "OpBeginText # ?k1"
  from assms(1) have r: "(pE, sE, cE) \<in> set (rseq ?k0 (p0, line, c0))"
    unfolding linePat_def by (rule OpConcat_mem)
  from rseq_mem [OF r] obtain y0 where
    y0: "y0 \<in> set (rmatch OpBeginText (p0, line, c0))"
    and r0: "(pE, sE, cE) \<in> set (rseq ?k1 y0)"
    by blast
  from OpBeginText_mem [OF y0] have p0: "p0 = 0" and e0: "y0 = (0, line, c0)"
    by simp_all
  from rseq_mem [OF r0 [unfolded e0]] obtain y1 where
    y1: "y1 \<in> set (rmatch (OpCapture 1 (OpPlus (NoneOf '':''))) (0, line, c0))"
    and r1: "(pE, sE, cE) \<in> set (rseq ?k2 y1)"
    by blast
  from cap_plus_mem [OF y1] obtain fl s1 where
    w1: "fl \<noteq> []" "line = fl @ s1" "\<forall>x\<in>set fl. cmatch (NoneOf '':'') x"
    and e1: "y1 = (0 + length fl, s1, c0[1 := fl])"
    by blast
  from rseq_mem [OF r1 [unfolded e1]] obtain y2 where
    y2: "y2 \<in> set (rmatch (OpLiteral '':'') (0 + length fl, s1, c0[1 := fl]))"
    and r2: "(pE, sE, cE) \<in> set (rseq ?k3 y2)"
    by blast
  from OpLiteral_mem [OF y2] obtain s2 where
    w2: "s1 = '':'' @ s2"
    and e2: "y2 = (0 + length fl + length '':'', s2, c0[1 := fl])"
    by blast
  from rseq_mem [OF r2 [unfolded e2]] obtain y3 where
    y3: "y3 \<in> set (rmatch (OpCapture 2 (OpPlus (OneOf decimal))) (0 + length fl + length '':'', s2, c0[1 := fl]))"
    and r3: "(pE, sE, cE) \<in> set (rseq ?k4 y3)"
    by blast
  from cap_plus_mem [OF y3] obtain ln s3 where
    w3: "ln \<noteq> []" "s2 = ln @ s3" "\<forall>x\<in>set ln. cmatch (OneOf decimal) x"
    and e3: "y3 = (0 + length fl + length '':'' + length ln, s3, c0[1 := fl, 2 := ln])"
    by blast
  from rseq_mem [OF r3 [unfolded e3]] obtain y4 where
    y4: "y4 \<in> set (rmatch (OpLiteral '':'') (0 + length fl + length '':'' + length ln, s3, c0[1 := fl, 2 := ln]))"
    and r4: "(pE, sE, cE) \<in> set (rseq ?k5 y4)"
    by blast
  from OpLiteral_mem [OF y4] obtain s4 where
    w4: "s3 = '':'' @ s4"
    and e4: "y4 = (0 + length fl + length '':'' + length ln + length '':'', s4, c0[1 := fl, 2 := ln])"
    by blast
  from rseq_mem [OF r4 [unfolded e4]] obtain y5 where
    y5: "y5 \<in> set (rmatch (OpCapture 3 (OpPlus (OneOf decimal))) (0 + length fl + length '':'' + length ln + length '':'', s4, c0[1 := fl, 2 := ln]))"
    and r5: "(pE, sE, cE) \<in> set (rseq ?k6 y5)"
    by blast
  from cap_plus_mem [OF y5] obtain col s5 where
    w5: "col \<noteq> []" "s4 = col @ s5" "\<forall>x\<in>set col. cmatch (OneOf decimal) x"
    and e5: "y5 = (0 + length fl + length '':'' + length ln + length '':'' + length col, s5, c0[1 := fl, 2 := ln, 3 := col])"
    by blast
  from rseq_mem [OF r5 [unfolded e5]] obtain y6 where
    y6: "y6 \<in> set (rmatch (OpLiteral '':'') (0 + length fl + length '':'' + length ln + length '':'' + length col, s5, c0[1 := fl, 2 := ln, 3 := col]))"
    and r6: "(pE, sE, cE) \<in> set (rseq ?k7 y6)"
    by blast
  from OpLiteral_mem [OF y6] obtain s6 where
    w6: "s5 = '':'' @ s6"
    and e6: "y6 = (0 + length fl + length '':'' + length ln + length '':'' + length col + length '':'', s6, c0[1 := fl, 2 := ln, 3 := col])"
    by blast
  from rseq_mem [OF r6 [unfolded e6]] obtain y7 where
    y7: "y7 \<in> set (rmatch (OpPlus (OneOf perl_space)) (0 + length fl + length '':'' + length ln + length '':'' + length col + length '':'', s6, c0[1 := fl, 2 := ln, 3 := col]))"
    and r7: "(pE, sE, cE) \<in> set (rseq ?k8 y7)"
    by blast
  from OpPlus_mem [OF y7] obtain ws1 s7 where
    w7: "ws1 \<noteq> []" "s6 = ws1 @ s7" "\<forall>x\<in>set ws1. cmatch (OneOf perl_space) x"
    and e7: "y7 = (0 + length fl + length '':'' + length ln + length '':'' + length col + length '':'' + length ws1, s7, c0[1 := fl, 2 := ln, 3 := col])"
    by blast
  from rseq_mem [OF r7 [unfolded e7]] obtain y8 where
    y8: "y8 \<in> set (rmatch (OpCapture 4 (OpPlus (NoneOf '' ''))) (0 + length fl + length '':'' + length ln + length '':'' + length col + length '':'' + length ws1, s7, c0[1 := fl, 2 := ln, 3 := col]))"
    and r8: "(pE, sE, cE) \<in> set (rseq ?k9 y8)"
    by blast
  from cap_plus_mem [OF y8] obtain p1 s8 where
    w8: "p1 \<noteq> []" "s7 = p1 @ s8" "\<forall>x\<in>set p1. cmatch (NoneOf '' '') x"
    and e8: "y8 = (0 + length fl + length '':'' + length ln + length '':'' + length col + length '':'' + length ws1 + length p1, s8, c0[1 := fl, 2 := ln, 3 := col, 4 := p1])"
    by blast
  from rseq_mem [OF r8 [unfolded e8]] obtain y9 where
    y9: "y9 \<in> set (rmatch (OpPlus (OneOf perl_space)) (0 + length fl + length '':'' + length ln + length '':'' + length col + length '':'' + length ws1 + length p1, s8, c0[1 := fl, 2 := ln, 3 := col, 4 := p1]))"
    and r9: "(pE, sE, cE) \<in> set (rseq ?k10 y9)"
    by blast
  from OpPlus_mem [OF y9] obtain ws2 s9 where
    w9: "ws2 \<noteq> []" "s8 = ws2 @ s9" "\<forall>x\<in>set ws2. cmatch (OneOf perl_space) x"
    and e9: "y9 = (0 + length fl + length '':'' + length ln + length '':'' + length col + length '':'' + length ws1 + length p1 + length ws2, s9, c0[1 := fl, 2 := ln, 3 := col, 4 := p1])"
    by blast
  from rseq_mem [OF r9 [unfolded e9]] obtain y10 where
    y10: "y10 \<in> set (rmatch (OpCapture 5 (OpPlus (NoneOf perl_space))) (0 + length fl + length '':'' + length ln + length '':'' + length col + length '':'' + length ws1 + length p1 + length ws2, s9, c0[1 := fl, 2 := ln, 3 := col, 4 := p1]))"
    and r10: "(pE, sE, cE) \<in> set (rseq ?k11 y10)"
    by blast
  from cap_plus_mem [OF y10] obtain p2 s10 where
    w10: "p2 \<noteq> []" "s9 = p2 @ s10" "\<forall>x\<in>set p2. cmatch (NoneOf perl_space) x"
    and e10: "y10 = (0 + length fl + length '':'' + length ln + length '':'' + length col + length '':'' + length ws1 + length p1 + length ws2 + length p2, s10, c0[1 := fl, 2 := ln, 3 := col, 4 := p1, 5 := p2])"
    by blast
  from rseq_mem [OF r10 [unfolded e10]] obtain y11 where
    y11: "y11 \<in> set (rmatch (OpPlus (OneOf perl_space)) (0 + length fl + length '':'' + length ln + length '':'' + length col + length '':'' + length ws1 + length p1 + length ws2 + length p2, s10, c0[1 := fl, 2 := ln, 3 := col, 4 := p1, 5 := p2]))"
    and r11: "(pE, sE, cE) \<in> set (rseq ?k12 y11)"
    by blast
  from OpPlus_mem [OF y11] obtain ws3 s11 where
    w11: "ws3 \<noteq> []" "s10 = ws3 @ s11" "\<forall>x\<in>set ws3. cmatch (OneOf perl_space) x"
    and e11: "y11 = (0 + length fl + length '':'' + length ln + length '':'' + length col + length '':'' + length ws1 + length p1 + length ws2 + length p2 + length ws3, s11, c0[1 := fl, 2 := ln, 3 := col, 4 := p1, 5 := p2])"
    by blast
  from rseq_mem [OF r11 [unfolded e11]] obtain y12 where
    y12: "y12 \<in> set (rmatch (OpQuest (OpCapture 6 (OpLiteral ''local''))) (0 + length fl + length '':'' + length ln + length '':'' + length col + length '':'' + length ws1 + length p1 + length ws2 + length p2 + length ws3, s11, c0[1 := fl, 2 := ln, 3 := col, 4 := p1, 5 := p2]))"
    and r12: "(pE, sE, cE) \<in> set (rseq ?k13 y12)"
    by blast
  have z12: "c0[1 := fl, 2 := ln, 3 := col, 4 := p1, 5 := p2] ! 6 = []"
    by (simp add: c0)
  from opt_lit_mem [OF y12 z12] obtain loc s12 where
    w12: "s11 = loc @ s12" "loc = ''local'' \<or> loc = []"
    and e12: "y12 = (0 + length fl + length '':'' + length ln + length '':'' + length col + length '':'' + length ws1 + length p1 + length ws2 + length p2 + length ws3 + length loc, s12, c0[1 := fl, 2 := ln, 3 := col, 4 := p1, 5 := p2, 6 := loc])"
    by blast
  from rseq_mem [OF r12 [unfolded e12]] obtain y13 where
    y13: "y13 \<in> set (rmatch (OpCapture 7 (OpPlus (NoneOf (perl_space @ ''+'')))) (0 + length fl + length '':'' + length ln + length '':'' + length col + length '':'' + length ws1 + length p1 + length ws2 + length p2 + length ws3 + length loc, s12, c0[1 := fl, 2 := ln, 3 := col, 4 := p1, 5 := p2, 6 := loc]))"
    and r13: "(pE, sE, cE) \<in> set (rseq ?k14 y13)"
    by blast
  from cap_plus_mem [OF y13] obtain kd s13 where
    w13: "kd \<noteq> []" "s12 = kd @ s13" "\<forall>x\<in>set kd. cmatch (NoneOf (perl_space @ ''+'')) x"
    and e13: "y13 = (0 + length fl + length '':'' + length ln + length '':'' + length col + length '':'' + length ws1 + length p1 + length ws2 + length p2 + length ws3 + length loc + length kd, s13, c0[1 := fl, 2 := ln, 3 := col, 4 := p1, 5 := p2, 6 := loc, 7 := kd])"
    by blast
  from rseq_mem [OF r13 [unfolded e13]] obtain y14 where
    y14: "y14 \<in> set (rmatch (OpQuest (OpCapture 8 (OpLiteral ''+''))) (0 + length fl + length '':'' + length ln + length '':'' + length col + length '':'' + length ws1 + length p1 + length ws2 + length p2 + length ws3 + length loc + length kd, s13, c0[1 := fl, 2 := ln, 3 := col, 4 := p1, 5 := p2, 6 := loc, 7 := kd]))"
    and r14: "(pE, sE, cE) \<in> set (rseq ?k15 y14)"
    by blast
  have z14: "c0[1 := fl, 2 := ln, 3 := col, 4 := p1, 5 := p2, 6 := loc, 7 := kd] ! 8 = []"
    by (simp add: c0)
  from opt_lit_mem [OF y14 z14] obtain pl s14 where
    w14: "s13 = pl @ s14" "pl = ''+'' \<or> pl = []"
    and e14: "y14 = (0 + length fl + length '':'' + length ln + length '':'' + length col + length '':'' + length ws1 + length p1 + length ws2 + length p2 + length ws3 + length loc + length kd + length pl, s14, c0[1 := fl, 2 := ln, 3 := col, 4 := p1, 5 := p2, 6 := loc, 7 := kd, 8 := pl])"
    by blast
  from rseq_mem [OF r14 [unfolded e14]] obtain y15 where
    y15: "y15 \<in> set (rmatch (OpQuest (OpCapture 9 (OpConcat
        [OpPlus (OneOf perl_space),
         OpCapture 10 (OpConcat [OpCharClass (NoneOf perl_space), OpStar (NoneOf [CHR 0x0A])])]))) (0 + length fl + length '':'' + length ln + length '':'' + length col + length '':'' + length ws1 + length p1 + length ws2 + length p2 + length ws3 + length loc + length kd + length pl, s14, c0[1 := fl, 2 := ln, 3 := col, 4 := p1, 5 := p2, 6 := loc, 7 := kd, 8 := pl]))"
    and r15: "(pE, sE, cE) \<in> set (rseq ?k16 y15)"
    by blast
  have z15a: "c0[1 := fl, 2 := ln, 3 := col, 4 := p1, 5 := p2, 6 := loc, 7 := kd, 8 := pl] ! 9 = []" and z15b: "c0[1 := fl, 2 := ln, 3 := col, 4 := p1, 5 := p2, 6 := loc, 7 := kd, 8 := pl] ! 10 = []"
    by (simp_all add: c0)
  from type_mem [OF y15 z15a z15b] obtain tp ty s15 where
    w15: "s14 = tp @ s15"
      "tp = [] \<and> ty = [] \<or>
        (\<exists>ws. tp = ws @ ty \<and> ws \<noteq> [] \<and> set ws \<subseteq> set perl_space
           \<and> ty \<noteq> [] \<and> hd ty \<notin> set perl_space \<and> CHR 0x0A \<notin> set (tl ty))"
    and e15: "y15 = (0 + length fl + length '':'' + length ln + length '':'' + length col + length '':'' + length ws1 + length p1 + length ws2 + length p2 + length ws3 + length loc + length kd + length pl + length tp, s15, c0[1 := fl, 2 := ln, 3 := col, 4 := p1, 5 := p2, 6 := loc, 7 := kd, 8 := pl, 10 := ty, 9 := tp])"
    by blast
  from rseq_last [OF r15 [unfolded e15]]
  have "(pE, sE, cE) \<in> set (rmatch OpEndText (0 + length fl + length '':'' + length ln + length '':'' + length col + length '':'' + length ws1 + length p1 + length ws2 + length p2 + length ws3 + length loc + length kd + length pl + length tp, s15, c0[1 := fl, 2 := ln, 3 := col, 4 := p1, 5 := p2, 6 := loc, 7 := kd, 8 := pl, 10 := ty, 9 := tp]))" .
  from OpEndText_mem [OF this] have fin: "s15 = []" "(pE, sE, cE) = (0 + length fl + length '':'' + length ln + length '':'' + length col + length '':'' + length ws1 + length p1 + length ws2 + length p2 + length ws3 + length loc + length kd + length pl + length tp, s15, c0[1 := fl, 2 := ln, 3 := col, 4 := p1, 5 := p2, 6 := loc, 7 := kd, 8 := pl, 10 := ty, 9 := tp])"
    by simp_all
  have line: "line = fl @ '':'' @ ln @ '':'' @ col @ '':'' @ ws1 @ p1 @ ws2 @ p2 @ ws3
              @ loc @ kd @ pl @ tp"
    using w1(2) w2 w3(2) w4 w5(2) w6 w7(2) w8(2) w9(2) w10(2) w11(2) w12(1) w13(2) w14(1)
      w15(1) fin(1) by simp
  have pE: "pE = length line"
    using fin(2) unfolding line by simp
  have cE: "cE = [[], fl, ln, col, p1, p2, loc, kd, pl, tp, ty]"
    using fin(2) by (simp add: c0)
  have sE: "sE = []"
    using fin by simp
  have c1: "CHR '':'' \<notin> set fl" using w1(3) by auto
  have c3: "set ln \<subseteq> set decimal" using w3(3) by auto
  have c5: "set col \<subseteq> set decimal" using w5(3) by auto
  have c7: "set ws1 \<subseteq> set perl_space" using w7(3) by auto
  have c8: "CHR '' '' \<notin> set p1" using w8(3) by auto
  have c9: "set ws2 \<subseteq> set perl_space" using w9(3) by auto
  have c10: "set p2 \<inter> set perl_space = {}" using w10(3) by auto
  have c11: "set ws3 \<subseteq> set perl_space" using w11(3) by auto
  have c13: "set kd \<inter> set (perl_space @ ''+'') = {}" using w13(3) by auto
  have "line = fl @ '':'' @ ln @ '':'' @ col @ '':'' @ ws1 @ p1 @ ws2 @ p2 @ ws3
              @ loc @ kd @ pl @ tp
       \<and> pE = length line
       \<and> cE = [[], fl, ln, col, p1, p2, loc, kd, pl, tp, ty]
       \<and> fl \<noteq> [] \<and> CHR '':'' \<notin> set fl
       \<and> ln \<noteq> [] \<and> set ln \<subseteq> set decimal
       \<and> col \<noteq> [] \<and> set col \<subseteq> set decimal
       \<and> ws1 \<noteq> [] \<and> set ws1 \<subseteq> set perl_space
       \<and> p1 \<noteq> [] \<and> CHR '' '' \<notin> set p1
       \<and> ws2 \<noteq> [] \<and> set ws2 \<subseteq> set perl_space
       \<and> p2 \<noteq> [] \<and> set p2 \<inter> set perl_space = {}
       \<and> ws3 \<noteq> [] \<and> set ws3 \<subseteq> set perl_space
       \<and> (loc = ''local'' \<or> loc = [])
       \<and> kd \<noteq> [] \<and> set kd \<inter> set (perl_space @ ''+'') = {}
       \<and> (pl = ''+'' \<or> pl = [])
       \<and> (tp = [] \<and> ty = [] \<or>
           (\<exists>ws4. tp = ws4 @ ty \<and> ws4 \<noteq> [] \<and> set ws4 \<subseteq> set perl_space
              \<and> ty \<noteq> [] \<and> hd ty \<notin> set perl_space \<and> CHR 0x0A \<notin> set (tl ty)))"
    using line pE cE w1(1) c1 w3(1) c3 w5(1) c5 w7(1) c7 w8(1) c8 w9(1) c9 w10(1) c10
      w11(1) c11 w12(2) w13(1) c13 w14(2) w15(2)
    by (intro conjI) assumption+
  then have "\<exists>file ln col ws1 p1 ws2 p2 ws3 loc kd pl tp ty.
       line = file @ '':'' @ ln @ '':'' @ col @ '':'' @ ws1 @ p1 @ ws2 @ p2 @ ws3
              @ loc @ kd @ pl @ tp
       \<and> pE = length line
       \<and> cE = [[], file, ln, col, p1, p2, loc, kd, pl, tp, ty]
       \<and> file \<noteq> [] \<and> CHR '':'' \<notin> set file
       \<and> ln \<noteq> [] \<and> set ln \<subseteq> set decimal
       \<and> col \<noteq> [] \<and> set col \<subseteq> set decimal
       \<and> ws1 \<noteq> [] \<and> set ws1 \<subseteq> set perl_space
       \<and> p1 \<noteq> [] \<and> CHR '' '' \<notin> set p1
       \<and> ws2 \<noteq> [] \<and> set ws2 \<subseteq> set perl_space
       \<and> p2 \<noteq> [] \<and> set p2 \<inter> set perl_space = {}
       \<and> ws3 \<noteq> [] \<and> set ws3 \<subseteq> set perl_space
       \<and> (loc = ''local'' \<or> loc = [])
       \<and> kd \<noteq> [] \<and> set kd \<inter> set (perl_space @ ''+'') = {}
       \<and> (pl = ''+'' \<or> pl = [])
       \<and> (tp = [] \<and> ty = [] \<or>
           (\<exists>ws4. tp = ws4 @ ty \<and> ws4 \<noteq> [] \<and> set ws4 \<subseteq> set perl_space
              \<and> ty \<noteq> [] \<and> hd ty \<notin> set perl_space \<and> CHR 0x0A \<notin> set (tl ty)))"
    by (intro exI)
  with p0 sE show ?thesis
    by (intro conjI)
qed

lemma linePat_not_at_start: "rmatch linePat (Suc p, s, c) = []"
  by (simp add: linePat_def)

lemma findFrom_linePat_later: "findFrom linePat (Suc p) s = None"
proof (induction s arbitrary: p)
  case Nil
  show ?case
    by (subst findFrom.simps) (simp only: linePat_not_at_start list.case)
next
  case (Cons a s)
  show ?case
    by (subst findFrom.simps) (simp only: linePat_not_at_start list.case Cons.IH)
qed

lemma linePat_NumSubexp: "Suc (NumSubexp linePat) = 11"
  by (simp add: linePat_def)

lemma replicate_11: "replicate 11 [] = [[], [], [], [], [], [], [], [], [], [], ([] :: string)]"
  by (simp add: numeral_eq_Suc)

lemma FindStringSubmatch_linePat_shape:
  assumes "FindStringSubmatch linePat line = Some m"
  shows "\<exists>file ln col ws1 p1 ws2 p2 ws3 loc kd pl tp ty.
       line = file @ '':'' @ ln @ '':'' @ col @ '':'' @ ws1 @ p1 @ ws2 @ p2 @ ws3
              @ loc @ kd @ pl @ tp
       \<and> m = [line, file, ln, col, p1, p2, loc, kd, pl, tp, ty]
       \<and> file \<noteq> [] \<and> CHR '':'' \<notin> set file
       \<and> ln \<noteq> [] \<and> set ln \<subseteq> set decimal
       \<and> col \<noteq> [] \<and> set col \<subseteq> set decimal
       \<and> ws1 \<noteq> [] \<and> set ws1 \<subseteq> set perl_space
       \<and> p1 \<noteq> [] \<and> CHR '' '' \<notin> set p1
       \<and> ws2 \<noteq> [] \<and> set ws2 \<subseteq> set perl_space
       \<and> p2 \<noteq> [] \<and> set p2 \<inter> set perl_space = {}
       \<and> ws3 \<noteq> [] \<and> set ws3 \<subseteq> set perl_space
       \<and> (loc = ''local'' \<or> loc = [])
       \<and> kd \<noteq> [] \<and> set kd \<inter> set (perl_space @ ''+'') = {}
       \<and> (pl = ''+'' \<or> pl = [])
       \<and> (tp = [] \<and> ty = [] \<or>
           (\<exists>ws4. tp = ws4 @ ty \<and> ws4 \<noteq> [] \<and> set ws4 \<subseteq> set perl_space
              \<and> ty \<noteq> [] \<and> hd ty \<notin> set perl_space \<and> CHR 0x0A \<notin> set (tl ty)))"
proof -
  let ?c0 = "[[], [], [], [], [], [], [], [], [], [], ([] :: string)]"
  have f: "findFrom linePat 0 line =
     (case rmatch linePat (0, line, ?c0) of
        (p', s', caps) # rest \<Rightarrow> Some (caps[0 := take (p' - 0) line])
      | [] \<Rightarrow> (case line of [] \<Rightarrow> None | c # s' \<Rightarrow> findFrom linePat (Suc 0) s'))"
    by (subst findFrom.simps) (simp only: linePat_NumSubexp replicate_11)
  have "rmatch linePat (0, line, ?c0) \<noteq> []"
  proof
    assume "rmatch linePat (0, line, ?c0) = []"
    with f have "findFrom linePat 0 line = None"
      by (cases line) (simp_all only: list.case findFrom_linePat_later)
    with assms show False
      by (simp add: FindStringSubmatch_def)
  qed
  then obtain pE sE cE rest where h: "rmatch linePat (0, line, ?c0) = (pE, sE, cE) # rest"
    by (cases "rmatch linePat (0, line, ?c0)") auto
  with f assms have m: "m = cE[0 := take pE line]"
    by (simp add: FindStringSubmatch_def)
  from h have "(pE, sE, cE) \<in> set (rmatch linePat (0, line, ?c0))"
    by simp
  from linePat_mem [OF this refl] obtain fl ln col ws1 p1 ws2 p2 ws3 loc kd pl tp ty where
    s: "line = fl @ '':'' @ ln @ '':'' @ col @ '':'' @ ws1 @ p1 @ ws2 @ p2 @ ws3
              @ loc @ kd @ pl @ tp
       \<and> pE = length line
       \<and> cE = [[], fl, ln, col, p1, p2, loc, kd, pl, tp, ty]
       \<and> fl \<noteq> [] \<and> CHR '':'' \<notin> set fl
       \<and> ln \<noteq> [] \<and> set ln \<subseteq> set decimal
       \<and> col \<noteq> [] \<and> set col \<subseteq> set decimal
       \<and> ws1 \<noteq> [] \<and> set ws1 \<subseteq> set perl_space
       \<and> p1 \<noteq> [] \<and> CHR '' '' \<notin> set p1
       \<and> ws2 \<noteq> [] \<and> set ws2 \<subseteq> set perl_space
       \<and> p2 \<noteq> [] \<and> set p2 \<inter> set perl_space = {}
       \<and> ws3 \<noteq> [] \<and> set ws3 \<subseteq> set perl_space
       \<and> (loc = ''local'' \<or> loc = [])
       \<and> kd \<noteq> [] \<and> set kd \<inter> set (perl_space @ ''+'') = {}
       \<and> (pl = ''+'' \<or> pl = [])
       \<and> (tp = [] \<and> ty = [] \<or>
           (\<exists>ws4. tp = ws4 @ ty \<and> ws4 \<noteq> [] \<and> set ws4 \<subseteq> set perl_space
              \<and> ty \<noteq> [] \<and> hd ty \<notin> set perl_space \<and> CHR 0x0A \<notin> set (tl ty)))"
    by blast
  from s have pE: "pE = length line" and cE: "cE = [[], fl, ln, col, p1, p2, loc, kd, pl, tp, ty]"
    by blast+
  have "m = [line, fl, ln, col, p1, p2, loc, kd, pl, tp, ty]"
    unfolding m pE cE by simp
  with s show ?thesis
    by blast
qed

subsection \<open>Decimal numbers\<close>

lemma decimal_nth: "n < 10 \<Longrightarrow> decimal ! n \<in> set decimal"
  by (rule nth_mem) (simp add: decimal_def)

lemma digit_val_nth: "n < 10 \<Longrightarrow> digit_val (decimal ! n) = int n"
proof -
  assume "n < 10"
  then have "n \<in> {0, 1, 2, 3, 4, 5, 6, 7, 8, 9}" by auto
  then show ?thesis
    by (auto simp add: decimal_def digit_val_def)
qed

lemma digits_ne: "digits n \<noteq> []"
  by (subst digits.simps) simp

lemma digits_decimal: "set (digits n) \<subseteq> set decimal"
proof (induction n rule: digits.induct)
  case (1 n)
  show ?case
  proof (cases "n < 10")
    case True
    then show ?thesis by (subst digits.simps) (simp add: decimal_nth)
  next
    case False
    with 1 show ?thesis by (subst digits.simps) (simp add: decimal_nth)
  qed
qed

lemma digits_value: "foldl (\<lambda>a c. 10 * a + digit_val c) 0 (digits n) = int n"
proof (induction n rule: digits.induct)
  case (1 n)
  show ?case
  proof (cases "n < 10")
    case True
    then show ?thesis by (subst digits.simps) (simp add: digit_val_nth)
  next
    case False
    with 1 have "foldl (\<lambda>a c. 10 * a + digit_val c) 0 (digits (n div 10)) = int (n div 10)"
      by simp
    with False show ?thesis
      by (subst digits.simps) (simp add: digit_val_nth zdiv_int zmod_int)
  qed
qed

lemma Atoi_digits: "int n \<le> 2 ^ 63 - 1 \<Longrightarrow> Atoi (digits n) = Some (int n)"
proof -
  assume r: "int n \<le> 2 ^ 63 - 1"
  obtain c cs where d: "digits n = c # cs"
    using digits_ne [of n] by (cases "digits n") auto
  from digits_decimal [of n] d have c: "c \<in> set decimal" and cs: "set cs \<subseteq> set decimal"
    by auto
  from c have sign: "c \<noteq> CHR ''+''" "c \<noteq> CHR ''-''"
    by (auto simp: decimal_def)
  from c cs have all: "\<not> (\<exists>x\<in>set (c # cs). x \<notin> set decimal)"
    by auto
  have v: "foldl (\<lambda>a c. 10 * a + digit_val c) 0 (c # cs) = int n"
    using digits_value [of n] d by simp
  show ?thesis
    unfolding Atoi_def d using sign all v r
    by (simp add: Let_def del: foldl_Cons)
qed

lemma atoi_itoa: "0 \<le> i \<Longrightarrow> i \<le> 2 ^ 63 - 1 \<Longrightarrow> atoi (itoa i) = Returns i"
  using Atoi_digits [of "nat i"] by (simp add: atoi_def itoa_def)

lemma digit_val_decimal: "c \<in> set decimal \<Longrightarrow> 0 \<le> digit_val c"
  by (auto simp add: decimal_def digit_val_def)

lemma number_nonneg:
  "0 \<le> a \<Longrightarrow> set s \<subseteq> set decimal \<Longrightarrow> 0 \<le> foldl (\<lambda>a c. 10 * a + digit_val c) a s"
proof (induction s arbitrary: a)
  case Nil
  then show ?case by simp
next
  case (Cons c s)
  from Cons.prems have "0 \<le> 10 * a + digit_val c"
    using digit_val_decimal [of c] by simp
  from Cons.IH [OF this] Cons.prems(2) show ?case
    by simp
qed

lemma Atoi_decimal:
  assumes "s \<noteq> []" and "set s \<subseteq> set decimal"
  shows "Atoi s = (if 2 ^ 63 - 1 < foldl (\<lambda>a c. 10 * a + digit_val c) 0 s then None
                   else Some (foldl (\<lambda>a c. 10 * a + digit_val c) 0 s))"
proof -
  obtain c cs where d: "s = c # cs"
    using assms(1) by (cases s) auto
  from assms(2) d have c: "c \<in> set decimal"
    by simp
  then have sign: "c \<noteq> CHR ''+''" "c \<noteq> CHR ''-''"
    by (auto simp: decimal_def)
  from assms(2) have all: "\<not> (\<exists>x\<in>set s. x \<notin> set decimal)"
    by auto
  have "0 \<le> foldl (\<lambda>a c. 10 * a + digit_val c) 0 s"
    using assms(2) by (intro number_nonneg) simp_all
  then have low: "\<not> foldl (\<lambda>a c. 10 * a + digit_val c) 0 s < - (2 ^ 63)"
    by simp
  have "Atoi (c # cs) = (if 2 ^ 63 - 1 < foldl (\<lambda>a c. 10 * a + digit_val c) 0 (c # cs) then None
                   else Some (foldl (\<lambda>a c. 10 * a + digit_val c) 0 (c # cs)))"
    unfolding Atoi_def using sign all [unfolded d] low [unfolded d]
    by (simp add: Let_def del: foldl_Cons)
  then show ?thesis
    by (simp only: d)
qed

subsection \<open>Printing and parsing symbol lines\<close>

lemma symLine_String_eq:
  "symLine_String l =
     Position_String (l_pos l) @ '': '' @ l_exprPkg l @ '' '' @ l_referPkg l @ '' ''
     @ l_expr l @ '' '' @ (if l_local l then ''local'' else [])
     @ ObjKind_String (l_kind l) @ (if l_definition l then ''+'' else [])
     @ (if l_exprType l = [] then [] else '' '' @ l_exprType l)"
  by (simp add: symLine_String_def)

lemma kind_token:
  "k \<in> {Con, Typ, Var, Fun} \<Longrightarrow>
   ObjKind_String k \<noteq> [] \<and> hd (ObjKind_String k) \<noteq> CHR ''l''
   \<and> set (ObjKind_String k) \<inter> set (perl_space @ ''+'') = {}
   \<and> objKinds (ObjKind_String k) = Some k"
  by (auto simp add: perl_space_def objKinds_def)

lemma parseSymLine_String_noexpr:
  assumes fl: "Filename (l_pos l) \<noteq> []" "CHR '':'' \<notin> set (Filename (l_pos l))"
    and off: "Offset (l_pos l) = 0"
    and ln: "0 \<le> Line (l_pos l)" "Line (l_pos l) \<le> 2 ^ 63 - 1"
    and col: "0 \<le> Column (l_pos l)" "Column (l_pos l) \<le> 2 ^ 63 - 1"
    and p1: "l_exprPkg l \<noteq> []" "set (l_exprPkg l) \<inter> set perl_space = {}"
    and p2: "l_referPkg l \<noteq> []" "set (l_referPkg l) \<inter> set perl_space = {}"
    and kd: "l_kind l \<in> {Con, Typ, Var, Fun}"
    and ty: "l_exprType l = [] \<or>
             (hd (l_exprType l) \<notin> set perl_space \<and> CHR 0x0A \<notin> set (l_exprType l))"
    and ex: "l_expr l = []"
  shows "parseSymLine (symLine_String l) = Returns (Inr l)"
proof -
  let ?ln = "digits (nat (Line (l_pos l)))"
  let ?col = "digits (nat (Column (l_pos l)))"
  let ?kd = "ObjKind_String (l_kind l)"
  let ?line = "Filename (l_pos l) @ '':'' @ ?ln @ '':'' @ ?col @ '':'' @ '' ''
      @ l_exprPkg l @ '' '' @ l_referPkg l @ ''  ''
      @ (if l_local l then ''local'' else []) @ ?kd @ (if l_definition l then ''+'' else [])
      @ (if l_exprType l = [] then [] else '' '' @ l_exprType l)"
  have line: "symLine_String l = ?line"
    using ln(1) col(1) ex by (simp add: symLine_String_eq Position_String_def itoa_def)
  note k = kind_token [OF kd]
  have sp: "'' '' \<noteq> []" "set '' '' \<subseteq> set perl_space" "hd '' '' = CHR '' ''"
       "''  '' \<noteq> []" "set ''  '' \<subseteq> set perl_space"
    by (simp_all add: perl_space_def)
  have m: "FindStringSubmatch linePat ?line =
     Some [?line, Filename (l_pos l), ?ln, ?col, l_exprPkg l, l_referPkg l,
           (if l_local l then ''local'' else []), ?kd, (if l_definition l then ''+'' else []),
           (if l_exprType l = [] then [] else '' '' @ l_exprType l), l_exprType l]"
    by (rule linePat_match [OF fl digits_ne digits_decimal digits_ne digits_decimal
          sp(1,2) p1 sp(1,2,3) p2 sp(4,5) k [THEN conjunct1]
          k [THEN conjunct2, THEN conjunct1] k [THEN conjunct2, THEN conjunct2, THEN conjunct1]
          sp(1,2) ty])
  have a1: "atoi ?ln = Returns (Line (l_pos l))"
    using atoi_itoa [OF ln] ln(1) by (simp add: itoa_def)
  have a2: "atoi ?col = Returns (Column (l_pos l))"
    using atoi_itoa [OF col] col(1) by (simp add: itoa_def)
  have ok: "objKinds ?kd = Some (l_kind l)"
    using k by simp
  have pos: "\<lparr>Filename = Filename (l_pos l), Offset = 0, Line = Line (l_pos l),
             Column = Column (l_pos l)\<rparr> = l_pos l"
    using off by simp
  show ?thesis
    unfolding line parseSymLine_def m
    using ex by (simp add: a1 a2 ok pos)
qed

text \<open>
  C2, as amended. \<^verbatim>\<open>symLine.String\<close> renders
  \<^verbatim>\<open><file>:<line>:<col>: <ownerPkg> <referPkg> <expr> [local]<kind>[+][ <type>]\<close>: one
  space follows the expression text, the marker \<^verbatim>\<open>local\<close> stands between that space
  and the kind token, the marker \<^verbatim>\<open>+\<close> follows the kind token, and a type text that
  is not empty follows after exactly one space.
\<close>

theorem symLine_String_grammar:
  "symLine_String l =
     Filename (l_pos l) @ '':'' @ itoa (Line (l_pos l)) @ '':'' @ itoa (Column (l_pos l))
     @ '': '' @ l_exprPkg l @ '' '' @ l_referPkg l @ '' '' @ l_expr l @ '' ''
     @ (if l_local l then ''local'' else []) @ ObjKind_String (l_kind l)
     @ (if l_definition l then ''+'' else [])
     @ (if l_exprType l = [] then [] else '' '' @ l_exprType l)"
  by (simp add: symLine_String_def Position_String_def)

text \<open>
  C2 as stated fails: for the occurrence of \<^verbatim>\<open>Foo\<close> below the serializer prints a space
  between the expression and the kind token, where the grammar of the specification
  has none; and it prints \<^verbatim>\<open>local\<close> after the expression, not before it.
\<close>

theorem symLine_String_not_spec_line:
  "symLine_String
     \<lparr>l_pos = \<lparr>Filename = ''f.go'', Offset = 0, Line = 12, Column = 3\<rparr>,
      l_exprPkg = ''p'', l_referPkg = ''q'', l_local = False, l_kind = Fun,
      l_definition = True, l_expr = ''Foo'', l_exprType = ''func()''\<rparr>
     = ''f.go:12:3: p q Foo func+ func()''
   \<and> spec_line
     \<lparr>l_pos = \<lparr>Filename = ''f.go'', Offset = 0, Line = 12, Column = 3\<rparr>,
      l_exprPkg = ''p'', l_referPkg = ''q'', l_local = False, l_kind = Fun,
      l_definition = True, l_expr = ''Foo'', l_exprType = ''func()''\<rparr>
     = ''f.go:12:3: p q Foofunc+ func()''
   \<and> symLine_String
     \<lparr>l_pos = \<lparr>Filename = ''f.go'', Offset = 0, Line = 12, Column = 3\<rparr>,
      l_exprPkg = ''p'', l_referPkg = ''q'', l_local = True, l_kind = Var,
      l_definition = False, l_expr = ''x'', l_exprType = []\<rparr>
     = ''f.go:12:3: p q x localvar''"
  by code_simp

lemma parseSymLine_no_expr: "parseSymLine line = Returns (Inr l) \<Longrightarrow> l_expr l = []"
  by (auto simp add: parseSymLine_def split: option.splits outcome.splits)

text \<open>
  C1. The round trip fails on the code: the line printed for the expression \<^verbatim>\<open>Foo\<close>
  of kind func is rejected, because the pattern reads the expression text where it
  expects the kind; and for an expression text that is itself a kind token the line
  parses to other fields.
\<close>

theorem parseSymLine_String_fails:
  "symLine_String
     \<lparr>l_pos = \<lparr>Filename = ''f.go'', Offset = 0, Line = 12, Column = 3\<rparr>,
      l_exprPkg = ''p'', l_referPkg = ''q'', l_local = False, l_kind = Fun,
      l_definition = False, l_expr = ''Foo'', l_exprType = []\<rparr>
     = ''f.go:12:3: p q Foo func''
   \<and> parseSymLine ''f.go:12:3: p q Foo func'' = Returns (Inl (InvalidKind ''Foo''))
   \<and> parseSymLine (symLine_String
     \<lparr>l_pos = \<lparr>Filename = ''f.go'', Offset = 0, Line = 12, Column = 3\<rparr>,
      l_exprPkg = ''p'', l_referPkg = ''q'', l_local = False, l_kind = Fun,
      l_definition = True, l_expr = ''var'', l_exprType = []\<rparr>)
     = Returns (Inr
     \<lparr>l_pos = \<lparr>Filename = ''f.go'', Offset = 0, Line = 12, Column = 3\<rparr>,
      l_exprPkg = ''p'', l_referPkg = ''q'', l_local = False, l_kind = Var,
      l_definition = False, l_expr = [], l_exprType = ''func+''\<rparr>)"
  by code_simp

subsection \<open>The traversal\<close>

lemma visitExpr_Obj: "Obj (snd (visitExpr E f ip e loc st)) = Obj st"
  by (simp add: visitExpr_def Let_def split: prod.splits option.splits)

lemma visitExpr_ok: "ok (snd (visitExpr E f ip e loc st)) = ok st"
  by (simp add: visitExpr_def Let_def split: prod.splits option.splits)

lemma visitExpr_true: "\<forall>i. f i \<Longrightarrow> fst (visitExpr E f ip e loc st)"
  by (simp add: visitExpr_def Let_def split: prod.splits option.splits)

lemma visit_stopped: "\<not> ok st \<Longrightarrow> visit E f ip n st = (False, st)"
  by (cases n) simp_all

lemma Walk_stopped: "\<not> ok st \<Longrightarrow> Walk E f ip n st = st"
  by (simp add: Walk.simps visit_stopped)

lemma WalkList_stopped: "\<not> ok st \<Longrightarrow> WalkList E f ip ns st = st"
  by (induction ns) (simp_all add: Walk_stopped)

lemma WalkList_append:
  "WalkList E f ip (xs @ ys) st = WalkList E f ip ys (WalkList E f ip xs st)"
  by (induction xs arbitrary: st) simp_all

lemma Walk_Ident:
  "ok st \<Longrightarrow> Walk E f ip (Ident p nm) st =
     (snd (visitExpr E f ip (Ident p nm) False st))\<lparr>ok := fst (visitExpr E f ip (Ident p nm) False st)\<rparr>"
  by (simp add: Walk.simps split: prod.splits)

lemma Walk_Selector:
  "ok st \<Longrightarrow> Walk E f ip (SelectorExpr x p nm) st =
     (snd (visitExpr E f ip (SelectorExpr x p nm) False (Walk E f ip x st)))
       \<lparr>ok := fst (visitExpr E f ip (SelectorExpr x p nm) False (Walk E f ip x st))\<rparr>"
  by (simp add: Walk.simps Let_def split: prod.splits)

lemma Walk_KeyValue: "ok st \<Longrightarrow> Walk E f ip (KeyValueExpr k v) st = Walk E f ip v st"
  by (simp add: Walk.simps)

lemma Walk_Star: "ok st \<Longrightarrow> Walk E f ip (StarExpr x) st = Walk E f ip x st"
  by (simp add: Walk.simps)

lemma Walk_FuncType:
  "ok st \<Longrightarrow> Walk E f ip (FuncType ps rs) st = WalkList E f ip rs (WalkList E f ip ps st)"
  by (simp add: Walk.simps)

lemma Walk_File: "ok st \<Longrightarrow> Walk E f ip (File ds) st = WalkList E f ip ds st"
  by (simp add: Walk.simps)

lemma Walk_Other: "ok st \<Longrightarrow> Walk E f ip (Other cs) st = WalkList E f ip cs st"
  by (simp add: Walk.simps)

lemma Walk_ImportSpec_dot:
  "Walk E f ip (ImportSpec (Some (p, ''.'')) path) st = st\<lparr>ok := False\<rparr>"
  by (cases "ok st") (simp_all add: Walk.simps)

lemma Walk_ImportSpec_named:
  "ok st \<Longrightarrow> nm \<noteq> ''.'' \<Longrightarrow>
   Walk E f ip (ImportSpec (Some (p, nm)) path) st = Walk E f ip (Ident p nm) st"
  by (simp add: Walk.simps)

lemma Walk_ImportSpec_plain: "Walk E f ip (ImportSpec None path) st = st"
  by (cases "ok st") (simp_all add: Walk.simps)

lemma Walk_FuncDecl:
  "ok st \<Longrightarrow> Walk E f ip (FuncDecl recv p nm ty body) st =
     (let st' = (if recv = None \<and> nm = ''init''
                 then st\<lparr>Obj := (Obj st)(p \<mapsto> (Fun, ''init''))\<rparr> else st);
          st1 = (case recv of None \<Rightarrow> st' | Some r \<Rightarrow> Walk E f ip r st');
          st2 = Walk E f ip (Ident p nm) st1;
          st3 = Walk E f ip ty st2
      in case body of None \<Rightarrow> st3 | Some b \<Rightarrow> Walk E f ip b st3)"
  by (subst Walk.simps) (simp add: Let_def)

lemma WalkList_inits:
  assumes "\<And>c st. c \<in> set cs \<Longrightarrow> ok st \<Longrightarrow>
             ok (Walk E f ip c st) \<and>
             Obj (Walk E f ip c st) =
               (\<lambda>q. if q \<in> initDecls c then Some (Fun, ''init'') else Obj st q)"
    and "ok st"
  shows "ok (WalkList E f ip cs st) \<and>
         Obj (WalkList E f ip cs st) =
           (\<lambda>q. if q \<in> (\<Union>c\<in>set cs. initDecls c) then Some (Fun, ''init'') else Obj st q)"
  using assms
proof (induction cs arbitrary: st)
  case Nil
  then show ?case by simp
next
  case (Cons c cs)
  from Cons.prems(1) [of c st] Cons.prems(2)
  have c: "ok (Walk E f ip c st)"
    "Obj (Walk E f ip c st) = (\<lambda>q. if q \<in> initDecls c then Some (Fun, ''init'') else Obj st q)"
    by simp_all
  have "ok (WalkList E f ip cs (Walk E f ip c st)) \<and>
        Obj (WalkList E f ip cs (Walk E f ip c st)) =
          (\<lambda>q. if q \<in> (\<Union>c\<in>set cs. initDecls c) then Some (Fun, ''init'')
               else Obj (Walk E f ip c st) q)"
    using Cons.prems(1) c(1) by (intro Cons.IH) simp_all
  with c(2) show ?case by (auto simp add: fun_eq_iff)
qed

lemma Walk_inits:
  assumes f: "\<forall>i. f i"
  shows "ok st \<Longrightarrow> \<not> dotImport n \<Longrightarrow>
   ok (Walk E f ip n st) \<and>
   Obj (Walk E f ip n st) = (\<lambda>q. if q \<in> initDecls n then Some (Fun, ''init'') else Obj st q)"
proof (induction n arbitrary: st)
  case (Ident p nm)
  then show ?case
    by (simp add: Walk_Ident visitExpr_Obj visitExpr_true [OF f])
next
  case (SelectorExpr x p nm)
  from SelectorExpr.IH [of st] SelectorExpr.prems
  have "ok (Walk E f ip x st)"
    "Obj (Walk E f ip x st) = (\<lambda>q. if q \<in> initDecls x then Some (Fun, ''init'') else Obj st q)"
    by simp_all
  with SelectorExpr.prems show ?case
    by (simp add: Walk_Selector visitExpr_Obj visitExpr_true [OF f])
next
  case (StarExpr x)
  then show ?case by (simp add: Walk_Star)
next
  case (KeyValueExpr k v)
  then show ?case by (simp add: Walk_KeyValue)
next
  case (ImportSpec name path)
  show ?case
  proof (cases name)
    case None
    with ImportSpec show ?thesis by (simp add: Walk_ImportSpec_plain)
  next
    case (Some a)
    obtain p nm where a: "a = (p, nm)" by (cases a)
    with Some ImportSpec.prems have "nm \<noteq> ''.''" by simp
    with Some a ImportSpec.prems show ?thesis
      by (simp add: Walk_ImportSpec_named Walk_Ident visitExpr_Obj visitExpr_true [OF f])
  qed
next
  case (FuncType ps rs)
  have 1: "ok (WalkList E f ip ps st) \<and>
         Obj (WalkList E f ip ps st) =
           (\<lambda>q. if q \<in> (\<Union>c\<in>set ps. initDecls c) then Some (Fun, ''init'') else Obj st q)"
    using FuncType by (intro WalkList_inits) auto
  have 2: "ok (WalkList E f ip rs (WalkList E f ip ps st)) \<and>
         Obj (WalkList E f ip rs (WalkList E f ip ps st)) =
           (\<lambda>q. if q \<in> (\<Union>c\<in>set rs. initDecls c) then Some (Fun, ''init'')
                else Obj (WalkList E f ip ps st) q)"
    using FuncType 1 by (intro WalkList_inits) auto
  from 1 2 FuncType.prems(1) show ?case
    by (auto simp add: Walk_FuncType fun_eq_iff)
next
  case (FuncDecl recv p nm ty body)
  define A0 where "A0 = (if recv = None \<and> nm = ''init'' then {p} else {})"
  define A1 where "A1 = (case recv of None \<Rightarrow> {} | Some r \<Rightarrow> initDecls r)"
  define A4 where "A4 = (case body of None \<Rightarrow> {} | Some b \<Rightarrow> initDecls b)"
  define st' where "st' = (if recv = None \<and> nm = ''init''
              then st\<lparr>Obj := (Obj st)(p \<mapsto> (Fun, ''init''))\<rparr> else st)"
  define st1 where "st1 = (case recv of None \<Rightarrow> st' | Some r \<Rightarrow> Walk E f ip r st')"
  define st2 where "st2 = Walk E f ip (Ident p nm) st1"
  define st3 where "st3 = Walk E f ip ty st2"
  define st4 where "st4 = (case body of None \<Rightarrow> st3 | Some b \<Rightarrow> Walk E f ip b st3)"
  have 0: "ok st'" "Obj st' = (\<lambda>q. if q \<in> A0 then Some (Fun, ''init'') else Obj st q)"
    using FuncDecl.prems(1) by (auto simp add: fun_eq_iff st'_def A0_def)
  have 1: "ok st1 \<and> Obj st1 = (\<lambda>q. if q \<in> A1 then Some (Fun, ''init'') else Obj st' q)"
  proof (cases recv)
    case None
    with 0 show ?thesis by (simp add: st1_def A1_def)
  next
    case (Some r)
    with FuncDecl.IH(1) [of r st'] 0(1) FuncDecl.prems show ?thesis
      by (simp add: st1_def A1_def)
  qed
  have 2: "ok st2 \<and> Obj st2 = Obj st1"
    using 1 by (simp add: st2_def Walk_Ident visitExpr_Obj visitExpr_true [OF f])
  have 3: "ok st3 \<and> Obj st3 =
       (\<lambda>q. if q \<in> initDecls ty then Some (Fun, ''init'') else Obj st2 q)"
    using FuncDecl.IH(2) [of st2] 2 FuncDecl.prems by (simp add: st3_def)
  have 4: "ok st4 \<and> Obj st4 = (\<lambda>q. if q \<in> A4 then Some (Fun, ''init'') else Obj st3 q)"
  proof (cases body)
    case None
    with 3 show ?thesis by (simp add: st4_def A4_def)
  next
    case (Some b)
    with FuncDecl.IH(3) [of b st3] 3 FuncDecl.prems show ?thesis
      by (simp add: st4_def A4_def)
  qed
  have w: "Walk E f ip (FuncDecl recv p nm ty body) st = st4"
    using FuncDecl.prems(1)
    by (simp only: Walk_FuncDecl Let_def st4_def st3_def st2_def st1_def st'_def)
  have i: "initDecls (FuncDecl recv p nm ty body) = A0 \<union> A1 \<union> initDecls ty \<union> A4"
    by (simp add: A0_def A1_def A4_def)
  have "Obj st4 = (\<lambda>q. if q \<in> A0 \<union> A1 \<union> initDecls ty \<union> A4
                       then Some (Fun, ''init'') else Obj st q)"
    using 0(2) 1 2 3 4 by (auto simp add: fun_eq_iff)
  with 4 show ?case
    unfolding w i by simp
next
  case (File decls)
  have "ok (WalkList E f ip decls st) \<and>
         Obj (WalkList E f ip decls st) =
           (\<lambda>q. if q \<in> (\<Union>c\<in>set decls. initDecls c) then Some (Fun, ''init'') else Obj st q)"
    using File by (intro WalkList_inits) auto
  with File.prems(1) show ?case by (simp add: Walk_File)
next
  case (Other cs)
  have "ok (WalkList E f ip cs st) \<and>
         Obj (WalkList E f ip cs st) =
           (\<lambda>q. if q \<in> (\<Union>c\<in>set cs. initDecls c) then Some (Fun, ''init'') else Obj st q)"
    using Other by (intro WalkList_inits) auto
  with Other.prems(1) show ?case by (simp add: Walk_Other)
qed

lemma visitExpr_calls: "\<exists>cs. calls (snd (visitExpr E f ip e loc st)) = calls st @ cs"
  by (simp add: visitExpr_def Let_def split: prod.splits option.splits)

lemma WalkList_calls:
  assumes "\<And>c st. c \<in> set cs \<Longrightarrow> \<exists>xs. calls (Walk E f ip c st) = calls st @ xs"
  shows "\<exists>xs. calls (WalkList E f ip cs st) = calls st @ xs"
  using assms
proof (induction cs arbitrary: st)
  case Nil
  then show ?case by simp
next
  case (Cons c cs)
  from Cons.prems [of c st] obtain xs where 1: "calls (Walk E f ip c st) = calls st @ xs"
    by auto
  have "\<exists>ys. calls (WalkList E f ip cs (Walk E f ip c st)) = calls (Walk E f ip c st) @ ys"
    using Cons.prems by (intro Cons.IH) simp
  with 1 show ?case by auto
qed

lemma Walk_calls: "\<exists>xs. calls (Walk E f ip n st) = calls st @ xs"
proof (cases "ok st")
  case False
  then show ?thesis by (simp add: Walk_stopped)
next
  case True
  then show ?thesis
  proof (induction n arbitrary: st)
    case (Ident p nm)
    with visitExpr_calls [of E f ip "Ident p nm" False st] show ?case
      by (simp add: Walk_Ident)
  next
    case (SelectorExpr x p nm)
    have 1: "\<exists>xs. calls (Walk E f ip x st) = calls st @ xs"
      using SelectorExpr by simp
    from visitExpr_calls [of E f ip "SelectorExpr x p nm" False "Walk E f ip x st"] 1
    show ?case
      using SelectorExpr.prems by (auto simp add: Walk_Selector)
  next
    case (StarExpr x)
    then show ?case by (simp add: Walk_Star)
  next
    case (KeyValueExpr k v)
    then show ?case by (simp add: Walk_KeyValue)
  next
    case (ImportSpec name path)
    show ?case
    proof (cases name)
      case None
      then show ?thesis by (simp add: Walk_ImportSpec_plain)
    next
      case (Some a)
      obtain p nm where a: "a = (p, nm)" by (cases a)
      show ?thesis
      proof (cases "nm = ''.''")
        case True
        with Some a show ?thesis by (simp add: Walk_ImportSpec_dot)
      next
        case False
        with visitExpr_calls [of E f ip "Ident p nm" False st] Some a ImportSpec show ?thesis
          by (simp add: Walk_ImportSpec_named Walk_Ident)
      qed
    qed
  next
    case (FuncType ps rs)
    have any: "\<exists>xs. calls (Walk E f ip c st) = calls st @ xs" if "c \<in> set ps \<union> set rs" for c st
      using that FuncType.IH by (cases "ok st") (auto simp add: Walk_stopped)
    have 1: "\<exists>xs. calls (WalkList E f ip ps st) = calls st @ xs"
      using any by (intro WalkList_calls) simp
    have 2: "\<exists>xs. calls (WalkList E f ip rs (WalkList E f ip ps st))
                 = calls (WalkList E f ip ps st) @ xs"
      using any by (intro WalkList_calls) simp
    from 1 2 FuncType.prems show ?case by (auto simp add: Walk_FuncType)
  next
    case (FuncDecl recv p nm ty body)
    define st' where "st' = (if recv = None \<and> nm = ''init''
                then st\<lparr>Obj := (Obj st)(p \<mapsto> (Fun, ''init''))\<rparr> else st)"
    define st1 where "st1 = (case recv of None \<Rightarrow> st' | Some r \<Rightarrow> Walk E f ip r st')"
    define st2 where "st2 = Walk E f ip (Ident p nm) st1"
    define st3 where "st3 = Walk E f ip ty st2"
    define st4 where "st4 = (case body of None \<Rightarrow> st3 | Some b \<Rightarrow> Walk E f ip b st3)"
    have 0: "calls st' = calls st" by (simp add: st'_def)
    have 1: "\<exists>xs. calls st1 = calls st' @ xs"
      using FuncDecl.IH(1) [of _ st']
      by (cases recv; cases "ok st'") (auto simp add: st1_def Walk_stopped)
    have 2: "\<exists>xs. calls st2 = calls st1 @ xs"
      using visitExpr_calls [of E f ip "Ident p nm" False st1]
      by (cases "ok st1") (auto simp add: st2_def Walk_stopped Walk_Ident)
    have 3: "\<exists>xs. calls st3 = calls st2 @ xs"
      using FuncDecl.IH(2) [of st2] by (cases "ok st2") (auto simp add: st3_def Walk_stopped)
    have 4: "\<exists>xs. calls st4 = calls st3 @ xs"
      using FuncDecl.IH(3) [of _ st3]
      by (cases body; cases "ok st3") (auto simp add: st4_def Walk_stopped)
    have w: "Walk E f ip (FuncDecl recv p nm ty body) st = st4"
      using FuncDecl.prems
      by (simp only: Walk_FuncDecl Let_def st4_def st3_def st2_def st1_def st'_def)
    from 0 1 2 3 4 show ?case
      unfolding w by auto
  next
    case (File decls)
    have "\<exists>xs. calls (Walk E f ip c st) = calls st @ xs" if "c \<in> set decls" for c st
      using that File.IH by (cases "ok st") (auto simp add: Walk_stopped)
    then have "\<exists>xs. calls (WalkList E f ip decls st) = calls st @ xs"
      by (intro WalkList_calls) simp
    with File.prems show ?case by (simp add: Walk_File)
  next
    case (Other cs)
    have "\<exists>xs. calls (Walk E f ip c st) = calls st @ xs" if "c \<in> set cs" for c st
      using that Other.IH by (cases "ok st") (auto simp add: Walk_stopped)
    then have "\<exists>xs. calls (WalkList E f ip cs st) = calls st @ xs"
      by (intro WalkList_calls) simp
    with Other.prems show ?case by (simp add: Walk_Other)
  qed
qed

lemma WalkList_calls_all: "\<exists>xs. calls (WalkList E f ip cs st) = calls st @ xs"
  by (intro WalkList_calls Walk_calls)

lemma Walk_import_decl:
  "Walk E f ip (Other (s1 @ ImportSpec (Some (p, ''.'')) path # s2)) st
     = (WalkList E f ip s1 st)\<lparr>ok := False\<rparr>"
proof (cases "ok st")
  case False
  then show ?thesis by (simp add: Walk_stopped WalkList_stopped)
next
  case True
  then show ?thesis
    by (simp add: Walk_Other WalkList_append Walk_ImportSpec_dot WalkList_stopped)
qed

text \<open>
  C3. In a file whose declarations are \<open>pre\<close>, then a declaration with the specs \<open>s1\<close>,
  a dot import and \<open>s2\<close>, then \<open>post\<close>: the traversal ends in the state reached after
  \<open>pre\<close> and \<open>s1\<close>, with \<^verbatim>\<open>ok\<close> false, so nothing of \<open>s2\<close> and \<open>post\<close> is
  reported; the calls made before remain, as a traversal only appends calls; once
  \<^verbatim>\<open>ok\<close> is false a walk of any node changes nothing; and the next file \<open>g\<close> is
  traversed as it would be had the first file ended after \<open>s1\<close>.
\<close>

theorem dot_import_aborts_file:
  "visitExprs E f ip (File (pre @ Other (s1 @ ImportSpec (Some (p, ''.'')) path # s2) # post)) st
     = (WalkList E f ip (pre @ s1) (st\<lparr>ok := True\<rparr>))\<lparr>ok := False\<rparr>
   \<and> (\<exists>xs. calls (WalkList E f ip (pre @ s1) (st\<lparr>ok := True\<rparr>)) = calls st @ xs)
   \<and> Walk E f ip n (st\<lparr>ok := False\<rparr>) = st\<lparr>ok := False\<rparr>
   \<and> visitExprs E f ip g
        (visitExprs E f ip
           (File (pre @ Other (s1 @ ImportSpec (Some (p, ''.'')) path # s2) # post)) st)
     = visitExprs E f ip g (WalkList E f ip (pre @ s1) (st\<lparr>ok := True\<rparr>))"
proof -
  have 1: "visitExprs E f ip
      (File (pre @ Other (s1 @ ImportSpec (Some (p, ''.'')) path # s2) # post)) st
     = (WalkList E f ip (pre @ s1) (st\<lparr>ok := True\<rparr>))\<lparr>ok := False\<rparr>"
    by (simp add: visitExprs_def Walk_File WalkList_append Walk_import_decl WalkList_stopped)
  have 2: "\<exists>xs. calls (WalkList E f ip (pre @ s1) (st\<lparr>ok := True\<rparr>)) = calls st @ xs"
    using WalkList_calls_all [of E f ip "pre @ s1" "st\<lparr>ok := True\<rparr>"] by simp
  have 3: "Walk E f ip n (st\<lparr>ok := False\<rparr>) = st\<lparr>ok := False\<rparr>"
    by (simp add: Walk_stopped)
  show ?thesis
    unfolding 1 using 2 3 by (simp add: visitExprs_def)
qed

text \<open>
  C8, as amended. In a traversal that is not aborted (no dot import, and a callback
  that returns true, as \<^verbatim>\<open>visitPrint\<close> does), an \<^verbatim>\<open>Obj\<close> is assigned at exactly the
  names of the function declarations that have no receiver and are named \<^verbatim>\<open>init\<close>,
  whatever their parameters; every other \<^verbatim>\<open>Obj\<close> is left as it was.
\<close>

theorem init_binding_synthesis:
  assumes "\<forall>i. f i" and "\<not> dotImport pkg"
  shows "Obj (visitExprs E f ip pkg st) =
           (\<lambda>q. if q \<in> initDecls pkg then Some (Fun, ''init'') else Obj st q)
       \<and> initDecls (FuncDecl recv p nm ty body) =
           (if recv = None \<and> nm = ''init'' then {p} else {})
           \<union> (case recv of None \<Rightarrow> {} | Some r \<Rightarrow> initDecls r) \<union> initDecls ty
           \<union> (case body of None \<Rightarrow> {} | Some b \<Rightarrow> initDecls b)"
proof -
  have "ok (st\<lparr>ok := True\<rparr>)" by simp
  from Walk_inits [OF assms(1) this assms(2), of E ip]
  have "Obj (visitExprs E f ip pkg st) =
          (\<lambda>q. if q \<in> initDecls pkg then Some (Fun, ''init'')
               else Obj (st\<lparr>ok := True\<rparr>) q)"
    by (simp only: visitExprs_def)
  moreover have "Obj (st\<lparr>ok := True\<rparr>) = Obj st" by simp
  ultimately show ?thesis by (simp cong: if_cong)
qed

theorem init_binding_synthesis_witness:
  "Obj (visitExprs exampleEnv (\<lambda>i. True) ''examples/foo''
         (File [FuncDecl None 7 ''init'' (FuncType [] []) None,
                FuncDecl (Some (Other [])) 9 ''init'' (FuncType [] []) None,
                FuncDecl None 11 ''main'' (FuncType [] []) None]) emptyState) 7
     = Some (Fun, ''init'')
   \<and> Obj (visitExprs exampleEnv (\<lambda>i. True) ''examples/foo''
         (File [FuncDecl None 7 ''init'' (FuncType [] []) None,
                FuncDecl (Some (Other [])) 9 ''init'' (FuncType [] []) None,
                FuncDecl None 11 ''main'' (FuncType [] []) None]) emptyState) 9
     = None
   \<and> Obj (visitExprs exampleEnv (\<lambda>i. True) ''examples/foo''
         (File [FuncDecl None 7 ''init'' (FuncType [] []) None,
                FuncDecl (Some (Other [])) 9 ''init'' (FuncType [] []) None,
                FuncDecl None 11 ''main'' (FuncType [] []) None]) emptyState) 11
     = None"
proof -
  have a: "\<forall>i :: symInfo. (\<lambda>i. True) i" by simp
  have b: "\<not> dotImport (File [FuncDecl None 7 ''init'' (FuncType [] []) None,
                FuncDecl (Some (Other [])) 9 ''init'' (FuncType [] []) None,
                FuncDecl None 11 ''main'' (FuncType [] []) None])" by simp
  from init_binding_synthesis [OF a b, of exampleEnv "''examples/foo''" emptyState,
      THEN conjunct1]
  show ?thesis by (simp add: emptyState_def)
qed

text \<open>
  C8 as stated fails: a function \<^verbatim>\<open>init\<close> without receiver gets the object although
  it has a parameter, and a method \<^verbatim>\<open>init\<close> without parameters gets none.
\<close>

theorem init_binding_with_parameters:
  "Obj (visitExprs exampleEnv (\<lambda>i. True) ''examples/foo''
         (File [FuncDecl None 7 ''init'' (FuncType [Other [Ident 12 ''x'', Ident 14 ''int'']] [])
                  None]) emptyState) 7
     = Some (Fun, ''init'')
   \<and> Obj (visitExprs exampleEnv (\<lambda>i. True) ''examples/foo''
         (File [FuncDecl (Some (Other [])) 7 ''init'' (FuncType [] []) None]) emptyState) 7
     = None"
  by code_simp

subsection \<open>Printing an occurrence\<close>

lemma mask_test:
  "(push_bit (ObjKind_uint k) 1 AND (m :: 64 word) = 0) \<longleftrightarrow> \<not> bit m (ObjKind_uint k)"
proof
  assume "push_bit (ObjKind_uint k) 1 AND m = 0"
  then have "\<not> bit (push_bit (ObjKind_uint k) 1 AND m) (ObjKind_uint k)"
    by (simp del: push_bit_of_1)
  then show "\<not> bit m (ObjKind_uint k)"
    by (simp only: bit_and_iff bit_kind) simp
next
  assume a: "\<not> bit m (ObjKind_uint k)"
  show "push_bit (ObjKind_uint k) 1 AND m = 0"
  proof (rule bit_eqI)
    fix n
    have "bit (push_bit (ObjKind_uint k) 1 AND m) n \<longleftrightarrow> n = ObjKind_uint k \<and> bit m n"
      by (simp only: bit_and_iff bit_kind)
    with a show "bit (push_bit (ObjKind_uint k) 1 AND m) n = bit (0 :: 64 word) n"
      by auto
  qed
qed

lemma visitPrint_line:
  assumes "visitPrint E os info kindMask = Returns (r, Some line)"
  shows "bit kindMask (ObjKind_uint (obj_Kind (info_referObj info)))"
    and "info_universe info \<longrightarrow> all E"
    and "positionToImportPath E (position E (info_pos info)) = Returns (l_exprPkg line)"
    and "info_universe info \<longrightarrow> l_referPkg line = ''universe''"
    and "\<not> info_universe info \<longrightarrow>
           positionToImportPath E (position E (info_referPos info)) = Returns (l_referPkg line)"
    and "exprName E os (info_expr info) = Some (l_expr line)"
    and "l_pos line = position E (info_pos info)"
    and "l_local line = info_local info"
    and "l_kind line = obj_Kind (info_referObj info)"
    and "l_definition line = (info_referPos info = info_pos info)"
    and "l_exprType line = (if printType E then pretty E (t_Node (info_exprType info)) else [])"
    and "r"
  using assms
  by (auto simp add: visitPrint_def Let_def mask_test
      simp del: push_bit_of_1
      split: if_splits outcome.splits option.splits)

lemma visitPrint_dropped:
  "\<not> bit kindMask (ObjKind_uint (obj_Kind (info_referObj info)))
     \<or> (info_universe info \<and> \<not> all E) \<Longrightarrow>
   visitPrint E os info kindMask = Returns (True, None)"
  by (auto simp add: visitPrint_def mask_test simp del: push_bit_of_1)

lemma visitPrint_prints:
  assumes "bit kindMask (ObjKind_uint (obj_Kind (info_referObj info)))"
    and "info_universe info \<longrightarrow> all E"
    and "positionToImportPath E (position E (info_pos info)) = Returns exprPkg"
    and "info_universe info \<or>
         positionToImportPath E (position E (info_referPos info)) = Returns referPkg"
    and "exprName E os (info_expr info) = Some name"
  shows "visitPrint E os info kindMask = Returns (True, Some
           \<lparr>l_pos = position E (info_pos info), l_exprPkg = exprPkg,
            l_referPkg = (if info_universe info then ''universe'' else referPkg),
            l_local = info_local info, l_kind = obj_Kind (info_referObj info),
            l_definition = (info_referPos info = info_pos info), l_expr = name,
            l_exprType = (if printType E then pretty E (t_Node (info_exprType info))
                          else [])\<rparr>)"
  using assms
  by (auto simp add: visitPrint_def Let_def mask_test simp del: push_bit_of_1)

lemma parseSymLine_line:
  assumes fl: "file \<noteq> []" "CHR '':'' \<notin> set file"
    and ln: "0 \<le> a" "a \<le> 2 ^ 63 - 1"
    and col: "0 \<le> b" "b \<le> 2 ^ 63 - 1"
    and ws1: "ws1 \<noteq> []" "set ws1 \<subseteq> set perl_space"
    and p1: "p1 \<noteq> []" "set p1 \<inter> set perl_space = {}"
    and ws2: "ws2 \<noteq> []" "set ws2 \<subseteq> set perl_space" "hd ws2 = CHR '' ''"
    and p2: "p2 \<noteq> []" "set p2 \<inter> set perl_space = {}"
    and ws3: "ws3 \<noteq> []" "set ws3 \<subseteq> set perl_space"
    and kd: "k \<in> {Con, Typ, Var, Fun}"
    and ws4: "ws4 \<noteq> []" "set ws4 \<subseteq> set perl_space"
    and ty: "ty = [] \<or> (hd ty \<notin> set perl_space \<and> CHR 0x0A \<notin> set ty)"
  shows "parseSymLine
           (file @ '':'' @ itoa a @ '':'' @ itoa b @ '':'' @ ws1 @ p1 @ ws2 @ p2 @ ws3
               @ (if loc then ''local'' else []) @ ObjKind_String k
               @ (if d then ''+'' else []) @ (if ty = [] then [] else ws4 @ ty))
         = Returns (Inr
             \<lparr>l_pos = \<lparr>Filename = file, Offset = 0, Line = a, Column = b\<rparr>,
              l_exprPkg = p1, l_referPkg = p2, l_local = loc, l_kind = k,
              l_definition = d, l_expr = [], l_exprType = ty\<rparr>)"
proof -
  have ia: "itoa a = digits (nat a)" and ib: "itoa b = digits (nat b)"
    using ln(1) col(1) by (simp_all add: itoa_def)
  note kt = kind_token [OF kd]
  note m = linePat_match [OF fl digits_ne digits_decimal digits_ne digits_decimal
          ws1 p1 ws2 p2 ws3 kt [THEN conjunct1]
          kt [THEN conjunct2, THEN conjunct1]
          kt [THEN conjunct2, THEN conjunct2, THEN conjunct1]
          ws4 ty, of "nat a" "nat b" loc d]
  have a1: "atoi (digits (nat a)) = Returns a"
    using atoi_itoa [OF ln] by (simp only: ia)
  have a2: "atoi (digits (nat b)) = Returns b"
    using atoi_itoa [OF col] by (simp only: ib)
  have k: "objKinds (ObjKind_String k) = Some k"
    using kt by simp
  show ?thesis
    unfolding ia ib parseSymLine_def m
    by (simp add: a1 a2 k)
qed

text \<open>
  C5. \<^verbatim>\<open>visitPrint\<close> prints no line when the bit of the object's kind is not in the
  mask, or when the occurrence is of the universe and \<^verbatim>\<open>-a\<close> is not set. With
  \<^verbatim>\<open>-a\<close> set, an identifier of the universe whose kind is in the mask, in a file
  that maps to a package, is printed with the referenced package \<^verbatim>\<open>universe\<close>; every
  printed line of a universe occurrence has it. \<^verbatim>\<open>visitExpr\<close> sets the universe flag
  exactly when the universe scope has this very object under its name.
\<close>

theorem visitPrint_filter:
  "(\<not> bit kindMask (ObjKind_uint (obj_Kind (info_referObj info))) \<longrightarrow>
      visitPrint E os info kindMask = Returns (True, None))
   \<and> (info_universe info \<and> \<not> all E \<longrightarrow>
      visitPrint E os info kindMask = Returns (True, None))
   \<and> (all E \<and> info_universe info
        \<and> bit kindMask (ObjKind_uint (obj_Kind (info_referObj info)))
        \<and> info_expr info = Ident p nm
        \<and> positionToImportPath E (position E (info_pos info)) = Returns exprPkg \<longrightarrow>
      (\<exists>line. visitPrint E os info kindMask = Returns (True, Some line)
         \<and> l_referPkg line = ''universe''
         \<and> symLine_String line =
             Position_String (position E (info_pos info)) @ '': '' @ exprPkg
             @ '' '' @ ''universe'' @ '' '' @ nm @ '' ''
             @ (if info_local info then ''local'' else [])
             @ ObjKind_String (obj_Kind (info_referObj info))
             @ (if l_definition line then ''+'' else [])
             @ (if l_exprType line = [] then [] else '' '' @ l_exprType line)))
   \<and> (visitPrint E os info kindMask = Returns (r, Some line) \<and> info_universe info \<longrightarrow>
      all E \<and> l_referPkg line = ''universe'')
   \<and> (ExprType E (Obj st) e = (Some ob, t) \<longrightarrow>
      (\<exists>i. calls (snd (visitExpr E f ip e loc st)) = calls st @ [i]
         \<and> info_referObj i = ob
         \<and> info_universe i = (Universe_Lookup E (obj_Name ob) = Some ob)))"
proof -
  have 1: "\<not> bit kindMask (ObjKind_uint (obj_Kind (info_referObj info))) \<longrightarrow>
      visitPrint E os info kindMask = Returns (True, None)"
    by (simp add: visitPrint_dropped)
  have 2: "info_universe info \<and> \<not> all E \<longrightarrow>
      visitPrint E os info kindMask = Returns (True, None)"
    by (simp add: visitPrint_dropped)
  have e3: "\<exists>line. visitPrint E os info kindMask = Returns (True, Some line)
         \<and> l_referPkg line = ''universe''
         \<and> symLine_String line =
             Position_String (position E (info_pos info)) @ '': '' @ exprPkg
             @ '' '' @ ''universe'' @ '' '' @ nm @ '' ''
             @ (if info_local info then ''local'' else [])
             @ ObjKind_String (obj_Kind (info_referObj info))
             @ (if l_definition line then ''+'' else [])
             @ (if l_exprType line = [] then [] else '' '' @ l_exprType line)"
    if h: "all E \<and> info_universe info
        \<and> bit kindMask (ObjKind_uint (obj_Kind (info_referObj info)))
        \<and> info_expr info = Ident p nm
        \<and> positionToImportPath E (position E (info_pos info)) = Returns exprPkg"
  proof -
    from h have n: "exprName E os (info_expr info) = Some nm"
      by (simp add: exprName_def)
    from h have "visitPrint E os info kindMask = Returns (True, Some
           \<lparr>l_pos = position E (info_pos info), l_exprPkg = exprPkg,
            l_referPkg = (if info_universe info then ''universe'' else []),
            l_local = info_local info, l_kind = obj_Kind (info_referObj info),
            l_definition = (info_referPos info = info_pos info), l_expr = nm,
            l_exprType = (if printType E then pretty E (t_Node (info_exprType info))
                          else [])\<rparr>)"
      using n by (intro visitPrint_prints) simp_all
    with h show ?thesis
      by (simp add: symLine_String_eq)
  qed
  have 3: "all E \<and> info_universe info
        \<and> bit kindMask (ObjKind_uint (obj_Kind (info_referObj info)))
        \<and> info_expr info = Ident p nm
        \<and> positionToImportPath E (position E (info_pos info)) = Returns exprPkg \<longrightarrow>
      (\<exists>line. visitPrint E os info kindMask = Returns (True, Some line)
         \<and> l_referPkg line = ''universe''
         \<and> symLine_String line =
             Position_String (position E (info_pos info)) @ '': '' @ exprPkg
             @ '' '' @ ''universe'' @ '' '' @ nm @ '' ''
             @ (if info_local info then ''local'' else [])
             @ ObjKind_String (obj_Kind (info_referObj info))
             @ (if l_definition line then ''+'' else [])
             @ (if l_exprType line = [] then [] else '' '' @ l_exprType line))"
    using e3 by (rule impI)
  have 4: "visitPrint E os info kindMask = Returns (r, Some line) \<and> info_universe info \<longrightarrow>
      all E \<and> l_referPkg line = ''universe''"
    using visitPrint_line(2,4) [of E os info kindMask r line] by simp
  have 5: "ExprType E (Obj st) e = (Some ob, t) \<longrightarrow>
      (\<exists>i. calls (snd (visitExpr E f ip e loc st)) = calls st @ [i]
         \<and> info_referObj i = ob
         \<and> info_universe i = (Universe_Lookup E (obj_Name ob) = Some ob))"
    by (simp add: visitExpr_def Let_def)
  show ?thesis
    using 1 2 3 4 5 by (intro conjI) assumption+
qed

theorem visitPrint_filter_witness:
  "visitPrint exampleEnv Map.empty intInfo 32 = Returns (True, None)
   \<and> visitPrint (exampleEnv\<lparr>all := False\<rparr>) Map.empty intInfo 60 = Returns (True, None)
   \<and> (\<exists>line. visitPrint exampleEnv Map.empty intInfo 60 = Returns (True, Some line)
         \<and> l_referPkg line = ''universe''
         \<and> symLine_String line
            = ''src/examples/foo/x.go:1:14: examples/foo universe int type int'')
   \<and> (\<exists>i. calls (snd (visitExpr exampleEnv (\<lambda>i. True) ''examples/foo'' (Ident 14 ''int'')
                       False emptyState)) = [i] \<and> info_universe i)"
proof -
  have h1: "\<not> bit (32 :: 64 word) (ObjKind_uint (obj_Kind (info_referObj intInfo)))"
    by (simp add: intInfo_def)
  have h2: "info_universe intInfo \<and> \<not> all (exampleEnv\<lparr>all := False\<rparr>)"
    by (simp add: intInfo_def)
  have h3: "all exampleEnv \<and> info_universe intInfo
        \<and> bit (60 :: 64 word) (ObjKind_uint (obj_Kind (info_referObj intInfo)))
        \<and> info_expr intInfo = Ident 14 ''int''
        \<and> positionToImportPath exampleEnv (position exampleEnv (info_pos intInfo))
            = Returns ''examples/foo''"
    by (simp add: intInfo_def exampleEnv_def positionToImportPath_def)
  have h5: "ExprType exampleEnv (Obj emptyState) (Ident 14 ''int'')
      = (Some \<lparr>obj_Id = 1, obj_Kind = Typ, obj_Name = ''int''\<rparr>,
         \<lparr>t_Node = Some (Ident 0 ''int''), t_Kind = Typ, t_Pkg = []\<rparr>)"
    by (simp add: exampleEnv_def exampleExprType_def)
  note t = visitPrint_filter
  from t [of 32 intInfo exampleEnv Map.empty, THEN conjunct1] h1
  have c1: "visitPrint exampleEnv Map.empty intInfo 32 = Returns (True, None)"
    by (rule mp)
  from t [of 60 intInfo "exampleEnv\<lparr>all := False\<rparr>" Map.empty,
      THEN conjunct2, THEN conjunct1] h2
  have c2: "visitPrint (exampleEnv\<lparr>all := False\<rparr>) Map.empty intInfo 60 = Returns (True, None)"
    by (rule mp)
  from t [of 60 intInfo exampleEnv Map.empty 14 "''int''" "''examples/foo''",
      THEN conjunct2, THEN conjunct2, THEN conjunct1] h3
  obtain line where c3: "visitPrint exampleEnv Map.empty intInfo 60 = Returns (True, Some line)"
      "l_referPkg line = ''universe''"
      "symLine_String line =
             Position_String (position exampleEnv (info_pos intInfo)) @ '': '' @ ''examples/foo''
             @ '' '' @ ''universe'' @ '' '' @ ''int'' @ '' ''
             @ (if info_local intInfo then ''local'' else [])
             @ ObjKind_String (obj_Kind (info_referObj intInfo))
             @ (if l_definition line then ''+'' else [])
             @ (if l_exprType line = [] then [] else '' '' @ l_exprType line)"
    by blast
  have v: "visitPrint exampleEnv Map.empty intInfo 60 = Returns (True, Some
    \<lparr>l_pos = \<lparr>Filename = ''src/examples/foo/x.go'', Offset = 14, Line = 1, Column = 14\<rparr>,
       l_exprPkg = ''examples/foo'', l_referPkg = ''universe'',
       l_local = False, l_kind = Typ, l_definition = False,
       l_expr = ''int'', l_exprType = ''int''\<rparr>)"
    by code_simp
  from c3(1) v have line: "line = \<lparr>l_pos = \<lparr>Filename = ''src/examples/foo/x.go'', Offset = 14, Line = 1, Column = 14\<rparr>,
       l_exprPkg = ''examples/foo'', l_referPkg = ''universe'',
       l_local = False, l_kind = Typ, l_definition = False,
       l_expr = ''int'', l_exprType = ''int''\<rparr>" by simp
  have s: "symLine_String line
            = ''src/examples/foo/x.go:1:14: examples/foo universe int type int''"
    unfolding line by code_simp
  from t [of _ _ exampleEnv _ _ _ _ _ _ emptyState "Ident 14 ''int''" _ _
     "\<lambda>i. True" "''examples/foo''" False,
      THEN conjunct2, THEN conjunct2, THEN conjunct2, THEN conjunct2] h5
  obtain i where c5: "calls (snd (visitExpr exampleEnv (\<lambda>i. True) ''examples/foo''
        (Ident 14 ''int'') False emptyState)) = calls emptyState @ [i]"
     "info_universe i = (Universe_Lookup exampleEnv
          (obj_Name \<lparr>obj_Id = 1, obj_Kind = Typ, obj_Name = ''int''\<rparr>)
          = Some \<lparr>obj_Id = 1, obj_Kind = Typ, obj_Name = ''int''\<rparr>)"
    by blast
  from c5 have c5': "calls (snd (visitExpr exampleEnv (\<lambda>i. True) ''examples/foo''
        (Ident 14 ''int'') False emptyState)) = [i]" "info_universe i"
    by (simp_all add: emptyState_def exampleEnv_def)
  from c1 c2 c3(1,2) s c5' show ?thesis by blast
qed

text \<open>
  C6. For a printed selector occurrence \<^verbatim>\<open>x.sel\<close>: when the type of the base has the
  kind package, the expression text is \<^verbatim>\<open>sel\<close>; otherwise it is the printed node of
  the base's type, with one leading pointer star taken off by \<^verbatim>\<open>depointer\<close>, then a
  dot and \<^verbatim>\<open>sel\<close>. \<^verbatim>\<open>depointer\<close> takes off one star only and changes no other node.
\<close>

theorem selector_expression_text:
  assumes "info_expr info = SelectorExpr x p sel"
    and "visitPrint E os info kindMask = Returns (r, Some line)"
  shows "l_expr line =
           (if t_Kind (snd (ExprType E os x)) = Pkg then sel
            else pretty E (depointer (t_Node (snd (ExprType E os x)))) @ ''.'' @ sel)
       \<and> depointer (Some (StarExpr y)) = Some y
       \<and> depointer (Some (StarExpr (StarExpr y))) = Some (StarExpr y)
       \<and> ((\<forall>z. t \<noteq> Some (StarExpr z)) \<longrightarrow> depointer t = t)
       \<and> symLine_String line =
           Position_String (l_pos line) @ '': '' @ l_exprPkg line @ '' '' @ l_referPkg line
           @ '' '' @ l_expr line @ '' '' @ (if l_local line then ''local'' else [])
           @ ObjKind_String (l_kind line) @ (if l_definition line then ''+'' else [])
           @ (if l_exprType line = [] then [] else '' '' @ l_exprType line)"
proof -
  from visitPrint_line(6) [OF assms(2)] assms(1)
  have "exprName E os (SelectorExpr x p sel) = Some (l_expr line)"
    by simp
  then have 1: "l_expr line =
           (if t_Kind (snd (ExprType E os x)) = Pkg then sel
            else pretty E (depointer (t_Node (snd (ExprType E os x)))) @ ''.'' @ sel)"
    by (auto simp add: exprName_def Let_def split: if_splits)
  have 2: "(\<forall>z. t \<noteq> Some (StarExpr z)) \<longrightarrow> depointer t = t"
    by (cases t rule: depointer.cases) simp_all
  from 1 2 show ?thesis
    by (simp add: symLine_String_eq)
qed

theorem selector_expression_text_witness:
  "(\<exists>line. visitPrint exampleEnv Map.empty bazInfo 60 = Returns (True, Some line)
       \<and> l_expr line = ''Baz''
       \<and> symLine_String line
          = ''src/examples/foo/x.go:1:25: examples/foo some/bar Baz func func()'')
   \<and> (\<exists>line. visitPrint exampleEnv Map.empty fieldInfo 60 = Returns (True, Some line)
       \<and> l_expr line = ''T.f''
       \<and> symLine_String line
          = ''src/examples/foo/x.go:1:42: examples/foo examples/foo T.f var string'')"
proof -
  have b: "info_expr bazInfo = SelectorExpr (Ident 21 ''bar'') 25 ''Baz''"
    by (simp add: bazInfo_def)
  have vb: "visitPrint exampleEnv Map.empty bazInfo 60 = Returns (True, Some
    \<lparr>l_pos = \<lparr>Filename = ''src/examples/foo/x.go'', Offset = 25, Line = 1, Column = 25\<rparr>,
       l_exprPkg = ''examples/foo'', l_referPkg = ''some/bar'',
       l_local = False, l_kind = Fun, l_definition = False,
       l_expr = ''Baz'', l_exprType = ''func()''\<rparr>)"
    by code_simp
  have xb: "t_Kind (snd (ExprType exampleEnv Map.empty (Ident 21 ''bar''))) = Pkg"
    by (simp add: exampleEnv_def exampleExprType_def)
  from selector_expression_text [OF b vb, THEN conjunct1] xb
  have eb: "l_expr
    \<lparr>l_pos = \<lparr>Filename = ''src/examples/foo/x.go'', Offset = 25, Line = 1, Column = 25\<rparr>,
       l_exprPkg = ''examples/foo'', l_referPkg = ''some/bar'',
       l_local = False, l_kind = Fun, l_definition = False,
       l_expr = ''Baz'', l_exprType = ''func()''\<rparr> = ''Baz''"
    by simp
  have sb: "symLine_String
    \<lparr>l_pos = \<lparr>Filename = ''src/examples/foo/x.go'', Offset = 25, Line = 1, Column = 25\<rparr>,
       l_exprPkg = ''examples/foo'', l_referPkg = ''some/bar'',
       l_local = False, l_kind = Fun, l_definition = False,
       l_expr = ''Baz'', l_exprType = ''func()''\<rparr>
     = ''src/examples/foo/x.go:1:25: examples/foo some/bar Baz func func()''"
    by code_simp
  have f: "info_expr fieldInfo = SelectorExpr (Ident 40 ''t'') 42 ''f''"
    by (simp add: fieldInfo_def)
  have vf: "visitPrint exampleEnv Map.empty fieldInfo 60 = Returns (True, Some
    \<lparr>l_pos = \<lparr>Filename = ''src/examples/foo/x.go'', Offset = 42, Line = 1, Column = 42\<rparr>,
       l_exprPkg = ''examples/foo'', l_referPkg = ''examples/foo'',
       l_local = False, l_kind = Var, l_definition = False,
       l_expr = ''T.f'', l_exprType = ''string''\<rparr>)"
    by code_simp
  have xf: "snd (ExprType exampleEnv Map.empty (Ident 40 ''t''))
      = \<lparr>t_Node = Some (StarExpr (Ident 0 ''T'')), t_Kind = Var, t_Pkg = ''examples/foo''\<rparr>"
    by (simp add: exampleEnv_def exampleExprType_def)
  from selector_expression_text [OF f vf, THEN conjunct1]
  have ef: "l_expr
    \<lparr>l_pos = \<lparr>Filename = ''src/examples/foo/x.go'', Offset = 42, Line = 1, Column = 42\<rparr>,
       l_exprPkg = ''examples/foo'', l_referPkg = ''examples/foo'',
       l_local = False, l_kind = Var, l_definition = False,
       l_expr = ''T.f'', l_exprType = ''string''\<rparr>
     = pretty exampleEnv (depointer (Some (StarExpr (Ident 0 ''T'')))) @ ''.'' @ ''f''"
    unfolding xf by simp
  have sf: "symLine_String
    \<lparr>l_pos = \<lparr>Filename = ''src/examples/foo/x.go'', Offset = 42, Line = 1, Column = 42\<rparr>,
       l_exprPkg = ''examples/foo'', l_referPkg = ''examples/foo'',
       l_local = False, l_kind = Var, l_definition = False,
       l_expr = ''T.f'', l_exprType = ''string''\<rparr>
     = ''src/examples/foo/x.go:1:42: examples/foo examples/foo T.f var string''"
    by code_simp
  from vb eb sb vf ef sf show ?thesis
    by simp
qed

lemma parseSymLine_fields:
  assumes m: "FindStringSubmatch linePat line = Some m"
  shows "(\<exists>rest. line = m ! 1 @ '':'' @ m ! 2 @ '':'' @ m ! 3 @ '':'' @ rest)
       \<and> CHR '':'' \<notin> set (m ! 1)
       \<and> m ! 2 \<noteq> [] \<and> set (m ! 2) \<subseteq> set decimal
       \<and> m ! 3 \<noteq> [] \<and> set (m ! 3) \<subseteq> set decimal
       \<and> m ! 7 \<noteq> line"
proof -
  from FindStringSubmatch_linePat_shape [OF m]
  obtain fl ln col ws1 p1 ws2 p2 ws3 loc kd pl tp ty where
    line: "line = fl @ '':'' @ ln @ '':'' @ col @ '':'' @ ws1 @ p1 @ ws2 @ p2 @ ws3
              @ loc @ kd @ pl @ tp"
    and ms: "m = [line, fl, ln, col, p1, p2, loc, kd, pl, tp, ty]"
    and c: "CHR '':'' \<notin> set fl" "ln \<noteq> []" "set ln \<subseteq> set decimal"
       "col \<noteq> []" "set col \<subseteq> set decimal" "ws1 \<noteq> []" "set ws1 \<subseteq> set perl_space"
       "set kd \<inter> set (perl_space @ ''+'') = {}"
    by blast
  have n: "m ! 1 = fl" "m ! 2 = ln" "m ! 3 = col" "m ! 7 = kd"
    unfolding ms by simp_all
  from c(6) obtain w where w: "w \<in> set ws1"
    by (cases ws1) auto
  with c(7,8) have "w \<notin> set kd"
    by auto
  moreover from w have "w \<in> set line"
    by (subst line) simp
  ultimately have k: "kd \<noteq> line"
    by blast
  have "\<exists>rest. line = fl @ '':'' @ ln @ '':'' @ col @ '':'' @ rest"
    using line by blast
  with c k show ?thesis
    unfolding n by blast
qed

lemma parseSymLine_definition_plus:
  assumes "parseSymLine line = Returns (Inr l)" and "l_definition l"
  shows "CHR ''+'' \<in> set line"
proof -
  from assms(1) obtain m where m: "FindStringSubmatch linePat line = Some m"
    by (auto simp add: parseSymLine_def split: option.splits)
  from FindStringSubmatch_linePat_shape [OF m]
  obtain fl ln col ws1 p1 ws2 p2 ws3 loc kd pl tp ty where
    line: "line = fl @ '':'' @ ln @ '':'' @ col @ '':'' @ ws1 @ p1 @ ws2 @ p2 @ ws3
              @ loc @ kd @ pl @ tp"
    and ms: "m = [line, fl, ln, col, p1, p2, loc, kd, pl, tp, ty]"
    by blast
  have n: "m ! 8 = pl"
    unfolding ms by simp
  from assms m have "m ! 8 = ''+''"
    by (auto simp add: parseSymLine_def atoi_def split: option.splits)
  with n have "pl = ''+''"
    by simp
  then show ?thesis
    by (subst line) simp
qed

text \<open>
  A printed line with an expression text: the pattern splits it at the same places as
  the serializer up to the expression, which the kind group takes whole, so that the
  group of the marker stays empty.
\<close>

lemma token_unique:
  "a @ x = b @ y \<Longrightarrow> x = [] \<or> hd x \<notin> set b \<Longrightarrow> y = [] \<or> hd y \<notin> set a \<Longrightarrow>
   a = b \<and> x = y"
proof (induction a arbitrary: b)
  case Nil
  then show ?case by (cases b) auto
next
  case (Cons c a)
  show ?case
  proof (cases b)
    case Nil
    with Cons.prems show ?thesis by auto
  next
    case (Cons d b')
    with Cons.prems have e: "c = d" "a @ x = b' @ y"
      by simp_all
    from Cons.prems(2) Cons have 1: "x = [] \<or> hd x \<notin> set b'"
      by auto
    from Cons.prems(3) have 2: "y = [] \<or> hd y \<notin> set a"
      by auto
    from Cons.IH [OF e(2) 1 2] e(1) Cons show ?thesis
      by simp
  qed
qed

lemma itoa_no_colon: "CHR '':'' \<notin> set (itoa i)"
proof -
  have "CHR '':'' \<notin> set decimal"
    by (simp add: decimal_def)
  with digits_decimal have "CHR '':'' \<notin> set (digits n)" for n
    by blast
  then show ?thesis
    by (simp add: itoa_def)
qed

lemma parseSymLine_String_definition_lost:
  assumes fl: "CHR '':'' \<notin> set (Filename (l_pos l))"
    and p1: "l_exprPkg l \<noteq> []" "set (l_exprPkg l) \<inter> set perl_space = {}"
    and p2: "l_referPkg l \<noteq> []" "set (l_referPkg l) \<inter> set perl_space = {}"
    and ex: "l_expr l \<noteq> []" "set (l_expr l) \<inter> set (perl_space @ ''+'') = {}"
    and acc: "parseSymLine (symLine_String l) = Returns (Inr l')"
  shows "\<not> l_definition l'"
proof -
  define F where "F = Filename (l_pos l)"
  define L where "L = itoa (Line (l_pos l))"
  define C where "C = itoa (Column (l_pos l))"
  define P where "P = l_exprPkg l"
  define R where "R = l_referPkg l"
  define E where "E = l_expr l"
  define T where "T = (if l_local l then ''local'' else [])
     @ ObjKind_String (l_kind l) @ (if l_definition l then ''+'' else [])
     @ (if l_exprType l = [] then [] else '' '' @ l_exprType l)"
  define line where "line = symLine_String l"
  have S: "line = F @ '':'' @ L @ '':'' @ C @ '':'' @ '' '' @ P @ '' '' @ R @ '' '' @ E
      @ '' '' @ T"
    unfolding line_def F_def L_def C_def P_def R_def E_def T_def
    by (simp add: symLine_String_eq Position_String_def)
  have cF: "CHR '':'' \<notin> set F" and cL: "CHR '':'' \<notin> set L" and cC: "CHR '':'' \<notin> set C"
    using fl by (simp_all add: F_def L_def C_def itoa_no_colon)
  have P: "P \<noteq> []" "set P \<inter> set perl_space = {}"
    and R: "R \<noteq> []" "set R \<inter> set perl_space = {}"
    and E: "E \<noteq> []" "set E \<inter> set (perl_space @ ''+'') = {}"
    using p1 p2 ex by (simp_all add: P_def R_def E_def)
  have sp: "CHR '' '' \<in> set perl_space"
    by (simp add: perl_space_def)
  from acc obtain m where m: "FindStringSubmatch linePat line = Some m"
    by (auto simp add: line_def parseSymLine_def split: option.splits)
  from FindStringSubmatch_linePat_shape [OF m]
  obtain fl ln col ws1 p1 ws2 p2 ws3 loc kd pl tp ty where
    sh: "line = fl @ '':'' @ ln @ '':'' @ col @ '':'' @ ws1 @ p1 @ ws2 @ p2 @ ws3
              @ loc @ kd @ pl @ tp"
    and ms: "m = [line, fl, ln, col, p1, p2, loc, kd, pl, tp, ty]"
    and c: "CHR '':'' \<notin> set fl" "set ln \<subseteq> set decimal" "set col \<subseteq> set decimal"
       "ws1 \<noteq> []" "set ws1 \<subseteq> set perl_space" "p1 \<noteq> []" "CHR '' '' \<notin> set p1"
       "ws2 \<noteq> []" "set ws2 \<subseteq> set perl_space" "p2 \<noteq> []" "set p2 \<inter> set perl_space = {}"
       "ws3 \<noteq> []" "set ws3 \<subseteq> set perl_space"
    and o: "loc = ''local'' \<or> loc = []" "kd \<noteq> []" "set kd \<inter> set (perl_space @ ''+'') = {}"
       "pl = ''+'' \<or> pl = []"
    and t: "tp = [] \<and> ty = [] \<or>
           (\<exists>ws4. tp = ws4 @ ty \<and> ws4 \<noteq> [] \<and> set ws4 \<subseteq> set perl_space
              \<and> ty \<noteq> [] \<and> hd ty \<notin> set perl_space \<and> CHR 0x0A \<notin> set (tl ty))"
    by blast
  have dc: "CHR '':'' \<notin> set decimal"
    by (simp add: decimal_def)
  with c(2,3) have cln: "CHR '':'' \<notin> set ln" and ccol: "CHR '':'' \<notin> set col"
    by blast+
  have e1: "fl @ ('':'' @ ln @ '':'' @ col @ '':'' @ ws1 @ p1 @ ws2 @ p2 @ ws3
              @ loc @ kd @ pl @ tp)
          = F @ ('':'' @ L @ '':'' @ C @ '':'' @ '' '' @ P @ '' '' @ R @ '' '' @ E @ '' '' @ T)"
    using sh S by simp
  have "fl = F \<and> '':'' @ ln @ '':'' @ col @ '':'' @ ws1 @ p1 @ ws2 @ p2 @ ws3
              @ loc @ kd @ pl @ tp
          = '':'' @ L @ '':'' @ C @ '':'' @ '' '' @ P @ '' '' @ R @ '' '' @ E @ '' '' @ T"
    using cF c(1) by (intro token_unique [OF e1]) simp_all
  then have e2: "ln @ ('':'' @ col @ '':'' @ ws1 @ p1 @ ws2 @ p2 @ ws3 @ loc @ kd @ pl @ tp)
          = L @ ('':'' @ C @ '':'' @ '' '' @ P @ '' '' @ R @ '' '' @ E @ '' '' @ T)"
    by simp
  have "ln = L \<and> '':'' @ col @ '':'' @ ws1 @ p1 @ ws2 @ p2 @ ws3 @ loc @ kd @ pl @ tp
          = '':'' @ C @ '':'' @ '' '' @ P @ '' '' @ R @ '' '' @ E @ '' '' @ T"
    using cL cln by (intro token_unique [OF e2]) simp_all
  then have e3: "col @ ('':'' @ ws1 @ p1 @ ws2 @ p2 @ ws3 @ loc @ kd @ pl @ tp)
          = C @ ('':'' @ '' '' @ P @ '' '' @ R @ '' '' @ E @ '' '' @ T)"
    by simp
  have "col = C \<and> '':'' @ ws1 @ p1 @ ws2 @ p2 @ ws3 @ loc @ kd @ pl @ tp
          = '':'' @ '' '' @ P @ '' '' @ R @ '' '' @ E @ '' '' @ T"
    using cC ccol by (intro token_unique [OF e3]) simp_all
  then have e4: "ws1 @ (p1 @ ws2 @ p2 @ ws3 @ loc @ kd @ pl @ tp)
          = '' '' @ (P @ '' '' @ R @ '' '' @ E @ '' '' @ T)"
    by simp
  have nP: "hd P \<notin> set perl_space"
    using hd_in_set [OF P(1)] P(2) by blast
  have nR: "hd R \<notin> set perl_space"
    using hd_in_set [OF R(1)] R(2) by blast
  have "set E \<inter> set perl_space = {}"
    using E(2) by auto
  with hd_in_set [OF E(1)] have nE: "hd E \<notin> set perl_space"
    by blast
  have np1: "hd p1 \<noteq> CHR '' ''"
    using hd_in_set [OF c(6)] c(7) by metis
  have "hd p2 \<notin> set perl_space"
    using hd_in_set [OF c(10)] c(11) by blast
  with sp have np2: "hd p2 \<noteq> CHR '' ''"
    by auto
  have iw2: "hd ws2 \<in> set perl_space"
    using hd_in_set [OF c(8)] c(9) by blast
  have iw3: "hd ws3 \<in> set perl_space"
    using hd_in_set [OF c(12)] c(13) by blast
  have a4x: "p1 @ ws2 @ p2 @ ws3 @ loc @ kd @ pl @ tp = []
      \<or> hd (p1 @ ws2 @ p2 @ ws3 @ loc @ kd @ pl @ tp) \<notin> set '' ''"
    using np1 c(6) by simp
  have a4y: "P @ '' '' @ R @ '' '' @ E @ '' '' @ T = []
      \<or> hd (P @ '' '' @ R @ '' '' @ E @ '' '' @ T) \<notin> set ws1"
    using nP P(1) c(5) by auto
  from token_unique [OF e4 a4x a4y]
  have e5: "p1 @ (ws2 @ p2 @ ws3 @ loc @ kd @ pl @ tp)
          = P @ ('' '' @ R @ '' '' @ E @ '' '' @ T)"
    by simp
  have a5x: "ws2 @ p2 @ ws3 @ loc @ kd @ pl @ tp = []
      \<or> hd (ws2 @ p2 @ ws3 @ loc @ kd @ pl @ tp) \<notin> set P"
    using iw2 c(8) P(2) by auto
  have a5y: "'' '' @ R @ '' '' @ E @ '' '' @ T = []
      \<or> hd ('' '' @ R @ '' '' @ E @ '' '' @ T) \<notin> set p1"
    using c(7) by simp
  from token_unique [OF e5 a5x a5y]
  have e6: "ws2 @ (p2 @ ws3 @ loc @ kd @ pl @ tp) = '' '' @ (R @ '' '' @ E @ '' '' @ T)"
    by simp
  have a6x: "p2 @ ws3 @ loc @ kd @ pl @ tp = []
      \<or> hd (p2 @ ws3 @ loc @ kd @ pl @ tp) \<notin> set '' ''"
    using np2 c(10) by simp
  have a6y: "R @ '' '' @ E @ '' '' @ T = [] \<or> hd (R @ '' '' @ E @ '' '' @ T) \<notin> set ws2"
    using nR R(1) c(9) by auto
  from token_unique [OF e6 a6x a6y]
  have e7: "p2 @ (ws3 @ loc @ kd @ pl @ tp) = R @ ('' '' @ E @ '' '' @ T)"
    by simp
  have a7x: "ws3 @ loc @ kd @ pl @ tp = [] \<or> hd (ws3 @ loc @ kd @ pl @ tp) \<notin> set R"
    using iw3 c(12) R(2) by auto
  have a7y: "'' '' @ E @ '' '' @ T = [] \<or> hd ('' '' @ E @ '' '' @ T) \<notin> set p2"
    using c(11) sp by auto
  from token_unique [OF e7 a7x a7y]
  have e8: "ws3 @ ((loc @ kd) @ pl @ tp) = '' '' @ (E @ '' '' @ T)"
    by simp
  have k: "loc @ kd \<noteq> []" "set (loc @ kd) \<inter> set (perl_space @ ''+'') = {}"
    using o(1,2,3) by (auto simp add: perl_space_def)
  have nk: "hd (loc @ kd) \<noteq> CHR '' ''"
    using hd_in_set [OF k(1)] k(2) sp by auto
  have a8x: "(loc @ kd) @ pl @ tp = [] \<or> hd ((loc @ kd) @ pl @ tp) \<notin> set '' ''"
    using nk k(1) by (simp del: append_assoc)
  have a8y: "E @ '' '' @ T = [] \<or> hd (E @ '' '' @ T) \<notin> set ws3"
    using nE E(1) c(13) by auto
  from token_unique [OF e8 a8x a8y]
  have e9: "(loc @ kd) @ (pl @ tp) = E @ ('' '' @ T)"
    by simp
  have a9x: "pl @ tp = [] \<or> hd (pl @ tp) \<notin> set E"
  proof (cases "pl = ''+''")
    case True
    with E(2) show ?thesis by auto
  next
    case False
    with o(4) have pl: "pl = []" by simp
    show ?thesis
    proof (cases "tp = []")
      case True
      with pl show ?thesis by simp
    next
      case False
      with t obtain ws4 where "tp = ws4 @ ty" "ws4 \<noteq> []" "set ws4 \<subseteq> set perl_space"
        by blast
      then have "hd tp \<in> set perl_space"
        by (cases ws4) auto
      with E(2) pl show ?thesis by auto
    qed
  qed
  have a9y: "'' '' @ T = [] \<or> hd ('' '' @ T) \<notin> set (loc @ kd)"
    using k(2) sp by auto
  from token_unique [OF e9 a9x a9y] have "pl @ tp = '' '' @ T"
    by simp
  then have "pl \<noteq> ''+''"
    by auto
  moreover have "m ! 8 = pl"
    unfolding ms by simp
  moreover from acc m have "l_definition l' = (m ! 8 = ''+'')"
    by (auto simp add: line_def parseSymLine_def atoi_def split: option.splits outcome.splits)
  ultimately show ?thesis
    by simp
qed

text \<open>
  C7. The marker \<^verbatim>\<open>+\<close> is not read back from a printed line. \<^verbatim>\<open>visitPrint\<close> makes
  the name of the function \<^verbatim>\<open>use\<close> in its own declaration a definition, and
  \<^verbatim>\<open>symLine.String\<close> writes \<^verbatim>\<open>+\<close> after the kind token; \<^verbatim>\<open>parseSymLine\<close> rejects
  this very line, because the pattern takes the expression text for the kind. A line
  in which a kind token stands in the place of the expression is accepted, and its
  flag is false although \<^verbatim>\<open>+\<close> follows the kind token of the line.
\<close>

theorem definition_marker_not_read_back:
  "visitPrint exampleEnv Map.empty useInfo 60 = Returns (True, Some
     \<lparr>l_pos = \<lparr>Filename = ''src/examples/foo/x.go'', Offset = 7, Line = 1, Column = 7\<rparr>,
      l_exprPkg = ''examples/foo'', l_referPkg = ''examples/foo'',
      l_local = False, l_kind = Fun, l_definition = True,
      l_expr = ''use'', l_exprType = ''func()''\<rparr>)
   \<and> symLine_String
     \<lparr>l_pos = \<lparr>Filename = ''src/examples/foo/x.go'', Offset = 7, Line = 1, Column = 7\<rparr>,
      l_exprPkg = ''examples/foo'', l_referPkg = ''examples/foo'',
      l_local = False, l_kind = Fun, l_definition = True,
      l_expr = ''use'', l_exprType = ''func()''\<rparr>
     = ''src/examples/foo/x.go:1:7: examples/foo examples/foo use func+ func()''
   \<and> parseSymLine ''src/examples/foo/x.go:1:7: examples/foo examples/foo use func+ func()''
     = Returns (Inl (InvalidKind ''use''))
   \<and> parseSymLine ''f.go:4:1: p q const func+ func()''
     = Returns (Inr
     \<lparr>l_pos = \<lparr>Filename = ''f.go'', Offset = 0, Line = 4, Column = 1\<rparr>,
      l_exprPkg = ''p'', l_referPkg = ''q'', l_local = False, l_kind = Con,
      l_definition = False, l_expr = [], l_exprType = ''func+ func()''\<rparr>)"
  by code_simp

text \<open>
  C9, as amended. \<^verbatim>\<open>parseSymLine\<close> answers a line with the error "invalid line", which
  carries the whole line, exactly when \<^verbatim>\<open>linePat\<close> does not match it. For a line that
  the pattern matches, with the texts \<open>m\<close> of its groups: the call panics, with
  "bad number", exactly when the line number or the column is refused by
  \<^verbatim>\<open>strconv.Atoi\<close>; it answers with the error "invalid kind", which carries the kind
  field and nothing else, exactly when both numbers are read and the kind field is none
  of \<^verbatim>\<open>const\<close>, \<^verbatim>\<open>type\<close>, \<^verbatim>\<open>var\<close> and \<^verbatim>\<open>func\<close>; and the line is accepted exactly
  when both numbers are read and the kind field is one of the four, and then the
  numbers and the kind of the result are those of the fields. There is no other
  outcome. The two numbers are the second and the third field between colons at the
  start of the line, digit strings that are not empty, so that a number is refused
  exactly when it is beyond the range of \<^verbatim>\<open>int\<close>; and the kind field is never the
  whole line.
\<close>

theorem parseSymLine_outcomes:
  "(parseSymLine line = Returns (Inl (InvalidLine t))
      \<longleftrightarrow> t = line \<and> FindStringSubmatch linePat line = None)
   \<and> (parseSymLine line = Panic msg
      \<longleftrightarrow> msg = ''bad number''
          \<and> (\<exists>m. FindStringSubmatch linePat line = Some m
                 \<and> (Atoi (m ! 2) = None \<or> Atoi (m ! 3) = None)))
   \<and> (parseSymLine line = Returns (Inl (InvalidKind t))
      \<longleftrightarrow> (\<exists>m. FindStringSubmatch linePat line = Some m
                 \<and> Atoi (m ! 2) \<noteq> None \<and> Atoi (m ! 3) \<noteq> None
                 \<and> t = m ! 7 \<and> t \<notin> {''const'', ''type'', ''var'', ''func''}))
   \<and> ((\<exists>l. parseSymLine line = Returns (Inr l))
      \<longleftrightarrow> (\<exists>m. FindStringSubmatch linePat line = Some m
                 \<and> Atoi (m ! 2) \<noteq> None \<and> Atoi (m ! 3) \<noteq> None
                 \<and> m ! 7 \<in> {''const'', ''type'', ''var'', ''func''}))
   \<and> (parseSymLine line = Returns (Inr l) \<longrightarrow>
      (\<exists>m. FindStringSubmatch linePat line = Some m
         \<and> Atoi (m ! 2) = Some (Line (l_pos l)) \<and> Atoi (m ! 3) = Some (Column (l_pos l))
         \<and> objKinds (m ! 7) = Some (l_kind l)))
   \<and> parseSymLine line \<noteq> Returns (Inl (UnknownTypeKind t))
   \<and> (FindStringSubmatch linePat line = Some m \<longrightarrow>
        (\<exists>rest. line = m ! 1 @ '':'' @ m ! 2 @ '':'' @ m ! 3 @ '':'' @ rest)
        \<and> CHR '':'' \<notin> set (m ! 1)
        \<and> m ! 2 \<noteq> [] \<and> set (m ! 2) \<subseteq> set decimal
        \<and> m ! 3 \<noteq> [] \<and> set (m ! 3) \<subseteq> set decimal
        \<and> (Atoi (m ! 2) = None
             \<longleftrightarrow> 2 ^ 63 - 1 < foldl (\<lambda>a c. 10 * a + digit_val c) 0 (m ! 2))
        \<and> (Atoi (m ! 3) = None
             \<longleftrightarrow> 2 ^ 63 - 1 < foldl (\<lambda>a c. 10 * a + digit_val c) 0 (m ! 3))
        \<and> m ! 7 \<noteq> line)"
proof -
  have k: "objKinds s = None \<longleftrightarrow> s \<notin> {''const'', ''type'', ''var'', ''func''}" for s
    using objKinds_token [of s] by blast
  have 1: "parseSymLine line = Returns (Inl (InvalidLine t))
      \<longleftrightarrow> t = line \<and> FindStringSubmatch linePat line = None"
    by (auto simp add: parseSymLine_def atoi_def split: option.splits outcome.splits)
  have 2: "parseSymLine line = Panic msg
      \<longleftrightarrow> msg = ''bad number''
          \<and> (\<exists>m. FindStringSubmatch linePat line = Some m
                 \<and> (Atoi (m ! 2) = None \<or> Atoi (m ! 3) = None))"
    by (auto simp add: parseSymLine_def atoi_def split: option.splits outcome.splits)
  have 3: "parseSymLine line = Returns (Inl (InvalidKind t))
      \<longleftrightarrow> (\<exists>m. FindStringSubmatch linePat line = Some m
                 \<and> Atoi (m ! 2) \<noteq> None \<and> Atoi (m ! 3) \<noteq> None
                 \<and> t = m ! 7 \<and> objKinds t = None)"
    by (auto simp add: parseSymLine_def atoi_def split: option.splits outcome.splits)
  have 4: "(\<exists>l. parseSymLine line = Returns (Inr l))
      \<longleftrightarrow> (\<exists>m. FindStringSubmatch linePat line = Some m
                 \<and> Atoi (m ! 2) \<noteq> None \<and> Atoi (m ! 3) \<noteq> None
                 \<and> \<not> objKinds (m ! 7) = None)"
    by (auto simp add: parseSymLine_def atoi_def split: option.splits outcome.splits)
  have 5: "parseSymLine line = Returns (Inr l) \<longrightarrow>
      (\<exists>m. FindStringSubmatch linePat line = Some m
         \<and> Atoi (m ! 2) = Some (Line (l_pos l)) \<and> Atoi (m ! 3) = Some (Column (l_pos l))
         \<and> objKinds (m ! 7) = Some (l_kind l))"
    by (auto simp add: parseSymLine_def atoi_def split: option.splits outcome.splits)
  have 6: "parseSymLine line \<noteq> Returns (Inl (UnknownTypeKind t))"
    by (auto simp add: parseSymLine_def atoi_def split: option.splits outcome.splits)
  have 7: "(\<exists>rest. line = m ! 1 @ '':'' @ m ! 2 @ '':'' @ m ! 3 @ '':'' @ rest)
        \<and> CHR '':'' \<notin> set (m ! 1)
        \<and> m ! 2 \<noteq> [] \<and> set (m ! 2) \<subseteq> set decimal
        \<and> m ! 3 \<noteq> [] \<and> set (m ! 3) \<subseteq> set decimal
        \<and> (Atoi (m ! 2) = None
             \<longleftrightarrow> 2 ^ 63 - 1 < foldl (\<lambda>a c. 10 * a + digit_val c) 0 (m ! 2))
        \<and> (Atoi (m ! 3) = None
             \<longleftrightarrow> 2 ^ 63 - 1 < foldl (\<lambda>a c. 10 * a + digit_val c) 0 (m ! 3))
        \<and> m ! 7 \<noteq> line"
    if m: "FindStringSubmatch linePat line = Some m"
  proof -
    note f = parseSymLine_fields [OF m]
    from f have d2: "m ! 2 \<noteq> []" "set (m ! 2) \<subseteq> set decimal"
      and d3: "m ! 3 \<noteq> []" "set (m ! 3) \<subseteq> set decimal"
      by blast+
    have a2: "Atoi (m ! 2) = None
             \<longleftrightarrow> 2 ^ 63 - 1 < foldl (\<lambda>a c. 10 * a + digit_val c) 0 (m ! 2)"
      by (simp add: Atoi_decimal [OF d2])
    have a3: "Atoi (m ! 3) = None
             \<longleftrightarrow> 2 ^ 63 - 1 < foldl (\<lambda>a c. 10 * a + digit_val c) 0 (m ! 3)"
      by (simp add: Atoi_decimal [OF d3])
    from f a2 a3 show ?thesis
      by (intro conjI) blast+
  qed
  have 8: "FindStringSubmatch linePat line = Some m \<longrightarrow>
        (\<exists>rest. line = m ! 1 @ '':'' @ m ! 2 @ '':'' @ m ! 3 @ '':'' @ rest)
        \<and> CHR '':'' \<notin> set (m ! 1)
        \<and> m ! 2 \<noteq> [] \<and> set (m ! 2) \<subseteq> set decimal
        \<and> m ! 3 \<noteq> [] \<and> set (m ! 3) \<subseteq> set decimal
        \<and> (Atoi (m ! 2) = None
             \<longleftrightarrow> 2 ^ 63 - 1 < foldl (\<lambda>a c. 10 * a + digit_val c) 0 (m ! 2))
        \<and> (Atoi (m ! 3) = None
             \<longleftrightarrow> 2 ^ 63 - 1 < foldl (\<lambda>a c. 10 * a + digit_val c) 0 (m ! 3))
        \<and> m ! 7 \<noteq> line"
    using 7 by (rule impI)
  show ?thesis
    apply (rule conjI [OF 1])
    apply (rule conjI [OF 2])
    apply (rule conjI [OF 3 [unfolded k]])
    apply (rule conjI [OF 4 [unfolded k not_not]])
    apply (rule conjI [OF 5])
    apply (rule conjI [OF 6])
    apply (rule 8)
    done
qed

text \<open>
  C9 as stated fails: \<^verbatim>\<open>linePat\<close> matches the first line below, and \<^verbatim>\<open>parseSymLine\<close>
  rejects it with an error that carries the kind field only; a line in the grammar of
  the specification, with an expression before the kind token, is rejected in the same
  way; and a line with a column beyond the range of \<^verbatim>\<open>int\<close> panics.
\<close>

theorem parseSymLine_rejects_matching_lines:
  "FindStringSubmatch linePat ''f.go:1:2: p q Foo''
     = Some [''f.go:1:2: p q Foo'', ''f.go'', ''1'', ''2'', ''p'', ''q'', [], ''Foo'', [], [], []]
   \<and> parseSymLine ''f.go:1:2: p q Foo'' = Returns (Inl (InvalidKind ''Foo''))
   \<and> parseSymLine ''f.go:1:2: p q Foofunc'' = Returns (Inl (InvalidKind ''Foofunc''))
   \<and> FindStringSubmatch linePat ''f.go:1:99999999999999999999: p q func''
     = Some [''f.go:1:99999999999999999999: p q func'', ''f.go'', ''1'',
             ''99999999999999999999'', ''p'', ''q'', [], ''func'', [], [], []]
   \<and> parseSymLine ''f.go:1:99999999999999999999: p q func'' = Panic ''bad number''"
  by code_simp

theorem parseSymLine_outcomes_witness:
  "parseSymLine ''no position here'' = Returns (Inl (InvalidLine ''no position here''))
   \<and> parseSymLine ''f.go:18446744073709551616:7: p q var int'' = Panic ''bad number''
   \<and> 2 ^ 63 - 1 < foldl (\<lambda>a c. 10 * a + digit_val c) 0 ''18446744073709551616''
   \<and> parseSymLine ''f.go:12:3: p q T.f var string''
       = Returns (Inl (InvalidKind ''T.f''))
   \<and> (\<exists>l. parseSymLine ''f.go:12:3: p q localvar+ []int'' = Returns (Inr l))
   \<and> Atoi ''12'' = Some 12 \<and> Atoi ''3'' = Some 3 \<and> objKinds ''var'' = Some Var"
proof -
  note t = parseSymLine_outcomes
  have f1: "FindStringSubmatch linePat ''no position here'' = None"
    by code_simp
  from t [of "''no position here''" "''no position here''", THEN conjunct1] f1
  have c1: "parseSymLine ''no position here'' = Returns (Inl (InvalidLine ''no position here''))"
    by simp
  have f2: "FindStringSubmatch linePat ''f.go:18446744073709551616:7: p q var int''
      = Some [''f.go:18446744073709551616:7: p q var int'', ''f.go'',
              ''18446744073709551616'', ''7'', ''p'', ''q'', [], ''var'', [], '' int'', ''int'']"
    by code_simp
  have a2: "Atoi ''18446744073709551616'' = None"
    by code_simp
  from t [of "''f.go:18446744073709551616:7: p q var int''" _ "''bad number''",
      THEN conjunct2, THEN conjunct1] f2 a2
  have c2: "parseSymLine ''f.go:18446744073709551616:7: p q var int'' = Panic ''bad number''"
    by simp
  from t [of "''f.go:18446744073709551616:7: p q var int''" _ _ _
      "[''f.go:18446744073709551616:7: p q var int'', ''f.go'',
              ''18446744073709551616'', ''7'', ''p'', ''q'', [], ''var'', [], '' int'', ''int'']",
      THEN conjunct2, THEN conjunct2, THEN conjunct2, THEN conjunct2, THEN conjunct2,
      THEN conjunct2, rule_format, OF f2] a2
  have c3: "2 ^ 63 - 1 < foldl (\<lambda>a c. 10 * a + digit_val c) 0 ''18446744073709551616''"
    by simp
  have f4: "FindStringSubmatch linePat ''f.go:12:3: p q T.f var string''
      = Some [''f.go:12:3: p q T.f var string'', ''f.go'', ''12'', ''3'', ''p'', ''q'', [],
              ''T.f'', [], '' var string'', ''var string'']"
    by code_simp
  have n: "Atoi ''12'' = Some 12" "Atoi ''3'' = Some 3"
    by code_simp+
  from t [of "''f.go:12:3: p q T.f var string''" "''T.f''",
      THEN conjunct2, THEN conjunct2, THEN conjunct1] f4 n
  have c4: "parseSymLine ''f.go:12:3: p q T.f var string''
       = Returns (Inl (InvalidKind ''T.f''))"
    by simp
  have f5: "FindStringSubmatch linePat ''f.go:12:3: p q localvar+ []int''
      = Some [''f.go:12:3: p q localvar+ []int'', ''f.go'', ''12'', ''3'', ''p'', ''q'',
              ''local'', ''var'', ''+'', '' []int'', ''[]int'']"
    by code_simp
  from t [of "''f.go:12:3: p q localvar+ []int''",
      THEN conjunct2, THEN conjunct2, THEN conjunct2, THEN conjunct1] f5 n
  have c5: "\<exists>l. parseSymLine ''f.go:12:3: p q localvar+ []int'' = Returns (Inr l)"
    by simp
  then obtain l where l: "parseSymLine ''f.go:12:3: p q localvar+ []int'' = Returns (Inr l)"
    by blast
  from t [of "''f.go:12:3: p q localvar+ []int''" _ _ l,
      THEN conjunct2, THEN conjunct2, THEN conjunct2, THEN conjunct2, THEN conjunct1,
      rule_format, OF l] f5
  have c6: "objKinds ''var'' = Some (l_kind l)"
    by simp
  have c7: "objKinds ''var'' = Some Var"
    by code_simp
  from c1 c2 c3 c4 c5 n c7 show ?thesis
    by simp
qed

end
